(* ===== verification/Prelude.thy ===== *)
theory Prelude
  imports Main "HOL-Library.Word" "HOL-Library.Sublist"
begin

text \<open>
  The shared base of the development: the pieces of the Rust language and of its standard
  library that the sources use, as executable functions, with the lemmas the components
  share.

  \<^item> A Rust \<open>str\<close> is its UTF-8 byte sequence; it is modelled as a \<^typ>\<open>string\<close>, whose
    characters are bytes. Every pattern the sources split on is ASCII, and in UTF-8 an
    ASCII byte never occurs inside a longer character, so splitting bytewise is splitting
    by characters.
  \<^item> A \<open>u8\<close> buffer is a list of 8-bit words, a \<open>u32\<close> or \<open>u64\<close> a 32- or 64-bit word.
  \<^item> A \<open>Result\<close> is a sum with the error on the left, an \<open>Option\<close> is an \<open>option\<close>.
  \<^item> A \<open>SystemTime\<close> is the signed number of nanoseconds from the Unix epoch, a \<open>Duration\<close>
    the number of nanoseconds.
\<close>

section \<open>Collections of facts\<close>

named_theorems rust_str \<open>facts on the string primitives\<close>
named_theorems wire \<open>facts on byte encodings\<close>
named_theorems inverts \<open>inversion of successful operations\<close>

section \<open>Types\<close>

type_synonym byte = "8 word"
type_synonym u32 = "32 word"
type_synonym u64 = "64 word"

text \<open>Nanoseconds: \<open>std::time::SystemTime\<close> and \<open>std::time::Duration\<close>.\<close>

type_synonym sys_time = int
type_synonym duration = nat

section \<open>Results\<close>

text \<open>\<open>Option::ok_or\<close>, and the \<open>?\<close> operator on a \<open>Result\<close>.\<close>

fun ok_or :: "'e \<Rightarrow> 'a option \<Rightarrow> 'e + 'a" where
  "ok_or e None = Inl e"
| "ok_or e (Some x) = Inr x"

fun and_then :: "'e + 'a \<Rightarrow> ('a \<Rightarrow> 'e + 'b) \<Rightarrow> 'e + 'b" where
  "and_then (Inl e) f = Inl e"
| "and_then (Inr x) f = f x"

text \<open>\<open>Result::map_err\<close> and \<open>Result::ok\<close>.\<close>

fun map_err :: "('e \<Rightarrow> 'f) \<Rightarrow> 'e + 'a \<Rightarrow> 'f + 'a" where
  "map_err f (Inl e) = Inl (f e)"
| "map_err f (Inr x) = Inr x"

fun result_ok :: "'e + 'a \<Rightarrow> 'a option" where
  "result_ok (Inl e) = None"
| "result_ok (Inr x) = Some x"

text \<open>
  \<open>iter.map(f).collect::<Result<Vec<_>, _>>()\<close>: the elements are taken in order and the
  first error ends the collection.
\<close>

fun collect_results :: "('a \<Rightarrow> 'e + 'b) \<Rightarrow> 'a list \<Rightarrow> 'e + 'b list" where
  "collect_results f [] = Inr []"
| "collect_results f (x # xs) =
     (case f x of Inl e \<Rightarrow> Inl e
      | Inr y \<Rightarrow> (case collect_results f xs of Inl e \<Rightarrow> Inl e | Inr ys \<Rightarrow> Inr (y # ys)))"

lemma ok_or_Inr [simp]: "ok_or e x = Inr y \<longleftrightarrow> x = Some y"
  by (cases x) auto

lemma and_then_Inr [simp]: "and_then r f = Inr y \<longleftrightarrow> (\<exists>x. r = Inr x \<and> f x = Inr y)"
  by (cases r) auto

lemma map_err_Inr [simp]: "map_err f r = Inr y \<longleftrightarrow> r = Inr y"
  by (cases r) auto

lemma map_err_Inl [simp]: "map_err f r = Inl e \<longleftrightarrow> (\<exists>e'. r = Inl e' \<and> e = f e')"
  by (cases r) auto

lemma result_ok_Some [simp]: "result_ok r = Some x \<longleftrightarrow> r = Inr x"
  by (cases r) auto

lemma collect_results_Inr:
  "collect_results f xs = Inr ys \<longleftrightarrow> list_all2 (\<lambda>x y. f x = Inr y) xs ys"
proof (induction xs arbitrary: ys)
  case (Cons a xs)
  show ?case
  proof (cases "f a")
    case (Inr b)
    have "(collect_results f (a # xs) = Inr ys) \<longleftrightarrow>
        (\<exists>zs. ys = b # zs \<and> collect_results f xs = Inr zs)"
      using Inr by (auto split: sum.splits)
    then show ?thesis using Inr by (auto simp: Cons.IH list_all2_Cons1)
  qed (auto simp: list_all2_Cons1)
qed auto

lemma collect_results_Inl:
  assumes "collect_results f xs = Inl e"
  shows "\<exists>ys x zs. xs = ys @ x # zs \<and> f x = Inl e \<and> (\<forall>y\<in>set ys. \<exists>z. f y = Inr z)"
  using assms
proof (induction xs)
  case (Cons a xs)
  show ?case
  proof (cases "f a")
    case (Inl e')
    with Cons.prems have "f a = Inl e" by simp
    then show ?thesis by (intro exI [of _ "[]"]) auto
  next
    case (Inr b)
    with Cons.prems have "collect_results f xs = Inl e" by (auto split: sum.splits)
    from Cons.IH [OF this] obtain ys x zs
      where "xs = ys @ x # zs" "f x = Inl e" "\<forall>y\<in>set ys. \<exists>z. f y = Inr z" by auto
    with Inr show ?thesis by (intro exI [of _ "a # ys"]) auto
  qed
qed simp

lemma in_set_map_filter: "y \<in> set (List.map_filter f xs) \<longleftrightarrow> (\<exists>x\<in>set xs. f x = Some y)"
  by (induction xs) (auto simp: map_filter_simps split: option.splits)

lemma subseq_set: "subseq xs ys \<Longrightarrow> set xs \<subseteq> set ys"
  by (induction rule: list_emb.induct) auto

lemma sorted_wrt_subseq:
  assumes "subseq xs ys" "sorted_wrt P ys"
  shows "sorted_wrt P xs"
  using assms
proof (induction rule: list_emb.induct)
  case (list_emb_Cons2 x y xs ys)
  moreover have "set xs \<subseteq> set ys" using list_emb_Cons2.hyps by (auto dest: subseq_set)
  ultimately show ?case by auto
qed auto

section \<open>Strings\<close>

text \<open>\<open>str::split_once\<close> and \<open>str::rsplit_once\<close> with a character.\<close>

fun split_once :: "char \<Rightarrow> string \<Rightarrow> (string \<times> string) option" where
  "split_once c [] = None"
| "split_once c (x # xs) =
     (if x = c then Some ([], xs) else map_option (apfst (Cons x)) (split_once c xs))"

definition rsplit_once :: "char \<Rightarrow> string \<Rightarrow> (string \<times> string) option" where
  "rsplit_once c s = map_option (\<lambda>(a, b). (rev b, rev a)) (split_once c (rev s))"

text \<open>\<open>str::split\<close> with a character: at least one piece, empty pieces kept.\<close>

fun split_on :: "char \<Rightarrow> string \<Rightarrow> string list" where
  "split_on c [] = [[]]"
| "split_on c (x # xs) =
     (if x = c then [] # split_on c xs
      else (case split_on c xs of [] \<Rightarrow> [[x]] | p # ps \<Rightarrow> (x # p) # ps))"

text \<open>\<open>str::strip_prefix\<close>, also on byte slices, and \<open>[_]::join\<close>.\<close>

definition strip_prefix :: "'a list \<Rightarrow> 'a list \<Rightarrow> 'a list option" where
  "strip_prefix p s = (if take (length p) s = p then Some (drop (length p) s) else None)"

fun join_with :: "string \<Rightarrow> string list \<Rightarrow> string" where
  "join_with sep [] = []"
| "join_with sep [x] = x"
| "join_with sep (x # y # ys) = x @ sep @ join_with sep (y # ys)"

lemma split_once_Some [rust_str]:
  "split_once c s = Some (a, b) \<longleftrightarrow> s = a @ c # b \<and> c \<notin> set a"
proof (induction s arbitrary: a)
  case (Cons x xs)
  then show ?case by (cases a) auto
qed simp

lemma split_once_None [rust_str]: "split_once c s = None \<longleftrightarrow> c \<notin> set s"
  by (induction s) auto

lemma split_once_append [simp]: "c \<notin> set a \<Longrightarrow> split_once c (a @ c # b) = Some (a, b)"
  by (simp add: split_once_Some)

lemma rsplit_once_Some [rust_str]:
  "rsplit_once c s = Some (a, b) \<longleftrightarrow> s = a @ c # b \<and> c \<notin> set b"
proof -
  have "rsplit_once c s = Some (a, b) \<longleftrightarrow> split_once c (rev s) = Some (rev b, rev a)"
    by (auto simp: rsplit_once_def)
  also have "\<dots> \<longleftrightarrow> s = a @ c # b \<and> c \<notin> set b"
    unfolding split_once_Some by (auto simp: rev_swap)
  finally show ?thesis .
qed

lemma rsplit_once_None [rust_str]: "rsplit_once c s = None \<longleftrightarrow> c \<notin> set s"
  by (simp add: rsplit_once_def split_once_None)

lemma rsplit_once_append [simp]: "c \<notin> set b \<Longrightarrow> rsplit_once c (a @ c # b) = Some (a, b)"
  by (simp add: rsplit_once_Some)

lemma split_on_not_Nil [simp]: "split_on c s \<noteq> []"
  by (induction s) (auto split: list.splits)

lemma split_on_no_sep: "p \<in> set (split_on c s) \<Longrightarrow> c \<notin> set p"
  by (induction s arbitrary: p) (auto split: list.splits if_splits)

lemma split_on_single [simp]: "c \<notin> set s \<Longrightarrow> split_on c s = [s]"
  by (induction s) auto

lemma split_on_append [simp]: "c \<notin> set a \<Longrightarrow> split_on c (a @ c # b) = a # split_on c b"
  by (induction a) auto

lemma join_split_on: "join_with [c] (split_on c s) = s"
proof (induction s)
  case (Cons x xs)
  then show ?case by (cases "split_on c xs"; cases "tl (split_on c xs)") auto
qed simp

lemma split_join_with:
  assumes "ps \<noteq> []" "\<forall>p\<in>set ps. c \<notin> set p"
  shows "split_on c (join_with [c] ps) = ps"
  using assms by (induction "[c]" ps rule: join_with.induct) auto

lemma strip_prefix_Some [rust_str]: "strip_prefix p s = Some r \<longleftrightarrow> s = p @ r"
  unfolding strip_prefix_def
  by (metis append_eq_conv_conj append_take_drop_id option.inject option.simps(3))

lemma strip_prefix_append [simp]: "strip_prefix p (p @ r) = Some r"
  by (simp add: strip_prefix_Some)

lemma strip_prefix_None [rust_str]: "strip_prefix p s = None \<longleftrightarrow> \<not> prefix p s"
  by (metis prefix_def strip_prefix_Some not_Some_eq)

section \<open>Characters and bytes\<close>

definition byte_of_char :: "char \<Rightarrow> byte" where
  "byte_of_char c = of_nat (of_char c)"

definition char_of_byte :: "byte \<Rightarrow> char" where
  "char_of_byte b = char_of (unat b)"

text \<open>\<open>str::as_bytes\<close>, and the string with these bytes.\<close>

definition as_bytes :: "string \<Rightarrow> byte list" where
  "as_bytes s = map byte_of_char s"

definition str_of_bytes :: "byte list \<Rightarrow> string" where
  "str_of_bytes bs = map char_of_byte bs"

lemma of_char_less_256 [simp]: "(of_char c :: nat) < 256"
  by (metis nat_of_char_less_256)

lemma char_of_byte_of_char [simp]: "char_of_byte (byte_of_char c) = c"
  by (simp add: char_of_byte_def byte_of_char_def unat_of_nat)

lemma unat_byte_less [simp]: "unat (b :: byte) < 256"
proof -
  have "unat b < 2 ^ LENGTH(8)" by (rule unsigned_less)
  then show ?thesis by simp
qed

lemma unat_u64_less [simp]: "unat (w :: u64) < 18446744073709551616"
proof -
  have "unat w < 2 ^ LENGTH(64)" by (rule unsigned_less)
  then show ?thesis by simp
qed

lemma byte_of_char_of_byte [simp]: "byte_of_char (char_of_byte b) = b"
  by (simp add: char_of_byte_def byte_of_char_def)

lemma str_of_bytes_as_bytes [simp]: "str_of_bytes (as_bytes s) = s"
  by (simp add: str_of_bytes_def as_bytes_def comp_def)

lemma as_bytes_str_of_bytes [simp]: "as_bytes (str_of_bytes bs) = bs"
  by (simp add: str_of_bytes_def as_bytes_def comp_def)

lemma as_bytes_inj [simp]: "as_bytes s = as_bytes t \<longleftrightarrow> s = t"
  by (metis str_of_bytes_as_bytes)

lemma as_bytes_append [simp]: "as_bytes (s @ t) = as_bytes s @ as_bytes t"
  by (simp add: as_bytes_def)

lemma length_str_of_bytes [simp]: "length (str_of_bytes bs) = length bs"
  by (simp add: str_of_bytes_def)

lemma length_as_bytes [simp]: "length (as_bytes s) = length s"
  by (simp add: as_bytes_def)

section \<open>Numbers and their text\<close>

definition digit_char :: "nat \<Rightarrow> char" where
  "digit_char d = (if d < 10 then char_of (48 + d) else char_of (87 + d))"

text \<open>\<open>{n}\<close> of an unsigned integer: decimal, no leading zero.\<close>

fun show_nat :: "nat \<Rightarrow> string" where
  "show_nat n = (if n < 10 then [digit_char n] else show_nat (n div 10) @ [digit_char (n mod 10)])"

declare show_nat.simps [simp del]

text \<open>\<open>char::to_digit\<close> for a radix up to 16: both letter cases are accepted.\<close>

definition to_digit :: "nat \<Rightarrow> char \<Rightarrow> nat option" where
  "to_digit radix c =
     (let n = (of_char c :: nat);
          d = (if 48 \<le> n \<and> n < 58 then n - 48
               else if 97 \<le> n \<and> n < 103 then n - 87
               else if 65 \<le> n \<and> n < 71 then n - 55 else radix)
      in if d < radix then Some d else None)"

text \<open>
  \<open>from_str_radix\<close> of an unsigned type with values below \<open>lim\<close>: the empty string and a
  lone sign are refused, one leading \<open>+\<close> is accepted, every step is overflow-checked.
\<close>

fun parse_digits :: "nat \<Rightarrow> nat \<Rightarrow> nat \<Rightarrow> string \<Rightarrow> nat option" where
  "parse_digits radix lim acc [] = Some acc"
| "parse_digits radix lim acc (c # cs) =
     (case to_digit radix c of None \<Rightarrow> None
      | Some d \<Rightarrow> if acc * radix + d < lim then parse_digits radix lim (acc * radix + d) cs else None)"

definition parse_uint :: "nat \<Rightarrow> nat \<Rightarrow> string \<Rightarrow> nat option" where
  "parse_uint radix lim s =
     (case s of [] \<Rightarrow> None
      | c # cs \<Rightarrow>
          if c = CHR ''+'' then (if cs = [] then None else parse_digits radix lim 0 cs)
          else parse_digits radix lim 0 s)"

text \<open>\<open>str::parse::<u64>\<close>.\<close>

definition parse_u64 :: "string \<Rightarrow> u64 option" where
  "parse_u64 s = map_option of_nat (parse_uint 10 (2 ^ 64) s)"

lemma of_char_digit_char: "d < 10 \<Longrightarrow> (of_char (digit_char d) :: nat) = 48 + d"
  by (simp add: digit_char_def)

lemma to_digit_digit_char [simp]: "d < 10 \<Longrightarrow> to_digit 10 (digit_char d) = Some d"
  by (simp add: to_digit_def of_char_digit_char Let_def)

lemma show_nat_digits: "c \<in> set (show_nat n) \<Longrightarrow> \<exists>d < 10. c = digit_char d"
proof (induction n rule: show_nat.induct)
  case (1 n)
  show ?case
  proof (cases "n < 10")
    case True
    with "1.prems" show ?thesis by (subst (asm) show_nat.simps) auto
  next
    case False
    with "1.prems" have "c \<in> set (show_nat (n div 10)) \<or> c = digit_char (n mod 10)"
      by (subst (asm) show_nat.simps) auto
    with False "1.IH" show ?thesis by (auto intro: exI [of _ "n mod 10"])
  qed
qed

lemma show_nat_not_Nil [simp]: "show_nat n \<noteq> []"
  by (subst show_nat.simps) simp

lemma show_nat_no_char:
  assumes "\<not> (48 \<le> (of_char c :: nat) \<and> (of_char c :: nat) < 58)"
  shows "c \<notin> set (show_nat n)"
  using assms show_nat_digits [of c n] by (auto simp: of_char_digit_char)

lemma parse_digits_append:
  assumes "parse_digits radix lim acc s = Some m"
  shows "parse_digits radix lim acc (s @ t) = parse_digits radix lim m t"
  using assms by (induction radix lim acc s rule: parse_digits.induct)
    (auto split: option.splits if_splits)

lemma parse_digits_show_nat: "n < lim \<Longrightarrow> parse_digits 10 lim 0 (show_nat n) = Some n"
proof (induction n rule: show_nat.induct)
  case (1 n)
  show ?case
  proof (cases "n < 10")
    case True
    with "1.prems" show ?thesis by (subst show_nat.simps) simp
  next
    case False
    then have "n div 10 < lim" using "1.prems" by simp
    with False "1.IH" have IH: "parse_digits 10 lim 0 (show_nat (n div 10)) = Some (n div 10)"
      by simp
    have "n div 10 * 10 + n mod 10 = n" by simp
    with "1.prems" have "parse_digits 10 lim (n div 10) [digit_char (n mod 10)] = Some n"
      by (simp only: parse_digits.simps to_digit_digit_char [of "n mod 10"]) simp
    with False IH show ?thesis
      by (subst show_nat.simps) (simp only: if_False parse_digits_append)
  qed
qed

lemma hd_show_nat: "\<exists>d < 10. hd (show_nat n) = digit_char d"
  using show_nat_digits [of "hd (show_nat n)" n] by simp

lemma parse_uint_show_nat [simp]:
  assumes "n < lim"
  shows "parse_uint 10 lim (show_nat n) = Some n"
proof -
  obtain c cs where s: "show_nat n = c # cs" by (cases "show_nat n") auto
  have "c \<noteq> CHR ''+''"
    using show_nat_no_char [of "CHR ''+''" n] s by auto
  with s parse_digits_show_nat [OF assms] show ?thesis by (simp add: parse_uint_def)
qed

lemma parse_u64_show [simp]: "parse_u64 (show_nat (unat w)) = Some w"
  by (simp add: parse_u64_def)

lemma parse_digits_bound:
  "parse_digits radix lim acc s = Some n \<Longrightarrow> acc < lim \<Longrightarrow> n < lim"
  by (induction radix lim acc s rule: parse_digits.induct) (auto split: option.splits if_splits)

lemma show_nat_inj: "show_nat m = show_nat n \<Longrightarrow> m = n"
  by (metis less_Suc_eq_le linear lessI option.inject parse_uint_show_nat)

lemma parse_u64_Nil [simp]: "parse_u64 [] = None"
  by (simp add: parse_u64_def parse_uint_def)

section \<open>Time\<close>

definition nanos_per_sec :: nat where
  "nanos_per_sec = 1000000000"

text \<open>\<open>SystemTime::duration_since\<close>: an error (\<open>None\<close>) when the other instant is later.\<close>

definition duration_since :: "sys_time \<Rightarrow> sys_time \<Rightarrow> duration option" where
  "duration_since t earlier = (if earlier \<le> t then Some (nat (t - earlier)) else None)"

definition unix_epoch :: sys_time where
  "unix_epoch = 0"

text \<open>\<open>Duration::from_secs\<close> and \<open>Duration::as_secs\<close>, the latter truncating.\<close>

definition from_secs :: "u64 \<Rightarrow> duration" where
  "from_secs s = unat s * nanos_per_sec"

definition as_secs :: "duration \<Rightarrow> u64" where
  "as_secs d = of_nat (d div nanos_per_sec)"

text \<open>A \<open>Duration\<close> holds at most \<open>u64::MAX\<close> whole seconds.\<close>

definition valid_duration :: "duration \<Rightarrow> bool" where
  "valid_duration d \<longleftrightarrow> d div nanos_per_sec < 2 ^ 64"

text \<open>\<open>u64::saturating_add\<close> and \<open>u64::MAX\<close>.\<close>

definition u64_max :: u64 where
  "u64_max = 18446744073709551615"

definition saturating_add :: "u64 \<Rightarrow> u64 \<Rightarrow> u64" where
  "saturating_add a b = (if unat a + unat b < 2 ^ 64 then a + b else u64_max)"

lemma duration_since_Some: "duration_since t e = Some d \<longleftrightarrow> e \<le> t \<and> d = nat (t - e)"
  by (auto simp: duration_since_def)

lemma duration_since_None: "duration_since t e = None \<longleftrightarrow> t < e"
  by (auto simp: duration_since_def)

lemma as_secs_from_secs [simp]: "as_secs (from_secs s) = s"
  by (simp add: as_secs_def from_secs_def nanos_per_sec_def)

lemma unat_as_secs: "valid_duration d \<Longrightarrow> unat (as_secs d) = d div nanos_per_sec"
  by (simp add: as_secs_def valid_duration_def unat_of_nat)

lemma from_secs_less [simp]: "from_secs a < from_secs b \<longleftrightarrow> unat a < unat b"
  by (simp add: from_secs_def nanos_per_sec_def)

lemma from_secs_inj [simp]: "from_secs a = from_secs b \<longleftrightarrow> a = b"
  by (metis as_secs_from_secs)

lemma unat_saturating_add: "unat (saturating_add a b) = min (unat a + unat b) (2 ^ 64 - 1)"
  by (auto simp: saturating_add_def u64_max_def unat_word_ariths)

section \<open>Paths\<close>

text \<open>\<open>PathBuf::join\<close> with a relative component.\<close>

definition path_join :: "string \<Rightarrow> string \<Rightarrow> string" where
  "path_join a b = (if a = [] then b else if last a = CHR ''/'' then a @ b else a @ ''/'' @ b)"

section \<open>Sequencing\<close>

text \<open>A fallible action on a state, and what follows it when it succeeds.\<close>

fun seq :: "('e + 'a) \<times> 's \<Rightarrow> ('a \<Rightarrow> 's \<Rightarrow> ('e + 'b) \<times> 's) \<Rightarrow> ('e + 'b) \<times> 's" where
  "seq (Inl e, s) f = (Inl e, s)"
| "seq (Inr x, s) f = f x s"

lemma seq_Inr: "seq r f = (Inr y, s') \<longleftrightarrow> (\<exists>x s. r = (Inr x, s) \<and> f x s = (Inr y, s'))"
  by (cases "(r, f)" rule: seq.cases) auto

lemma seq_case: "seq r f = (case r of (Inr x, s) \<Rightarrow> f x s | (Inl e, s) \<Rightarrow> (Inl e, s))"
  by (cases "(r, f)" rule: seq.cases) auto

section \<open>Searching a list\<close>

lemma find_SomeD: "find P xs = Some x \<Longrightarrow> x \<in> set xs \<and> P x"
  by (induction xs) (auto split: if_splits)

lemma find_map_comp: "find P (map f xs) = map_option f (find (\<lambda>x. P (f x)) xs)"
  by (induction xs) auto

lemma find_distinct:
  assumes "distinct (map f xs)" "x \<in> set xs"
  shows "find (\<lambda>y. f y = f x) (rev xs) = Some x"
proof (cases "find (\<lambda>y. f y = f x) (rev xs)")
  case None
  with assms(2) show ?thesis by (auto simp: find_None_iff)
next
  case (Some y)
  from find_SomeD [OF Some] assms have "y = x" by (auto simp: distinct_map inj_on_def)
  with Some show ?thesis by simp
qed

end
