(* ===== verification/Interfaces.thy ===== *)
theory Interfaces
  imports Prelude "HOL-Library.Multiset"
begin

text \<open>
  The contracts several components share, as locales: a type with a text form that parses
  back (\<open>Display\<close> and \<open>FromStr\<close> of the same Rust type), a requirement that is
  combined over any number of places that name it, strictest first; invariants of a step
  relation and its refinement of an abstract one. Each component that
  offers the operations interprets the locale on them.
\<close>

section \<open>Text forms\<close>

text \<open>
  \<open>Display\<close> and \<open>FromStr\<close> of one type. \<open>wf\<close> holds of the values whose text form the
  parser takes back.
\<close>

locale text_form =
  fixes display :: "'a \<Rightarrow> string"
    and from_str :: "string \<Rightarrow> 'e + 'a"
    and wf :: "'a \<Rightarrow> bool"
  assumes from_str_display: "wf x \<Longrightarrow> from_str (display x) = Inr x"
begin

lemma display_inj: "wf x \<Longrightarrow> wf y \<Longrightarrow> display x = display y \<Longrightarrow> x = y"
  by (metis from_str_display sum.inject(2))

lemma inj_on_display: "inj_on display (Collect wf)"
  by (auto simp: inj_on_def intro: display_inj)

end

text \<open>A parser that accepts the text forms and nothing else: one spelling per value.\<close>

locale exact_text_form = text_form +
  assumes from_str_sound: "from_str s = Inr x \<Longrightarrow> wf x \<and> display x = s"
begin

lemma from_str_iff: "from_str s = Inr x \<longleftrightarrow> wf x \<and> s = display x"
  using from_str_display from_str_sound by blast

lemma one_spelling: "from_str s = Inr x \<Longrightarrow> from_str t = Inr x \<Longrightarrow> s = t"
  by (simp add: from_str_iff)

lemma refused_iff: "(\<exists>e. from_str s = Inl e) \<longleftrightarrow> s \<notin> display ` Collect wf"
proof
  assume "\<exists>e. from_str s = Inl e"
  then show "s \<notin> display ` Collect wf" using from_str_display by fastforce
next
  assume s: "s \<notin> display ` Collect wf"
  show "\<exists>e. from_str s = Inl e"
  proof (cases "from_str s")
    case (Inr x)
    with from_str_sound have "wf x" "display x = s" by auto
    with s show ?thesis by auto
  qed auto
qed

end

section \<open>Requirements that only tighten\<close>

text \<open>
  A requirement named in several places is combined with a join whose neutral element is
  "nothing named". \<open>as_strict_as a b\<close> reads: \<open>a\<close> demands at least what \<open>b\<close> demands.
\<close>

locale requirement =
  fixes combine :: "'a \<Rightarrow> 'a \<Rightarrow> 'a"
    and nothing :: 'a
  assumes combine_assoc: "combine (combine a b) c = combine a (combine b c)"
    and combine_commute: "combine a b = combine b a"
    and combine_idem: "combine a a = a"
    and combine_nothing: "combine nothing a = a"
begin

definition as_strict_as :: "'a \<Rightarrow> 'a \<Rightarrow> bool" where
  "as_strict_as a b \<longleftrightarrow> combine a b = a"

lemma as_strict_as_refl: "as_strict_as a a"
  by (simp add: as_strict_as_def combine_idem)

lemma as_strict_as_trans: "as_strict_as a b \<Longrightarrow> as_strict_as b c \<Longrightarrow> as_strict_as a c"
  unfolding as_strict_as_def by (metis combine_assoc)

lemma fold_from: "foldl combine a xs = combine a (foldl combine nothing xs)"
proof (induction xs arbitrary: a)
  case Nil
  then show ?case by (simp add: combine_commute [of a nothing] combine_nothing)
next
  case (Cons x xs)
  have "foldl combine a (x # xs) = combine (combine a x) (foldl combine nothing xs)"
    using Cons.IH [of "combine a x"] by simp
  also have "\<dots> = combine a (combine x (foldl combine nothing xs))"
    by (rule combine_assoc)
  also have "combine x (foldl combine nothing xs) = foldl combine nothing (x # xs)"
    using Cons.IH [of x] by (simp add: combine_nothing)
  finally show ?case .
qed

lemma fold_Cons: "foldl combine nothing (x # xs) = combine x (foldl combine nothing xs)"
  using fold_from [of x xs] by (simp add: combine_nothing)

lemma fold_append:
  "foldl combine nothing (xs @ ys) = combine (foldl combine nothing xs) (foldl combine nothing ys)"
  by (simp add: fold_from [of "foldl combine nothing xs"])

text \<open>The result demands what each element demands, so adding elements never relaxes it.\<close>

lemma fold_covers: "x \<in> set xs \<Longrightarrow> as_strict_as (foldl combine nothing xs) x"
proof (induction xs)
  case (Cons y ys)
  have swap: "combine (combine y r) x = combine y (combine r x)" for r by (rule combine_assoc)
  show ?case
  proof (cases "x = y")
    case True
    then show ?thesis
      unfolding as_strict_as_def fold_Cons
      by (metis combine_assoc combine_commute combine_idem)
  next
    case False
    with Cons have "as_strict_as (foldl combine nothing ys) x" by simp
    then show ?thesis unfolding as_strict_as_def fold_Cons by (simp add: swap)
  qed
qed simp

lemma fold_mono:
  assumes "set xs \<subseteq> set ys"
  shows "as_strict_as (foldl combine nothing ys) (foldl combine nothing xs)"
  using assms
proof (induction xs)
  case Nil
  then show ?case by (simp add: as_strict_as_def combine_commute combine_nothing)
next
  case (Cons x xs)
  then have "as_strict_as (foldl combine nothing ys) x" by (intro fold_covers) simp
  with Cons show ?case unfolding as_strict_as_def fold_Cons by (simp flip: combine_assoc)
qed

lemma fold_set_eq:
  assumes "set xs = set ys"
  shows "foldl combine nothing xs = foldl combine nothing ys"
proof -
  have "as_strict_as (foldl combine nothing ys) (foldl combine nothing xs)"
    "as_strict_as (foldl combine nothing xs) (foldl combine nothing ys)"
    using assms by (auto intro: fold_mono)
  then show ?thesis unfolding as_strict_as_def by (metis combine_commute)
qed

lemma fold_perm: "mset xs = mset ys \<Longrightarrow> foldl combine nothing xs = foldl combine nothing ys"
  by (intro fold_set_eq) (metis set_mset_mset)

end

section \<open>Invariants of a step relation\<close>

text \<open>A predicate that holds initially and that every step keeps holds wherever steps lead.\<close>

locale inductive_invariant =
  fixes init :: "'s \<Rightarrow> bool"
    and step :: "'s \<Rightarrow> 's \<Rightarrow> bool"
    and inv :: "'s \<Rightarrow> bool"
  assumes inv_init: "init s \<Longrightarrow> inv s"
    and inv_step: "inv s \<Longrightarrow> step s s' \<Longrightarrow> inv s'"
begin

lemma reached:
  assumes "init s" "step\<^sup>*\<^sup>* s s'"
  shows "inv s'"
  using assms(2,1) by (induction rule: rtranclp_induct) (auto intro: inv_init inv_step)

end

text \<open>A second invariant whose steps may use the first.\<close>

locale derived_invariant = inductive_invariant +
  fixes more :: "'a \<Rightarrow> bool"
  assumes more_init: "init s \<Longrightarrow> more s"
    and more_step: "inv s \<Longrightarrow> more s \<Longrightarrow> step s s' \<Longrightarrow> more s'"

sublocale derived_invariant \<subseteq> both: inductive_invariant init step "\<lambda>s. inv s \<and> more s"
  by unfold_locales (auto intro: inv_init inv_step more_init more_step)

section \<open>Refinement of a step relation\<close>

text \<open>
  A forward simulation that may use an invariant: each step is matched by an abstract step or by
  none. Then every run is matched, state by state, by a run of the abstract system.
\<close>

locale forward_simulation = inductive_invariant init step inv
  for init :: "'s \<Rightarrow> bool" and step :: "'s \<Rightarrow> 's \<Rightarrow> bool" and inv :: "'s \<Rightarrow> bool" +
  fixes ainit :: "'a \<Rightarrow> bool"
    and astep :: "'a \<Rightarrow> 'a \<Rightarrow> bool"
    and match :: "'s \<Rightarrow> 'a \<Rightarrow> bool"
  assumes match_init: "init s \<Longrightarrow> \<exists>a. ainit a \<and> match s a"
    and match_step: "inv s \<Longrightarrow> match s a \<Longrightarrow> step s s' \<Longrightarrow> \<exists>a'. astep\<^sup>=\<^sup>= a a' \<and> match s' a'"
begin

lemma run_from:
  assumes "inv s" "match s a" "successively step (s # ss)"
  shows "\<exists>as. successively astep\<^sup>=\<^sup>= (a # as) \<and> list_all2 match (s # ss) (a # as)"
  using assms
proof (induction ss arbitrary: s a)
  case (Cons t ts)
  then have st: "step s t" "successively step (t # ts)" by simp_all
  from match_step [OF Cons.prems(1,2) st(1)] obtain b where b: "astep\<^sup>=\<^sup>= a b" "match t b" by blast
  from Cons.IH [OF inv_step [OF Cons.prems(1) st(1)] b(2) st(2)] obtain as where
    "successively astep\<^sup>=\<^sup>= (b # as)" "list_all2 match (t # ts) (b # as)" by blast
  with b Cons.prems(2) show ?case by (intro exI [of _ "b # as"]) simp
qed simp

lemma run_simulated:
  assumes "init s" "successively step (s # ss)"
  shows "\<exists>a as. ainit a \<and> successively astep\<^sup>=\<^sup>= (a # as) \<and> list_all2 match (s # ss) (a # as)"
  using match_init [OF assms(1)] run_from [OF inv_init [OF assms(1)] _ assms(2)] by blast

end

section \<open>Components that share a state\<close>

text \<open>
  A family of components, each with a state of its own, takes turns on a shared state; between
  two turns the environment may change the shared state.
\<close>

inductive interleave ::
  "('i \<Rightarrow> 'l \<times> 's \<Rightarrow> 'l \<times> 's) \<Rightarrow> ('s \<Rightarrow> 's \<Rightarrow> bool) \<Rightarrow> ('i \<Rightarrow> 'l) \<times> 's \<Rightarrow> ('i \<Rightarrow> 'l) \<times> 's \<Rightarrow> bool"
  for step :: "'i \<Rightarrow> 'l \<times> 's \<Rightarrow> 'l \<times> 's" and env :: "'s \<Rightarrow> 's \<Rightarrow> bool" where
  turn: "step i (l i, s) = (c, s') \<Longrightarrow> interleave step env (l, s) (l(i := c), s')"
| other: "env s s' \<Longrightarrow> interleave step env (l, s) (l, s')"

inductive_cases interleave_elim: "interleave step env (l, s) t"

text \<open>
  What each component keeps of its own state and all of them, with the environment, of the
  shared one.
\<close>

locale shared_invariant =
  fixes step :: "'i \<Rightarrow> 'l \<times> 's \<Rightarrow> 'l \<times> 's"
    and env :: "'s \<Rightarrow> 's \<Rightarrow> bool"
    and start :: 'l
    and inv :: "'i \<Rightarrow> 'l \<Rightarrow> bool"
    and good :: "'s \<Rightarrow> bool"
  assumes inv_start: "inv i start"
    and turn_keeps: "inv i c \<Longrightarrow> good s \<Longrightarrow> step i (c, s) = (c', s') \<Longrightarrow> inv i c' \<and> good s'"
    and env_keeps: "good s \<Longrightarrow> env s s' \<Longrightarrow> good s'"

sublocale shared_invariant \<subseteq> run: inductive_invariant "\<lambda>(l, s). l = (\<lambda>_. start) \<and> good s" "interleave step env"
  "\<lambda>(l, s). (\<forall>i. inv i (l i)) \<and> good s"
proof
  show "case t of (l, s) \<Rightarrow> (\<forall>i. inv i (l i)) \<and> good s"
    if "case t of (l, s) \<Rightarrow> l = (\<lambda>_. start) \<and> good s" for t
    using that inv_start by auto
  show "case t' of (l, s) \<Rightarrow> (\<forall>i. inv i (l i)) \<and> good s"
    if "case t of (l, s) \<Rightarrow> (\<forall>i. inv i (l i)) \<and> good s" "interleave step env t t'" for t t'
    using that(2,1) by (cases rule: interleave.cases) (use turn_keeps env_keeps in \<open>auto, blast+\<close>)
qed

context shared_invariant
begin

lemma interleaved:
  assumes "(interleave step env)\<^sup>*\<^sup>* (\<lambda>_. start, s) (l, s')" "good s"
  shows "inv i (l i)" "good s'"
  using run.reached [OF _ assms(1)] assms(2) by auto

end

end
