(* ===== verification/Spiffe_Id.thy ===== *)
theory Spiffe_Id
  imports Interfaces
begin

text \<open>
  \<open>hire-core/src/spiffe_id.rs\<close>: trust domains, SPIFFE IDs, their URI form and its parser,
  the provenance tail of a path and the pseudonymous form.
\<close>

section \<open>Data\<close>

datatype spiffe_id_error =
    MissingScheme
  | MissingTrustDomain
  | MissingPath
  | UnknownTrustDomain string
  | IllegalTrustDomain string

fun spiffe_id_error_message :: "spiffe_id_error \<Rightarrow> string" where
  "spiffe_id_error_message MissingScheme = ''missing spiffe:// scheme''"
| "spiffe_id_error_message MissingTrustDomain = ''missing trust domain''"
| "spiffe_id_error_message MissingPath = ''missing path''"
| "spiffe_id_error_message (UnknownTrustDomain td) = ''unknown trust domain: '' @ td"
| "spiffe_id_error_message (IllegalTrustDomain td) = ''illegal character in trust domain: '' @ td"

datatype trust_domain =
    Tailscale
  | OrgOidc string
  | PersonalDid string
  | PivIssuer string
  | SshLocal
  | PgpLocal

record spiffe_id =
  sid_trust_domain :: trust_domain
  sid_path :: string

section \<open>Operations\<close>

fun display_trust_domain :: "trust_domain \<Rightarrow> string" where
  "display_trust_domain Tailscale = ''tailscale''"
| "display_trust_domain (OrgOidc domain) = ''oidc.'' @ domain"
| "display_trust_domain (PersonalDid did) = ''personal.'' @ did"
| "display_trust_domain (PivIssuer issuer) = ''piv.'' @ issuer"
| "display_trust_domain SshLocal = ''ssh.local''"
| "display_trust_domain PgpLocal = ''pgp.local''"

text \<open>The bytes a trust domain may hold: \<open>[a-z0-9._-]\<close>.\<close>

definition legal_td_char :: "char \<Rightarrow> bool" where
  "legal_td_char c \<longleftrightarrow>
     (let n = (of_char c :: nat) in
      (97 \<le> n \<and> n \<le> 122) \<or> (48 \<le> n \<and> n \<le> 57) \<or> c \<in> set ''.-_'')"

definition trust_domain_from_str :: "string \<Rightarrow> spiffe_id_error + trust_domain" where
  "trust_domain_from_str s =
     (if s = [] then Inl MissingTrustDomain
      else if \<not> list_all legal_td_char s then Inl (IllegalTrustDomain s)
      else if s = ''tailscale'' then Inr Tailscale
      else if s = ''ssh.local'' then Inr SshLocal
      else if s = ''pgp.local'' then Inr PgpLocal
      else case split_once CHR ''.'' s of
        None \<Rightarrow> Inl (UnknownTrustDomain s)
      | Some (label, rest) \<Rightarrow>
          if label = ''personal'' \<and> rest \<noteq> [] then Inr (PersonalDid rest)
          else if label = ''piv'' \<and> rest \<noteq> [] then Inr (PivIssuer rest)
          else if label = ''oidc'' \<and> rest \<noteq> [] then Inr (OrgOidc rest)
          else Inl (UnknownTrustDomain s))"

definition new_spiffe_id :: "trust_domain \<Rightarrow> string \<Rightarrow> spiffe_id" where
  "new_spiffe_id td p = \<lparr>sid_trust_domain = td, sid_path = p\<rparr>"

definition uri :: "spiffe_id \<Rightarrow> string" where
  "uri sid = ''spiffe://'' @ display_trust_domain (sid_trust_domain sid) @ ''/'' @ sid_path sid"

definition spiffe_id_from_str :: "string \<Rightarrow> spiffe_id_error + spiffe_id" where
  "spiffe_id_from_str s =
     (case strip_prefix ''spiffe://'' s of
        None \<Rightarrow> Inl MissingScheme
      | Some rest \<Rightarrow>
          (case split_once CHR ''/'' rest of
             None \<Rightarrow> Inl MissingPath
           | Some (td_str, p) \<Rightarrow>
               if td_str = [] then Inl MissingTrustDomain
               else if p = [] then Inl MissingPath
               else and_then (trust_domain_from_str td_str) (\<lambda>td. Inr (new_spiffe_id td p))))"

definition provenance :: "spiffe_id \<Rightarrow> string option" where
  "provenance sid =
     (case rsplit_once CHR ''/'' (sid_path sid) of
        None \<Rightarrow> None
      | Some (pre, source) \<Rightarrow>
          if pre = ''via'' \<or> suffix ''/via'' pre then Some source else None)"

definition pseudonymous :: "trust_domain \<Rightarrow> string \<Rightarrow> spiffe_id" where
  "pseudonymous td hkdf_id = new_spiffe_id td (''pseudonym/'' @ hkdf_id)"

section \<open>The text form of a trust domain\<close>

text \<open>The trust domains whose text form is a legal authority naming something.\<close>

fun wf_trust_domain :: "trust_domain \<Rightarrow> bool" where
  "wf_trust_domain (OrgOidc d) \<longleftrightarrow> d \<noteq> [] \<and> list_all legal_td_char d"
| "wf_trust_domain (PersonalDid d) \<longleftrightarrow> d \<noteq> [] \<and> list_all legal_td_char d"
| "wf_trust_domain (PivIssuer d) \<longleftrightarrow> d \<noteq> [] \<and> list_all legal_td_char d"
| "wf_trust_domain _ \<longleftrightarrow> True"

lemma legal_td_char_simps [simp]:
  "legal_td_char CHR ''.''"
  "\<not> legal_td_char CHR ''/''"
  by (simp_all add: legal_td_char_def)

lemma display_legal: "wf_trust_domain td \<Longrightarrow> list_all legal_td_char (display_trust_domain td)"
  by (cases td) (simp_all add: legal_td_char_def)

lemma display_trust_domain_not_Nil [simp]: "display_trust_domain td \<noteq> []"
  by (cases td) simp_all

lemma display_trust_domain_inj [simp]:
  "display_trust_domain a = display_trust_domain b \<longleftrightarrow> a = b"
  by (cases a; cases b) simp_all

lemma trust_domain_from_str_display:
  assumes "wf_trust_domain td"
  shows "trust_domain_from_str (display_trust_domain td) = Inr td"
  using assms display_legal [OF assms]
  by (cases td) (auto simp: trust_domain_from_str_def legal_td_char_def Let_def)

lemma trust_domain_from_str_sound:
  assumes "trust_domain_from_str s = Inr td"
  shows "wf_trust_domain td \<and> display_trust_domain td = s"
  using assms unfolding trust_domain_from_str_def
  by (auto split: if_splits option.splits simp: split_once_Some)

interpretation trust_domain_text:
  exact_text_form display_trust_domain trust_domain_from_str wf_trust_domain
  by standard (auto intro: trust_domain_from_str_display dest: trust_domain_from_str_sound)

section \<open>The URI form of a SPIFFE ID\<close>

definition wf_spiffe_id :: "spiffe_id \<Rightarrow> bool" where
  "wf_spiffe_id sid \<longleftrightarrow> wf_trust_domain (sid_trust_domain sid) \<and> sid_path sid \<noteq> []"

lemma no_slash_display: "wf_trust_domain td \<Longrightarrow> CHR ''/'' \<notin> set (display_trust_domain td)"
  using display_legal [of td] by (auto simp: list_all_iff)

lemma spiffe_id_from_str_uri:
  assumes "wf_spiffe_id sid"
  shows "spiffe_id_from_str (uri sid) = Inr sid"
proof -
  let ?d = "display_trust_domain (sid_trust_domain sid)"
  have "strip_prefix ''spiffe://'' (uri sid) = Some (?d @ CHR ''/'' # sid_path sid)"
    by (simp only: uri_def strip_prefix_append) simp
  moreover have "split_once CHR ''/'' (?d @ CHR ''/'' # sid_path sid) = Some (?d, sid_path sid)"
    using assms by (simp add: wf_spiffe_id_def no_slash_display)
  ultimately show ?thesis
    using assms by (simp add: spiffe_id_from_str_def wf_spiffe_id_def
        trust_domain_from_str_display new_spiffe_id_def)
qed

lemma spiffe_id_from_str_sound:
  assumes "spiffe_id_from_str s = Inr sid"
  shows "wf_spiffe_id sid \<and> uri sid = s"
proof -
  from assms obtain rest td_str p td where
    rest: "strip_prefix ''spiffe://'' s = Some rest"
    and sp: "split_once CHR ''/'' rest = Some (td_str, p)" and p: "p \<noteq> []"
    and td: "trust_domain_from_str td_str = Inr td" and sid: "sid = new_spiffe_id td p"
    unfolding spiffe_id_from_str_def by (auto split: option.splits if_splits)
  from rest have "s = ''spiffe://'' @ rest" by (simp add: strip_prefix_Some)
  with sp td p sid show ?thesis
    by (auto simp: split_once_Some wf_spiffe_id_def uri_def new_spiffe_id_def
        dest: trust_domain_from_str_sound)
qed

interpretation spiffe_id_text: exact_text_form uri spiffe_id_from_str wf_spiffe_id
  by standard (auto intro: spiffe_id_from_str_uri dest: spiffe_id_from_str_sound)

lemma sid_new [simp]:
  "sid_trust_domain (new_spiffe_id td p) = td" "sid_path (new_spiffe_id td p) = p"
  by (simp_all add: new_spiffe_id_def)

section \<open>Provenance\<close>

lemma split_on_append_sep: "split_on c (a @ c # b) = split_on c a @ split_on c b"
proof (induction a)
  case (Cons x a)
  then show ?case by (cases "split_on c a") auto
qed simp

lemma split_on_eq_append_single:
  assumes "split_on c s = pre @ [x]" "pre \<noteq> []"
  shows "s = join_with [c] pre @ c # x \<and> c \<notin> set x"
proof -
  have "join_with [c] (pre @ [x]) = join_with [c] pre @ c # x"
    using assms(2) by (induction "[c]" pre rule: join_with.induct) auto
  with assms(1) have "s = join_with [c] pre @ c # x" by (metis join_split_on)
  moreover have "c \<notin> set x" using assms(1) split_on_no_sep [of x c s] by simp
  ultimately show ?thesis by simp
qed

lemma last_segment_via:
  "last (split_on CHR ''/'' pre) = ''via'' \<longleftrightarrow> pre = ''via'' \<or> suffix ''/via'' pre"
proof
  assume via: "last (split_on CHR ''/'' pre) = ''via''"
  obtain ys where ys: "split_on CHR ''/'' pre = ys @ [''via'']"
    using via by (metis append_butlast_last_id split_on_not_Nil)
  show "pre = ''via'' \<or> suffix ''/via'' pre"
  proof (cases "ys = []")
    case True
    with ys show ?thesis using join_split_on [of "CHR ''/''" pre] by simp
  next
    case False
    from split_on_eq_append_single [OF ys False]
    have "pre = join_with ''/'' ys @ ''/via''" by simp
    then show ?thesis by (simp add: suffix_def)
  qed
next
  assume "pre = ''via'' \<or> suffix ''/via'' pre"
  then show "last (split_on CHR ''/'' pre) = ''via''"
  proof
    assume "suffix ''/via'' pre"
    then obtain z where "pre = z @ CHR ''/'' # ''via''" by (auto simp: suffix_def)
    then show ?thesis by (simp add: split_on_append_sep)
  qed simp
qed

lemma provenance_segments:
  "provenance sid = Some source \<longleftrightarrow>
     (\<exists>segs. split_on CHR ''/'' (sid_path sid) = segs @ [''via'', source])"
proof
  assume "provenance sid = Some source"
  then obtain pre where p: "sid_path sid = pre @ CHR ''/'' # source" "CHR ''/'' \<notin> set source"
    and via: "pre = ''via'' \<or> suffix ''/via'' pre"
    by (auto simp: provenance_def rsplit_once_Some split: option.splits if_splits)
  from via have "last (split_on CHR ''/'' pre) = ''via''" by (simp only: last_segment_via)
  then obtain segs where "split_on CHR ''/'' pre = segs @ [''via'']"
    by (metis append_butlast_last_id split_on_not_Nil)
  then have "split_on CHR ''/'' (sid_path sid) = segs @ [''via'', source]"
    using p by (simp add: split_on_append_sep)
  then show "\<exists>segs. split_on CHR ''/'' (sid_path sid) = segs @ [''via'', source]" ..
next
  assume "\<exists>segs. split_on CHR ''/'' (sid_path sid) = segs @ [''via'', source]"
  then obtain segs where segs: "split_on CHR ''/'' (sid_path sid) = (segs @ [''via'']) @ [source]"
    by auto
  let ?pre = "join_with ''/'' (segs @ [''via''])"
  from split_on_eq_append_single [OF segs]
  have p: "sid_path sid = ?pre @ CHR ''/'' # source" "CHR ''/'' \<notin> set source" by simp_all
  have "\<forall>q\<in>set (segs @ [''via'']). CHR ''/'' \<notin> set q"
    using segs split_on_no_sep [of _ "CHR ''/''" "sid_path sid"] by auto
  then have "split_on CHR ''/'' ?pre = segs @ [''via'']" by (intro split_join_with) auto
  then have "?pre = ''via'' \<or> suffix ''/via'' ?pre" by (simp flip: last_segment_via)
  with p show "provenance sid = Some source" by (simp add: provenance_def)
qed

section \<open>Properties\<close>

text \<open>
  C30: the URI parser accepts exactly the URI forms of well-formed SPIFFE IDs, and gives back
  the ID that was printed: one spelling per ID, and no ID that a URI can be read as two ways.
\<close>

theorem uri_parsed_exactly:
  "spiffe_id_from_str s = Inr sid \<longleftrightarrow> wf_spiffe_id sid \<and> s = uri sid"
  by (rule spiffe_id_text.from_str_iff)

text \<open>
  A SPIFFE ID has provenance \<open>source\<close> exactly when \<open>via\<close> and \<open>source\<close> are the last two
  segments of its path: an identifier that merely ends in the letters \<open>via\<close>, or carries a
  \<open>via\<close> segment earlier in the path, is not read as a provenance tail.
\<close>

theorem provenance_is_last_via_pair:
  "provenance sid = Some source \<longleftrightarrow>
     (\<exists>segs. split_on CHR ''/'' (sid_path sid) = segs @ [''via'', source])"
  by (rule provenance_segments)

text \<open>
  Off the legal alphabet the URI form is not one-to-one: a trust domain holding a slash
  prints the URI of another ID, which is the one the parser reads.
\<close>

lemma uri_collides_off_the_alphabet:
  "uri (new_spiffe_id (OrgOidc ''a/b'') ''c'') = uri (new_spiffe_id (OrgOidc ''a'') ''b/c'')
   \<and> spiffe_id_from_str (uri (new_spiffe_id (OrgOidc ''a/b'') ''c''))
       = Inr (new_spiffe_id (OrgOidc ''a'') ''b/c'')"
proof -
  have eq: "uri (new_spiffe_id (OrgOidc ''a/b'') ''c'') = uri (new_spiffe_id (OrgOidc ''a'') ''b/c'')"
    by (simp add: uri_def)
  have "wf_spiffe_id (new_spiffe_id (OrgOidc ''a'') ''b/c'')"
    by (simp add: wf_spiffe_id_def legal_td_char_def)
  with eq show ?thesis by (simp add: spiffe_id_from_str_uri)
qed

end
