(* ===== verification/Bytes.thy ===== *)
theory Bytes
  imports Prelude
begin

text \<open>
  Byte-level primitives of the Rust standard library: hexadecimal formatting, 32-bit
  integers in either byte order, lossy UTF-8 decoding, Unicode white space, line splitting.
  A locale states what the two length-prefixed framings of the program (the SSH agent
  protocol and native messaging) have in common.
\<close>

unbundle bit_operations_syntax

section \<open>Hexadecimal\<close>

text \<open>\<open>{b:02x}\<close> of one byte, and the concatenation over a buffer.\<close>

definition hex_byte :: "byte \<Rightarrow> string" where
  "hex_byte b = [digit_char (unat b div 16), digit_char (unat b mod 16)]"

definition hex_bytes :: "byte list \<Rightarrow> string" where
  "hex_bytes bs = concat (map hex_byte bs)"

lemma digit_char_inj: "a < 16 \<Longrightarrow> b < 16 \<Longrightarrow> digit_char a = digit_char b \<longleftrightarrow> a = b"
  by (auto simp: digit_char_def split: if_splits dest: arg_cong [where f = "of_char :: char \<Rightarrow> nat"])

lemma hex_byte_inj [simp]: "hex_byte a = hex_byte b \<longleftrightarrow> a = b"
proof
  assume "hex_byte a = hex_byte b"
  then have "unat a div 16 = unat b div 16" "unat a mod 16 = unat b mod 16"
    by (auto simp: hex_byte_def digit_char_inj less_mult_imp_div_less)
  then have "unat a = unat b" by (metis div_mult_mod_eq)
  then show "a = b" by (simp add: word_unat_eq_iff)
qed simp

lemma length_hex_byte [simp]: "length (hex_byte b) = 2"
  by (simp add: hex_byte_def)

lemma hex_bytes_simps [simp]:
  "hex_bytes [] = []"
  "hex_bytes (b # bs) = hex_byte b @ hex_bytes bs"
  by (simp_all add: hex_bytes_def)

lemma length_hex_bytes [simp]: "length (hex_bytes bs) = 2 * length bs"
  by (induction bs) auto

lemma hex_bytes_inj [simp]: "hex_bytes a = hex_bytes b \<longleftrightarrow> a = b"
proof (induction a arbitrary: b)
  case Nil
  then show ?case by (cases b) (auto simp: hex_byte_def)
next
  case (Cons x xs)
  then show ?case
  proof (cases b)
    case Nil
    then show ?thesis by (simp add: hex_byte_def)
  next
    case (Cons y ys)
    with Cons.IH show ?thesis by (simp add: append_eq_append_conv)
  qed
qed

text \<open>The characters of a hexadecimal string: \<open>0-9\<close> and \<open>a-f\<close>.\<close>

definition is_hex_char :: "char \<Rightarrow> bool" where
  "is_hex_char c \<longleftrightarrow>
     (let n = (of_char c :: nat) in (48 \<le> n \<and> n < 58) \<or> (97 \<le> n \<and> n < 103))"

lemma is_hex_char_digit: "n < 16 \<Longrightarrow> is_hex_char (digit_char n)"
  by (auto simp: is_hex_char_def digit_char_def Let_def)

lemma hex_bytes_chars: "c \<in> set (hex_bytes bs) \<Longrightarrow> is_hex_char c"
  by (induction bs) (auto simp: hex_byte_def less_mult_imp_div_less is_hex_char_digit)

section \<open>32-bit integers on the wire\<close>

text \<open>\<open>u32::to_be_bytes\<close>, \<open>u32::to_le_bytes\<close> and their inverses on four bytes.\<close>

definition to_be_bytes :: "u32 \<Rightarrow> byte list" where
  "to_be_bytes w = [ucast (drop_bit 24 w), ucast (drop_bit 16 w), ucast (drop_bit 8 w), ucast w]"

definition to_le_bytes :: "u32 \<Rightarrow> byte list" where
  "to_le_bytes w = rev (to_be_bytes w)"

fun from_be_bytes :: "byte list \<Rightarrow> u32" where
  "from_be_bytes bs = foldl (\<lambda>acc b. push_bit 8 acc OR ucast b) 0 bs"

definition from_le_bytes :: "byte list \<Rightarrow> u32" where
  "from_le_bytes bs = from_be_bytes (rev bs)"

lemma from_to_be_bytes [simp, wire]: "from_be_bytes (to_be_bytes w) = w"
proof (rule bit_word_eqI)
  fix n
  assume "n < LENGTH(32)"
  then consider "n < 8" | "8 \<le> n" "n < 16" | "16 \<le> n" "n < 24" | "24 \<le> n" "n < 32"
    by fastforce
  then show "bit (from_be_bytes (to_be_bytes w)) n \<longleftrightarrow> bit w n"
    by cases (auto simp: to_be_bytes_def bit_or_iff bit_push_bit_iff bit_ucast_iff bit_drop_bit_eq)
qed

lemma from_to_le_bytes [simp, wire]: "from_le_bytes (to_le_bytes w) = w"
  by (simp only: from_le_bytes_def to_le_bytes_def rev_rev_ident from_to_be_bytes)

lemma length_to_be_bytes [simp]: "length (to_be_bytes w) = 4"
  by (simp add: to_be_bytes_def)

lemma length_to_le_bytes [simp]: "length (to_le_bytes w) = 4"
  by (simp add: to_le_bytes_def)

lemma unat_u32_less [simp]: "unat (w :: u32) < 4294967296"
proof -
  have "unat w < 2 ^ LENGTH(32)" by (rule unsigned_less)
  then show ?thesis by simp
qed

declare from_be_bytes.simps [simp del]

lemma to_from_be_bytes [wire]:
  assumes "length bs = 4"
  shows "to_be_bytes (from_be_bytes bs) = bs"
proof -
  obtain a b c d where bs: "bs = [a, b, c, d]"
    using assms by (auto simp: length_Suc_conv numeral_eq_Suc)
  have high: "\<not> bit w m" if "8 \<le> m" for w :: byte and m
    using that by (simp add: impossible_bit)
  have bits: "bit (from_be_bytes bs) m \<longleftrightarrow> m < 32 \<and>
      (24 \<le> m \<and> bit a (m - 24) \<or> 16 \<le> m \<and> bit b (m - 16) \<or> 8 \<le> m \<and> bit c (m - 8) \<or> bit d m)" for m
    by (auto simp: bs from_be_bytes.simps bit_or_iff bit_push_bit_iff bit_ucast_iff dest: high)
  have a: "ucast (drop_bit 24 (from_be_bytes bs)) = a"
    by (rule bit_word_eqI) (simp add: bits bit_ucast_iff bit_drop_bit_eq high)
  have b: "ucast (drop_bit 16 (from_be_bytes bs)) = b"
    by (rule bit_word_eqI) (simp add: bits bit_ucast_iff bit_drop_bit_eq high)
  have c: "ucast (drop_bit 8 (from_be_bytes bs)) = c"
    by (rule bit_word_eqI) (simp add: bits bit_ucast_iff bit_drop_bit_eq high)
  have d: "ucast (from_be_bytes bs) = d"
    by (rule bit_word_eqI) (simp add: bits bit_ucast_iff high)
  from a b c d have "to_be_bytes (from_be_bytes bs) = [a, b, c, d]"
    by (simp add: to_be_bytes_def)
  then show ?thesis by (simp add: bs)
qed

lemma to_from_le_bytes [wire]: "length bs = 4 \<Longrightarrow> to_le_bytes (from_le_bytes bs) = bs"
  by (simp add: from_le_bytes_def to_le_bytes_def to_from_be_bytes)

section \<open>Length-prefixed framing\<close>

text \<open>
  A framing writes one message in front of whatever follows and reads it back; \<open>ok\<close> holds
  of the messages it can carry. Both laws together say that reading is the exact inverse of
  writing. The SSH agent strings and the native-messaging frames are instances.
\<close>

locale framing =
  fixes frame :: "'b list \<Rightarrow> 'b list"
    and unframe :: "'b list \<Rightarrow> ('b list \<times> 'b list) option"
    and ok :: "'b list \<Rightarrow> bool"
  assumes unframe_frame: "ok m \<Longrightarrow> unframe (frame m @ rest) = Some (m, rest)"
    and unframe_sound: "unframe bs = Some (m, rest) \<Longrightarrow> ok m \<and> bs = frame m @ rest"
begin

lemma unframe_iff: "unframe bs = Some (m, rest) \<longleftrightarrow> ok m \<and> bs = frame m @ rest"
  using unframe_frame unframe_sound by blast

lemma frame_prefix_free:
  assumes "ok m" "ok m'" "frame m @ r = frame m' @ r'"
  shows "m = m' \<and> r = r'"
proof -
  have "Some (m, r) = Some (m', r')"
    using unframe_frame [OF assms(1)] unframe_frame [OF assms(2)] by (metis assms(3))
  then show ?thesis by simp
qed

lemma frame_inj: "ok m \<Longrightarrow> ok m' \<Longrightarrow> frame m = frame m' \<Longrightarrow> m = m'"
  using frame_prefix_free [of m m' "[]" "[]"] by simp

text \<open>A stream of frames is split in one way only.\<close>

lemma frames_inj:
  assumes "list_all ok ms" "list_all ok ms'" "length ms = length ms'"
    and "concat (map frame ms) @ r = concat (map frame ms') @ r'"
  shows "ms = ms' \<and> r = r'"
  using assms
proof (induction ms arbitrary: ms')
  case (Cons m ms)
  then obtain n ns where ms': "ms' = n # ns" by (cases ms') auto
  have "m = n \<and> concat (map frame ms) @ r = concat (map frame ns) @ r'"
    using Cons.prems ms' by (intro frame_prefix_free) auto
  with Cons ms' show ?case by auto
qed auto

end

section \<open>Text decoding\<close>

text \<open>
  \<open>String::from_utf8_lossy\<close>. \<open>utf8_chunk\<close> is the length of the chunk at the front of the
  buffer, and whether it is a well-formed character; an ill-formed chunk is the longest
  prefix that a well-formed character could start with, and each becomes U+FFFD.
\<close>

definition cont_byte :: "nat \<Rightarrow> bool" where
  "cont_byte b \<longleftrightarrow> 128 \<le> b \<and> b < 192"

definition second_byte_ok :: "nat \<Rightarrow> nat \<Rightarrow> bool" where
  "second_byte_ok a b \<longleftrightarrow>
     (if a = 224 then 160 \<le> b \<and> b < 192
      else if a = 237 then 128 \<le> b \<and> b < 160
      else if a = 240 then 144 \<le> b \<and> b < 192
      else if a = 244 then 128 \<le> b \<and> b < 144
      else cont_byte b)"

definition utf8_width :: "nat \<Rightarrow> nat" where
  "utf8_width a = (if a < 128 then 1 else if 194 \<le> a \<and> a < 224 then 2
     else if 224 \<le> a \<and> a < 240 then 3 else if 240 \<le> a \<and> a < 245 then 4 else 0)"

fun utf8_chunk :: "nat list \<Rightarrow> nat \<times> bool" where
  "utf8_chunk [] = (0, True)"
| "utf8_chunk (a # rest) =
     (let w = utf8_width a in
      if w = 0 then (1, False)
      else if w = 1 then (1, True)
      else case rest of
        [] \<Rightarrow> (1, False)
      | b # rest2 \<Rightarrow>
          if \<not> second_byte_ok a b then (1, False)
          else if w = 2 then (2, True)
          else case rest2 of
            [] \<Rightarrow> (2, False)
          | c # rest3 \<Rightarrow>
              if \<not> cont_byte c then (2, False)
              else if w = 3 then (3, True)
              else case rest3 of
                [] \<Rightarrow> (3, False)
              | d # _ \<Rightarrow> if cont_byte d then (4, True) else (3, False))"

definition replacement_char :: string where
  "replacement_char = map char_of [239, 191, 189 :: nat]"

lemma utf8_chunk_pos: "bs \<noteq> [] \<Longrightarrow> 0 < fst (utf8_chunk bs)"
  by (cases bs) (auto simp: Let_def split: list.splits)

function from_utf8_lossy :: "byte list \<Rightarrow> string" where
  "from_utf8_lossy bs =
     (if bs = [] then []
      else case utf8_chunk (map unat bs) of
        (n, valid) \<Rightarrow>
          (if valid then str_of_bytes (take n bs) else replacement_char)
            @ from_utf8_lossy (drop n bs))"
  by pat_completeness auto
termination
proof (relation "measure length")
  fix bs :: "byte list" and p n valid
  assume "bs \<noteq> []" "(n, valid) = utf8_chunk (map unat bs)"
  with utf8_chunk_pos [of "map unat bs"] have "0 < n" by (metis fst_conv map_is_Nil_conv)
  with \<open>bs \<noteq> []\<close> show "(drop n bs, bs) \<in> measure length" by simp
qed simp

declare from_utf8_lossy.simps [simp del]

text \<open>ASCII text is decoded as it is.\<close>

lemma from_utf8_lossy_ascii:
  "list_all (\<lambda>b. unat b < 128) bs \<Longrightarrow> from_utf8_lossy bs = str_of_bytes bs"
proof (induction bs)
  case Nil
  then show ?case by (simp add: from_utf8_lossy.simps str_of_bytes_def)
next
  case (Cons b bs)
  then have "utf8_chunk (map unat (b # bs)) = (1, True)"
    by (simp add: utf8_width_def)
  with Cons show ?case
    by (subst from_utf8_lossy.simps) (simp add: str_of_bytes_def)
qed

section \<open>White space and lines\<close>

text \<open>
  The byte length of the white-space character (\<open>char::is_whitespace\<close>) a string starts
  with, 0 if it starts with none: U+0009 to U+000D, U+0020, U+0085, U+00A0, U+1680, U+2000
  to U+200A, U+2028, U+2029, U+202F, U+205F and U+3000, in UTF-8.
\<close>

definition ws_len :: "string \<Rightarrow> nat" where
  "ws_len s =
     (case map (of_char :: char \<Rightarrow> nat) (take 3 s) of
        [] \<Rightarrow> 0
      | a # rest \<Rightarrow>
          if (9 \<le> a \<and> a \<le> 13) \<or> a = 32 then 1
          else if take 1 rest = [133] \<and> a = 194 \<or> take 1 rest = [160] \<and> a = 194 then 2
          else if a = 225 \<and> rest = [154, 128] \<or> a = 227 \<and> rest = [128, 128]
            \<or> a = 226 \<and> rest = [129, 159]
            \<or> a = 226 \<and> take 1 rest = [128]
              \<and> (case drop 1 rest of [c] \<Rightarrow> (128 \<le> c \<and> c \<le> 138) \<or> c = 168 \<or> c = 169 \<or> c = 175 | _ \<Rightarrow> False)
          then 3 else 0)"

text \<open>\<open>str::split_whitespace\<close>: the maximal runs without white space.\<close>

function split_ws :: "string \<Rightarrow> string \<Rightarrow> string list" where
  "split_ws cur [] = (if cur = [] then [] else [rev cur])"
| "split_ws cur (x # xs) =
     (let n = ws_len (x # xs) in
      if n = 0 then split_ws (x # cur) xs
      else (if cur = [] then [] else [rev cur]) @ split_ws [] (drop (n - 1) xs))"
  by pat_completeness auto
termination
  by (relation "measure (length \<circ> snd)") auto

definition split_whitespace :: "string \<Rightarrow> string list" where
  "split_whitespace s = split_ws [] s"

text \<open>
  \<open>str::trim\<close>: the text between the first and the last character that is not white space.
\<close>

function trim_start :: "string \<Rightarrow> string" where
  "trim_start s = (let n = ws_len s in if n = 0 then s else trim_start (drop n s))"
  by pat_completeness auto
termination
proof (relation "measure length")
  fix s n
  assume n: "n = ws_len s" "n \<noteq> 0"
  then have "s \<noteq> []" by (auto simp: ws_len_def)
  with n show "(drop n s, s) \<in> measure length" by simp
qed simp

fun trim_end_at :: "string \<Rightarrow> string \<Rightarrow> string" where
  "trim_end_at keep [] = keep"
| "trim_end_at keep (x # xs) =
     (if trim_start (x # xs) = [] then keep else trim_end_at (keep @ [x]) xs)"

definition trim :: "string \<Rightarrow> string" where
  "trim s = trim_end_at [] (trim_start s)"

text \<open>\<open>str::lines\<close>: a final empty line is not reported, a \<open>\r\<close> before the \<open>\n\<close> is dropped.\<close>

definition newline :: char where
  "newline = char_of (10 :: nat)"

definition carriage_return :: char where
  "carriage_return = char_of (13 :: nat)"

definition strip_cr :: "string \<Rightarrow> string" where
  "strip_cr s = (if s \<noteq> [] \<and> last s = carriage_return then butlast s else s)"

definition str_lines :: "string \<Rightarrow> string list" where
  "str_lines s = (let ps = split_on newline s in
     map strip_cr (butlast ps) @ (if last ps = [] then [] else [last ps]))"

text \<open>\<open>to_ascii_lowercase\<close> and \<open>eq_ignore_ascii_case\<close>.\<close>

definition ascii_lower :: "char \<Rightarrow> char" where
  "ascii_lower c = (let n = (of_char c :: nat) in if 65 \<le> n \<and> n \<le> 90 then char_of (n + 32) else c)"

definition to_ascii_lowercase :: "string \<Rightarrow> string" where
  "to_ascii_lowercase s = map ascii_lower s"

definition eq_ignore_ascii_case :: "string \<Rightarrow> string \<Rightarrow> bool" where
  "eq_ignore_ascii_case a b \<longleftrightarrow> to_ascii_lowercase a = to_ascii_lowercase b"

declare trim_start.simps [simp del]

end
