(* ===== verification/Consumer.thy ===== *)
theory Consumer
  imports Spiffe_Id Bytes
begin

text \<open>
  \<open>hire-core/src/consumer.rs\<close> and \<open>hire-core/src/pseudonym.rs\<close>: the identity of a calling
  process, its selector key, and the pseudonym it is given for a root identity.

  HKDF-SHA256 belongs to another crate and is a parameter: a function of salt, input key
  material and \<open>info\<close> to output key material. Nothing is assumed of it but its output
  length; what is shown is that distinct callers and distinct roots never feed it the same
  input, and that nothing of the root but its trust domain is left in the pseudonym outside
  that output.
\<close>

section \<open>Data\<close>

datatype consumer_identity =
    BinarySha256 "byte list"
  | MacosBundleId string string
  | FlatpakApp string
  | SnapName string
  | ChromeExtension string

type_synonym hkdf = "byte list \<Rightarrow> byte list \<Rightarrow> byte list \<Rightarrow> byte list"

section \<open>Operations\<close>

fun selector_key :: "consumer_identity \<Rightarrow> string" where
  "selector_key (BinarySha256 hash) = ''binary_sha256:'' @ hex_bytes hash"
| "selector_key (MacosBundleId bundle_id team_id) =
     ''macos:bundle_id:'' @ bundle_id @ '':team_id:'' @ team_id"
| "selector_key (FlatpakApp i) = ''flatpak:app:'' @ i"
| "selector_key (SnapName name) = ''snap:name:'' @ name"
| "selector_key (ChromeExtension i) = ''chrome_extension:id:'' @ i"

definition scheme :: string where
  "scheme = ''hire-pseudonym-v1:''"

definition derive_pseudonym :: "hkdf \<Rightarrow> byte list \<Rightarrow> trust_domain \<Rightarrow> consumer_identity \<Rightarrow> byte list" where
  "derive_pseudonym hkdf ikm td consumer =
     hkdf (as_bytes (display_trust_domain td)) ikm (as_bytes (scheme @ selector_key consumer))"

definition derive_pseudonymous_id :: "hkdf \<Rightarrow> byte list \<Rightarrow> spiffe_id \<Rightarrow> consumer_identity \<Rightarrow> spiffe_id" where
  "derive_pseudonymous_id hkdf ikm root consumer =
     (let material = ikm @ as_bytes (uri root);
          okm = derive_pseudonym hkdf material (sid_trust_domain root) consumer
      in pseudonymous (sid_trust_domain root) (hex_bytes okm))"

section \<open>Selector keys\<close>

text \<open>
  The selector key names the consumer: the kinds have different prefixes, and within a kind
  the fields are recovered, where a macOS bundle identifier holds no colon.
\<close>

fun plain_consumer :: "consumer_identity \<Rightarrow> bool" where
  "plain_consumer (MacosBundleId bundle_id _) \<longleftrightarrow> CHR '':'' \<notin> set bundle_id"
| "plain_consumer _ \<longleftrightarrow> True"

lemma append_Cons_split:
  fixes c :: char
  assumes "c \<notin> set a" "c \<notin> set a'"
  shows "a @ c # b = a' @ c # b' \<longleftrightarrow> a = a' \<and> b = b'"
proof
  assume "a @ c # b = a' @ c # b'"
  then have "split_once c (a @ c # b) = split_once c (a' @ c # b')" by (rule arg_cong)
  then show "a = a' \<and> b = b'" by (simp add: assms)
qed simp

lemma selector_key_inj:
  assumes "plain_consumer a" "plain_consumer b"
  shows "selector_key a = selector_key b \<longleftrightarrow> a = b"
  using assms by (cases a; cases b) (simp_all add: append_Cons_split)

lemma selector_key_ambiguous:
  "selector_key (MacosBundleId ''a:team_id:b'' ''c'') = selector_key (MacosBundleId ''a'' ''b:team_id:c'')"
  by simp

section \<open>What HKDF is given\<close>

definition hkdf_input :: "byte list \<Rightarrow> spiffe_id \<Rightarrow> consumer_identity \<Rightarrow> byte list \<times> byte list \<times> byte list" where
  "hkdf_input ikm root consumer =
     (as_bytes (display_trust_domain (sid_trust_domain root)), ikm @ as_bytes (uri root),
      as_bytes (scheme @ selector_key consumer))"

lemma derive_pseudonymous_id_input:
  "derive_pseudonymous_id hkdf ikm root consumer =
     new_spiffe_id (sid_trust_domain root)
       (''pseudonym/'' @ hex_bytes (case hkdf_input ikm root consumer of (s, i, f) \<Rightarrow> hkdf s i f))"
  by (simp add: derive_pseudonymous_id_def derive_pseudonym_def hkdf_input_def pseudonymous_def Let_def)

lemma hkdf_input_inj:
  assumes "length k = length k'" "plain_consumer c" "plain_consumer c'"
  shows "hkdf_input k r c = hkdf_input k' r' c' \<longleftrightarrow> k = k' \<and> r = r' \<and> c = c'"
proof
  assume eq: "hkdf_input k r c = hkdf_input k' r' c'"
  then have td: "sid_trust_domain r = sid_trust_domain r'" by (simp add: hkdf_input_def)
  from eq assms(1) have k: "k = k'" and u: "uri r = uri r'" by (simp_all add: hkdf_input_def)
  from u td have "sid_path r = sid_path r'" by (simp add: uri_def)
  with td have r: "r = r'" by (intro spiffe_id.equality) simp_all
  from eq have "selector_key c = selector_key c'" by (simp add: hkdf_input_def)
  with assms(2,3) have "c = c'" by (simp add: selector_key_inj)
  with k r show "k = k' \<and> r = r' \<and> c = c'" by simp
qed simp

section \<open>Properties\<close>



text \<open>
  The pseudonymous ID a consumer sees is the root's trust domain and the path
  \<open>pseudonym/\<close> followed by 64 lowercase hexadecimal digits, so the URI parser takes it back
  (for a well-formed domain), and it never equals a root whose path is of another form.
\<close>

theorem pseudonym_form:
  assumes "\<And>s i f. length (hkdf s i f) = 32" and "wf_trust_domain (sid_trust_domain root)"
  shows "\<exists>h. derive_pseudonymous_id hkdf ikm root consumer = new_spiffe_id (sid_trust_domain root) (''pseudonym/'' @ h)
    \<and> length h = 64 \<and> list_all is_hex_char h
    \<and> spiffe_id_from_str (uri (derive_pseudonymous_id hkdf ikm root consumer))
        = Inr (derive_pseudonymous_id hkdf ikm root consumer)"
proof -
  obtain s i f where sif: "hkdf_input ikm root consumer = (s, i, f)" by (metis prod_cases3)
  let ?p = "derive_pseudonymous_id hkdf ikm root consumer"
  have p: "?p = new_spiffe_id (sid_trust_domain root) (''pseudonym/'' @ hex_bytes (hkdf s i f))"
    by (simp add: derive_pseudonymous_id_input sif)
  have "wf_spiffe_id ?p" using assms(2) by (simp add: p wf_spiffe_id_def)
  then have "spiffe_id_from_str (uri ?p) = Inr ?p" by (rule spiffe_id_text.from_str_display)
  moreover have "list_all is_hex_char (hex_bytes (hkdf s i f))"
    by (simp add: list_all_iff hex_bytes_chars)
  ultimately show ?thesis using p assms(1) by auto
qed

theorem pseudonym_form_witness:
  "\<exists>h. derive_pseudonymous_id (\<lambda>_ _ _. replicate 32 7) (replicate 32 0) (new_spiffe_id SshLocal ''a'') (SnapName ''x'')
      = new_spiffe_id SshLocal (''pseudonym/'' @ h) \<and> length h = 64"
  using pseudonym_form [of "\<lambda>_ _ _. replicate 32 7" "new_spiffe_id SshLocal ''a''" "replicate 32 0" "SnapName ''x''"]
  by auto

end
