(* ===== verification/Peer_Attest.thy ===== *)
theory Peer_Attest
  imports Consumer
begin

text \<open>
  \<open>hire-grpc/src/consumer_attest.rs\<close>: who is at the other end of an accepted connection. The
  kernel's answers about the peer are a record; the platform the daemon is built for selects
  the way the executable is found. SHA-256 is a parameter; a hasher that was fed some bytes is
  modelled by those bytes.
\<close>

section \<open>Data\<close>

datatype platform = Linux | MacOS | OtherPlatform

datatype attest_error =
    WrongUid u32 u32
  | PeerCred string
  | NoPeerPid
  | NoExePath
  | Unreadable
  | NotSupported

text \<open>\<open>UCred\<close>: the credentials the kernel reports for a connection.\<close>

record ucred =
  cred_uid :: u32
  cred_pid :: "int option"

text \<open>
  What the kernel reports: the daemon's uid; the target of \<open>/proc/<pid>/exe\<close>; the returned
  length and the buffer of \<open>proc_pidpath\<close>; and for a path the successive results of reading
  the opened file, \<open>None\<close> when it cannot be opened. A list of reads that ends stands for reads
  of zero bytes from there on.
\<close>

record kernel =
  kn_uid :: u32
  kn_read_link :: "string \<Rightarrow> string option"
  kn_pidpath :: "int \<Rightarrow> int \<times> byte list"
  kn_open :: "string \<Rightarrow> (string + byte list) list option"

section \<open>Operations\<close>

definition show_int :: "int \<Rightarrow> string" where
  "show_int i = (if i < 0 then ''-'' @ show_nat (nat (- i)) else show_nat (nat i))"

text \<open>The bytes \<open>proc_pidpath\<close> wrote, up to the first NUL.\<close>

definition pidpath_bytes :: "int \<times> byte list \<Rightarrow> byte list" where
  "pidpath_bytes r = takeWhile (\<lambda>b. b \<noteq> 0) (take (nat (fst r)) (snd r))"

fun exe_path_for_pid :: "platform \<Rightarrow> kernel \<Rightarrow> int \<Rightarrow> attest_error + string" where
  "exe_path_for_pid Linux k pid = ok_or NoExePath (kn_read_link k (''/proc/'' @ show_int pid @ ''/exe''))"
| "exe_path_for_pid MacOS k pid =
     (if fst (kn_pidpath k pid) \<le> 0 then Inl NoExePath
      else if pidpath_bytes (kn_pidpath k pid) = [] then Inl NoExePath
      else Inr (str_of_bytes (pidpath_bytes (kn_pidpath k pid))))"
| "exe_path_for_pid OtherPlatform k pid = Inl NotSupported"

fun hash_reads :: "(byte list \<Rightarrow> byte list) \<Rightarrow> byte list \<Rightarrow> (string + byte list) list \<Rightarrow> attest_error + byte list" where
  "hash_reads sha fed [] = Inr (sha fed)"
| "hash_reads sha fed (Inl e # rs) = Inl Unreadable"
| "hash_reads sha fed (Inr bs # rs) = (if bs = [] then Inr (sha fed) else hash_reads sha (fed @ bs) rs)"

definition hash_file :: "(byte list \<Rightarrow> byte list) \<Rightarrow> kernel \<Rightarrow> string \<Rightarrow> attest_error + byte list" where
  "hash_file sha k p = and_then (ok_or Unreadable (kn_open k p)) (hash_reads sha [])"

definition attest_peer ::
  "(byte list \<Rightarrow> byte list) \<Rightarrow> platform \<Rightarrow> kernel \<Rightarrow> ucred \<Rightarrow> attest_error + consumer_identity" where
  "attest_peer sha pf k cred =
     (if cred_uid cred \<noteq> kn_uid k then Inl (WrongUid (cred_uid cred) (kn_uid k))
      else and_then (ok_or NoPeerPid (cred_pid cred)) (\<lambda>pid.
           and_then (exe_path_for_pid pf k pid) (\<lambda>p.
           and_then (hash_file sha k p) (\<lambda>hash. Inr (BinarySha256 hash)))))"

text \<open>\<open>AttestedStream::accept\<close>: the identity that rides with the connection.\<close>

definition accept_peer ::
  "(byte list \<Rightarrow> byte list) \<Rightarrow> platform \<Rightarrow> kernel \<Rightarrow> string + ucred \<Rightarrow> consumer_identity option" where
  "accept_peer sha pf k cred =
     result_ok (case cred of Inr c \<Rightarrow> attest_peer sha pf k c | Inl e \<Rightarrow> Inl (PeerCred e))"

section \<open>What is hashed\<close>

text \<open>The whole content of a file whose reads succeed up to its end.\<close>

fun file_content :: "(string + byte list) list \<Rightarrow> byte list option" where
  "file_content [] = Some []"
| "file_content (Inl e # rs) = None"
| "file_content (Inr bs # rs) = (if bs = [] then Some [] else map_option ((@) bs) (file_content rs))"

lemma hash_reads_content:
  "hash_reads sha fed rs = (case file_content rs of None \<Rightarrow> Inl Unreadable | Some c \<Rightarrow> Inr (sha (fed @ c)))"
  by (induction sha fed rs rule: hash_reads.induct) (auto split: option.splits)

lemma hash_file_Inr:
  "hash_file sha k p = Inr hash \<longleftrightarrow>
     (\<exists>rs c. kn_open k p = Some rs \<and> file_content rs = Some c \<and> hash = sha c)"
  by (auto simp: hash_file_def hash_reads_content split: option.splits)

lemma attest_peer_Inr:
  "attest_peer sha pf k cred = Inr consumer \<longleftrightarrow>
     cred_uid cred = kn_uid k \<and> (\<exists>pid p rs c. cred_pid cred = Some pid
       \<and> exe_path_for_pid pf k pid = Inr p \<and> kn_open k p = Some rs \<and> file_content rs = Some c
       \<and> consumer = BinarySha256 (sha c))"
  by (auto simp: attest_peer_def hash_file_Inr)

lemma accept_peer_Some:
  "accept_peer sha pf k cred = Some consumer \<longleftrightarrow>
     (\<exists>u. cred = Inr u \<and> attest_peer sha pf k u = Inr consumer)"
  by (auto simp: accept_peer_def split: sum.splits)

section \<open>Properties\<close>


end
