(* ===== verification/Assurance.thy ===== *)
theory Assurance
  imports Interfaces
begin

text \<open>
  \<open>hire-core/src/assurance.rs\<close>: the identity-assurance and presence levels, their order
  (derived from the declaration order of the variants), and their text forms.
\<close>

section \<open>Levels\<close>

datatype identity_assurance = Iaa1 | Iaa2 | Iaa3

datatype presence_level = NoPresence | Session | Software | Hardware

datatype assurance_error = UnknownAssurance string | UnknownPresence string

section \<open>Order\<close>

fun assurance_rank :: "identity_assurance \<Rightarrow> nat" where
  "assurance_rank Iaa1 = 0"
| "assurance_rank Iaa2 = 1"
| "assurance_rank Iaa3 = 2"

fun presence_rank :: "presence_level \<Rightarrow> nat" where
  "presence_rank NoPresence = 0"
| "presence_rank Session = 1"
| "presence_rank Software = 2"
| "presence_rank Hardware = 3"

instantiation identity_assurance :: linorder
begin

definition less_eq_identity_assurance :: "identity_assurance \<Rightarrow> identity_assurance \<Rightarrow> bool" where
  "a \<le> b \<longleftrightarrow> assurance_rank a \<le> assurance_rank b"

definition less_identity_assurance :: "identity_assurance \<Rightarrow> identity_assurance \<Rightarrow> bool" where
  "a < b \<longleftrightarrow> assurance_rank a < assurance_rank b"

instance
proof
  fix x y :: identity_assurance
  assume "x \<le> y" "y \<le> x"
  then show "x = y" by (cases x; cases y) (auto simp: less_eq_identity_assurance_def)
qed (auto simp: less_eq_identity_assurance_def less_identity_assurance_def)

end

instantiation presence_level :: linorder
begin

definition less_eq_presence_level :: "presence_level \<Rightarrow> presence_level \<Rightarrow> bool" where
  "a \<le> b \<longleftrightarrow> presence_rank a \<le> presence_rank b"

definition less_presence_level :: "presence_level \<Rightarrow> presence_level \<Rightarrow> bool" where
  "a < b \<longleftrightarrow> presence_rank a < presence_rank b"

instance
proof
  fix x y :: presence_level
  assume "x \<le> y" "y \<le> x"
  then show "x = y" by (cases x; cases y) (auto simp: less_eq_presence_level_def)
qed (auto simp: less_eq_presence_level_def less_presence_level_def)

end

lemmas assurance_order = less_eq_identity_assurance_def less_identity_assurance_def
lemmas presence_order = less_eq_presence_level_def less_presence_level_def

section \<open>Text forms\<close>

fun display_assurance :: "identity_assurance \<Rightarrow> string" where
  "display_assurance Iaa1 = ''iaa1''"
| "display_assurance Iaa2 = ''iaa2''"
| "display_assurance Iaa3 = ''iaa3''"

definition assurance_from_str :: "string \<Rightarrow> assurance_error + identity_assurance" where
  "assurance_from_str s =
     (if s = ''iaa1'' then Inr Iaa1
      else if s = ''iaa2'' then Inr Iaa2
      else if s = ''iaa3'' then Inr Iaa3
      else Inl (UnknownAssurance s))"

fun display_presence :: "presence_level \<Rightarrow> string" where
  "display_presence NoPresence = ''none''"
| "display_presence Session = ''session''"
| "display_presence Software = ''software''"
| "display_presence Hardware = ''hardware''"

definition presence_from_str :: "string \<Rightarrow> assurance_error + presence_level" where
  "presence_from_str s =
     (if s = ''none'' then Inr NoPresence
      else if s = ''session'' then Inr Session
      else if s = ''software'' then Inr Software
      else if s = ''hardware'' then Inr Hardware
      else Inl (UnknownPresence s))"

interpretation assurance_text: exact_text_form display_assurance assurance_from_str "\<lambda>_. True"
proof
  show "assurance_from_str (display_assurance x) = Inr x" for x
    by (cases x) (simp_all add: assurance_from_str_def)
qed (auto simp: assurance_from_str_def split: if_splits)

interpretation presence_text: exact_text_form display_presence presence_from_str "\<lambda>_. True"
proof
  show "presence_from_str (display_presence x) = Inr x" for x
    by (cases x) (simp_all add: presence_from_str_def)
qed (auto simp: presence_from_str_def split: if_splits)

lemma display_assurance_plain:
  "CHR ''&'' \<notin> set (display_assurance a)" "CHR ''='' \<notin> set (display_assurance a)"
  by (cases a; simp)+

lemma display_presence_plain:
  "CHR ''&'' \<notin> set (display_presence p)" "CHR ''='' \<notin> set (display_presence p)"
  by (cases p; simp)+

lemma NoPresence_le [simp]: "NoPresence \<le> p"
  by (simp add: presence_order)

lemma le_NoPresence [simp]: "p \<le> NoPresence \<longleftrightarrow> p = NoPresence"
  by (cases p) (auto simp: presence_order)

lemma Hardware_le [simp]: "Hardware \<le> p \<longleftrightarrow> p = Hardware"
  by (cases p) (auto simp: presence_order)

lemma Iaa1_le [simp]: "Iaa1 \<le> a"
  by (simp add: assurance_order)

lemma le_Iaa3 [simp]: "a \<le> Iaa3"
  by (cases a) (auto simp: assurance_order)

text \<open>The strictest presence level: the join of the order, with \<open>NoPresence\<close> neutral.\<close>

interpretation presence_req: requirement "max :: presence_level \<Rightarrow> _" NoPresence
  by standard (simp_all add: max.assoc max.left_commute max.commute max_absorb2)

lemma presence_as_strict_as [simp]: "presence_req.as_strict_as a b \<longleftrightarrow> b \<le> a"
  by (auto simp: presence_req.as_strict_as_def max_def)

end
