(* ===== verification/Claim.thy ===== *)
theory Claim
  imports Spiffe_Id Assurance
begin

text \<open>
  \<open>hire-attestors/src/lib.rs\<close> and the data part of \<open>hire-attestors/src/claim.rs\<close>:
  candidates, evidence, the tier of a piece of evidence, its binding to a request, and the
  derivation of a proven claim, with the \<open>Attestor\<close> trait as a record of operations. The
  verifying constructors of \<open>ChallengeSignature\<close> are in the theory \<open>Verify\<close>.
\<close>

section \<open>Candidates\<close>

datatype self_asserted_domain =
    SATailscale
  | SASshLocal
  | SAPgpLocal
  | SAPersonalDid string

fun domain_of :: "self_asserted_domain \<Rightarrow> trust_domain" where
  "domain_of SATailscale = Tailscale"
| "domain_of SASshLocal = SshLocal"
| "domain_of SAPgpLocal = PgpLocal"
| "domain_of (SAPersonalDid did) = PersonalDid did"

datatype attainable_assurance = AttIaa1 | AttIaa2 | AttIaa3

datatype proof_cost = Silent | Interactive

record candidate =
  cand_source :: string
  cand_domain :: self_asserted_domain
  cand_path :: string
  cand_display_name :: string
  cand_attainable :: attainable_assurance
  cand_proof_cost :: proof_cost

definition new_candidate :: "string \<Rightarrow> self_asserted_domain \<Rightarrow> string \<Rightarrow> string \<Rightarrow> candidate" where
  "new_candidate source domain path display_name =
     \<lparr>cand_source = source, cand_domain = domain, cand_path = path,
      cand_display_name = display_name, cand_attainable = AttIaa1, cand_proof_cost = Interactive\<rparr>"

definition with_attainable :: "attainable_assurance \<Rightarrow> candidate \<Rightarrow> candidate" where
  "with_attainable a c = c\<lparr>cand_attainable := a\<rparr>"

definition with_proof_cost :: "proof_cost \<Rightarrow> candidate \<Rightarrow> candidate" where
  "with_proof_cost p c = c\<lparr>cand_proof_cost := p\<rparr>"

definition candidate_spiffe_id :: "candidate \<Rightarrow> spiffe_id" where
  "candidate_spiffe_id c = new_spiffe_id (domain_of (cand_domain c)) (cand_path c)"

section \<open>Errors, freshness, the attestor trait\<close>

datatype attestor_error =
    Unavailable string
  | ChallengeFailed string
  | Io string

datatype freshness_result = Fresh | Stale presence_level | FreshUnavailable

record signed_assertion =
  sa_bytes :: "byte list"
  sa_format :: string

section \<open>Evidence\<close>

record challenge_signature =
  cs_assertion :: signed_assertion
  cs_challenge :: "byte list"
  cs_observed_at :: sys_time

record verified_token =
  issuer_domain :: string
  authenticated_at :: sys_time

record hardware_touch =
  touched_at :: sys_time

record platform_identity =
  pl_account :: string
  pl_asked_at :: sys_time

record daemon_identity =
  dm_subject :: string
  dm_asked_at :: sys_time

datatype evidence =
    Possession challenge_signature
  | IdpVerified verified_token
  | HardwarePresence hardware_touch
  | PlatformAssertion platform_identity
  | DaemonAssertion daemon_identity

text \<open>The two observations a constructor of the module makes, at the instant it is called.\<close>

definition observe_platform :: "sys_time \<Rightarrow> string \<Rightarrow> platform_identity" where
  "observe_platform now account = \<lparr>pl_account = account, pl_asked_at = now\<rparr>"

definition observe_daemon :: "sys_time \<Rightarrow> string \<Rightarrow> daemon_identity" where
  "observe_daemon now subject = \<lparr>dm_subject = subject, dm_asked_at = now\<rparr>"

fun tier :: "evidence \<Rightarrow> identity_assurance \<times> presence_level \<times> sys_time" where
  "tier (Possession s) = (Iaa1, NoPresence, cs_observed_at s)"
| "tier (IdpVerified t) = (Iaa2, Session, authenticated_at t)"
| "tier (HardwarePresence h) = (Iaa1, Hardware, touched_at h)"
| "tier (PlatformAssertion p) = (Iaa1, NoPresence, pl_asked_at p)"
| "tier (DaemonAssertion d) = (Iaa2, NoPresence, dm_asked_at d)"

fun binds_to :: "candidate \<Rightarrow> byte list \<Rightarrow> evidence \<Rightarrow> bool" where
  "binds_to c challenge (Possession s) \<longleftrightarrow> cs_challenge s = challenge"
| "binds_to c challenge (PlatformAssertion p) \<longleftrightarrow> pl_account p = cand_path c"
| "binds_to c challenge (DaemonAssertion d) \<longleftrightarrow> dm_subject d = cand_path c"
| "binds_to c challenge (IdpVerified _) \<longleftrightarrow> True"
| "binds_to c challenge (HardwarePresence _) \<longleftrightarrow> True"

section \<open>Claims\<close>

record claim =
  cl_source :: string
  cl_assurance :: identity_assurance
  cl_presence :: presence_level
  cl_spiffe_id :: spiffe_id
  cl_display_name :: string
  cl_attested_at :: sys_time

type_synonym tier_state = "identity_assurance \<times> presence_level \<times> sys_time"

fun fold_tier :: "tier_state \<Rightarrow> evidence \<Rightarrow> tier_state" where
  "fold_tier (assurance, presence, attested_at) e =
     (case tier e of (a, p, t) \<Rightarrow>
        if presence < p \<or> (p = presence \<and> attested_at < t)
        then (max assurance a, p, t)
        else (max assurance a, presence, attested_at))"

fun first_issuer :: "evidence list \<Rightarrow> string option" where
  "first_issuer [] = None"
| "first_issuer (IdpVerified t # es) = Some (issuer_domain t)"
| "first_issuer (_ # es) = first_issuer es"

definition derive :: "candidate \<Rightarrow> byte list \<Rightarrow> evidence list \<Rightarrow> claim option" where
  "derive c challenge ev =
     (case filter (binds_to c challenge) ev of
        [] \<Rightarrow> None
      | first # rest \<Rightarrow>
          (case foldl fold_tier (tier first) rest of (assurance, presence, attested_at) \<Rightarrow>
             Some \<lparr>cl_source = cand_source c,
               cl_assurance = (if Hardware \<le> presence \<and> Iaa2 \<le> assurance then Iaa3 else assurance),
               cl_presence = presence,
               cl_spiffe_id = new_spiffe_id
                 (case first_issuer (first # rest) of Some d \<Rightarrow> OrgOidc d
                  | None \<Rightarrow> domain_of (cand_domain c)) (cand_path c),
               cl_display_name = cand_display_name c,
               cl_attested_at = attested_at\<rparr>))"

definition age_at :: "claim \<Rightarrow> sys_time \<Rightarrow> duration option" where
  "age_at cl now = duration_since now (cl_attested_at cl)"

section \<open>The attestor trait\<close>

text \<open>
  An attestor's methods read and change the world outside the daemon: a socket, a child
  process, the clock. The world is the type parameter; each method returns its result and
  the world after the call.
\<close>

record 'w attestor =
  at_name :: string
  at_enumerate :: "'w \<Rightarrow> (attestor_error + candidate list) \<times> 'w"
  at_prove :: "candidate \<Rightarrow> byte list \<Rightarrow> 'w \<Rightarrow> (attestor_error + evidence list) \<times> 'w"
  at_freshness :: "candidate \<Rightarrow> 'w \<Rightarrow> (attestor_error + freshness_result) \<times> 'w"

text \<open>The default methods: no proof mechanism, and no liveness to report.\<close>

definition default_prove :: "string \<Rightarrow> candidate \<Rightarrow> byte list \<Rightarrow> 'w \<Rightarrow> (attestor_error + evidence list) \<times> 'w" where
  "default_prove name c challenge w = (Inl (ChallengeFailed (name @ '' cannot produce evidence'')), w)"

definition default_freshness :: "candidate \<Rightarrow> 'w \<Rightarrow> (attestor_error + freshness_result) \<times> 'w" where
  "default_freshness c w = (Inr FreshUnavailable, w)"

section \<open>The fold over evidence\<close>

abbreviation tier_assurance :: "evidence \<Rightarrow> identity_assurance" where
  "tier_assurance e \<equiv> fst (tier e)"

abbreviation tier_presence :: "evidence \<Rightarrow> presence_level" where
  "tier_presence e \<equiv> fst (snd (tier e))"

abbreviation tier_time :: "evidence \<Rightarrow> sys_time" where
  "tier_time e \<equiv> snd (snd (tier e))"

text \<open>
  What the fold computes of a non-empty list: the best assurance, the best presence, and the
  newest instant among the evidence of that presence, each of them taken from some element.
\<close>

definition tier_of_all :: "evidence set \<Rightarrow> tier_state \<Rightarrow> bool" where
  "tier_of_all E st \<longleftrightarrow> (case st of (a, p, t) \<Rightarrow>
     (\<exists>e\<in>E. tier_assurance e = a) \<and> (\<forall>e\<in>E. tier_assurance e \<le> a)
     \<and> (\<exists>e\<in>E. tier_presence e = p \<and> tier_time e = t)
     \<and> (\<forall>e\<in>E. tier_presence e \<le> p \<and> (tier_presence e = p \<longrightarrow> tier_time e \<le> t)))"

lemma tier_of_all_single: "tier_of_all {e} (tier e)"
  by (cases "tier e") (simp add: tier_of_all_def)

lemma tier_of_all_insert:
  assumes "tier_of_all E st"
  shows "tier_of_all (insert e E) (fold_tier st e)"
proof -
  obtain a p t where st: "st = (a, p, t)" by (metis prod_cases3)
  obtain a' p' t' where e: "tier e = (a', p', t')" by (metis prod_cases3)
  show ?thesis
  proof (cases "p < p' \<or> (p' = p \<and> t < t')")
    case True
    with assms show ?thesis
      unfolding st tier_of_all_def fold_tier.simps e
      by (auto simp: e max_def intro: order_trans dest: order_le_less_trans)
  next
    case False
    then have "p' < p \<or> (p' = p \<and> t' \<le> t)" by (cases p p' rule: linorder_cases) auto
    with False assms show ?thesis
      unfolding st tier_of_all_def fold_tier.simps e
      by (auto simp: e max_def intro: order_trans)
  qed
qed

lemma fold_tier_all: "tier_of_all E st \<Longrightarrow> tier_of_all (E \<union> set es) (foldl fold_tier st es)"
proof (induction es arbitrary: E st)
  case (Cons e es)
  from Cons.IH [OF tier_of_all_insert [OF Cons.prems, of e]] show ?case by simp
qed simp

lemma tier_of_all_unique:
  assumes "tier_of_all E st" "tier_of_all E st'"
  shows "st = st'"
proof -
  obtain a p t a' p' t' where st: "st = (a, p, t)" "st' = (a', p', t')" by (metis prod_cases3)
  from assms have "a = a'" "p = p'" unfolding st tier_of_all_def by (auto intro: antisym)
  with assms show ?thesis unfolding st tier_of_all_def by (auto intro: antisym)
qed

lemma derive_cases:
  assumes "derive c challenge ev = Some cl"
  obtains a where "tier_of_all {e \<in> set ev. binds_to c challenge e} (a, cl_presence cl, cl_attested_at cl)"
    and "cl_assurance cl = (if Hardware \<le> cl_presence cl \<and> Iaa2 \<le> a then Iaa3 else a)"
    and "cl_spiffe_id cl = new_spiffe_id (case first_issuer (filter (binds_to c challenge) ev) of
           Some d \<Rightarrow> OrgOidc d | None \<Rightarrow> domain_of (cand_domain c)) (cand_path c)"
    and "cl_source cl = cand_source c" and "cl_display_name cl = cand_display_name c"
proof -
  from assms obtain e es where f: "filter (binds_to c challenge) ev = e # es"
    by (auto simp: derive_def split: list.splits)
  obtain a p t where st: "foldl fold_tier (tier e) es = (a, p, t)" by (metis prod_cases3)
  have set: "{e} \<union> set es = {e \<in> set ev. binds_to c challenge e}"
    using arg_cong [OF f, of set] by simp
  from fold_tier_all [OF tier_of_all_single, of e es]
  have all: "tier_of_all {e \<in> set ev. binds_to c challenge e} (a, p, t)" by (simp only: st set)
  from assms have "cl = \<lparr>cl_source = cand_source c,
      cl_assurance = (if Hardware \<le> p \<and> Iaa2 \<le> a then Iaa3 else a), cl_presence = p,
      cl_spiffe_id = new_spiffe_id (case first_issuer (e # es) of Some d \<Rightarrow> OrgOidc d
        | None \<Rightarrow> domain_of (cand_domain c)) (cand_path c),
      cl_display_name = cand_display_name c, cl_attested_at = t\<rparr>"
    by (simp add: derive_def f st)
  with all f show thesis by (intro that [of a]) simp_all
qed

lemma derive_None: "derive c challenge ev = None \<longleftrightarrow> filter (binds_to c challenge) ev = []"
  by (auto simp: derive_def split: list.splits prod.splits)

lemma first_issuer_Some: "first_issuer es = Some d \<Longrightarrow> \<exists>t. IdpVerified t \<in> set es \<and> issuer_domain t = d"
  by (induction es rule: first_issuer.induct) auto

lemma first_issuer_None: "first_issuer es = None \<longleftrightarrow> (\<forall>t. IdpVerified t \<notin> set es)"
  by (induction es rule: first_issuer.induct) auto

lemma derive_path [simp]:
  "derive c challenge ev = Some cl \<Longrightarrow> sid_path (cl_spiffe_id cl) = cand_path c"
  "derive c challenge ev = Some cl \<Longrightarrow> cl_source cl = cand_source c"
  by (auto elim!: derive_cases)

section \<open>Properties\<close>


text \<open>
  C7: the levels of a claim are those of its bound evidence and nothing else. The presence is
  the highest any bound piece establishes, and the instant is the newest among the pieces of
  that presence, so a fresh signature never re-dates an old touch; the assurance is the
  highest of any piece, raised to \<open>Iaa3\<close> exactly when hardware presence and an assurance of at
  least \<open>Iaa2\<close> come together.
\<close>

theorem claim_levels_from_evidence:
  assumes "derive c challenge ev = Some cl"
  defines "E \<equiv> {e \<in> set ev. binds_to c challenge e}"
  shows "cl_presence cl = Max (tier_presence ` E)
    \<and> cl_attested_at cl = Max (tier_time ` {e \<in> E. tier_presence e = cl_presence cl})
    \<and> cl_assurance cl = (if cl_presence cl = Hardware \<and> Iaa2 \<le> Max (tier_assurance ` E) then Iaa3
                         else Max (tier_assurance ` E))"
proof -
  from assms(1) obtain a where all: "tier_of_all E (a, cl_presence cl, cl_attested_at cl)"
    and lvl: "cl_assurance cl = (if Hardware \<le> cl_presence cl \<and> Iaa2 \<le> a then Iaa3 else a)"
    unfolding E_def by (rule derive_cases)
  have fin: "finite E" by (simp add: E_def)
  have "Max (tier_presence ` E) = cl_presence cl"
    using all fin by (intro Max_eqI) (force simp: tier_of_all_def)+
  moreover have "Max (tier_time ` {e \<in> E. tier_presence e = cl_presence cl}) = cl_attested_at cl"
    using all fin by (intro Max_eqI) (force simp: tier_of_all_def)+
  moreover have "Max (tier_assurance ` E) = a"
    using all fin by (intro Max_eqI) (force simp: tier_of_all_def)+
  ultimately show ?thesis using lvl by simp
qed

text \<open>
  C26: an issuer-anchored trust domain comes only from a verified token. A claim sits under an
  OIDC issuer exactly when a verified token is among its evidence, and the issuer is that
  token's; otherwise it keeps the candidate's own domain. Its path, source and display name
  are always the candidate's.
\<close>

theorem issuer_domain_only_from_token:
  assumes "derive c challenge ev = Some cl"
  shows "((\<exists>t. IdpVerified t \<in> set ev \<and> sid_trust_domain (cl_spiffe_id cl) = OrgOidc (issuer_domain t))
      \<or> (\<forall>t. IdpVerified t \<notin> set ev) \<and> sid_trust_domain (cl_spiffe_id cl) = domain_of (cand_domain c))
    \<and> sid_path (cl_spiffe_id cl) = cand_path c \<and> cl_source cl = cand_source c
    \<and> cl_display_name cl = cand_display_name c"
proof -
  from assms obtain a where sid: "cl_spiffe_id cl = new_spiffe_id
      (case first_issuer (filter (binds_to c challenge) ev) of
         Some d \<Rightarrow> OrgOidc d | None \<Rightarrow> domain_of (cand_domain c)) (cand_path c)"
    and rest: "cl_source cl = cand_source c" "cl_display_name cl = cand_display_name c"
    by (rule derive_cases)
  show ?thesis
  proof (cases "first_issuer (filter (binds_to c challenge) ev)")
    case None
    then have "\<forall>t. IdpVerified t \<notin> set ev" by (simp add: first_issuer_None)
    with None sid rest show ?thesis by simp
  next
    case (Some d)
    then show ?thesis using sid rest first_issuer_Some [OF Some] by auto
  qed
qed

text \<open>Applications: a hardware touch and a token together, after a replayed signature.\<close>

definition sample_candidate :: candidate where
  "sample_candidate = with_proof_cost Silent (new_candidate ''demo'' SASshLocal ''ssh/k'' ''k'')"

definition sample_evidence :: "evidence list" where
  "sample_evidence =
     [Possession \<lparr>cs_assertion = \<lparr>sa_bytes = [], sa_format = ''f''\<rparr>, cs_challenge = [1], cs_observed_at = 99\<rparr>,
      HardwarePresence \<lparr>touched_at = 10\<rparr>, IdpVerified \<lparr>issuer_domain = ''idp.example'', authenticated_at = 40\<rparr>]"

definition sample_claim :: claim where
  "sample_claim = \<lparr>cl_source = ''demo'', cl_assurance = Iaa3, cl_presence = Hardware,
     cl_spiffe_id = new_spiffe_id (OrgOidc ''idp.example'') ''ssh/k'', cl_display_name = ''k'', cl_attested_at = 10\<rparr>"

lemma sample_derives: "derive sample_candidate [2] sample_evidence = Some sample_claim"
  by (simp add: derive_def sample_candidate_def sample_evidence_def sample_claim_def
      with_proof_cost_def new_candidate_def presence_order assurance_order max_def)

theorem claim_levels_from_evidence_witness:
  "Hardware = Max (tier_presence ` {e \<in> set sample_evidence. binds_to sample_candidate [2] e})"
  using claim_levels_from_evidence [OF sample_derives] by (simp add: sample_claim_def)

theorem issuer_domain_only_from_token_witness:
  "\<exists>t. IdpVerified t \<in> set sample_evidence \<and> OrgOidc ''idp.example'' = OrgOidc (issuer_domain t)"
  using issuer_domain_only_from_token [OF sample_derives] by (auto simp: sample_claim_def sample_evidence_def)

end
