(* ===== verification/Json.thy ===== *)
theory Json
  imports Prelude
begin

text \<open>
  JSON values as the sources use them (\<open>serde_json::Value\<close>): built by \<open>json!\<close> and by the
  derived \<open>Serialize\<close> instances, read with \<open>get\<close>, \<open>as_str\<close>, \<open>as_object\<close>. An object is the
  list of its members, with distinct names. A 64-bit float is its bit pattern.
\<close>

datatype json_number = PosInt u64 | NegInt int | Float u64

datatype json =
    JNull
  | JBool bool
  | JNum json_number
  | JStr string
  | JArr "json list"
  | JObj "(string \<times> json) list"

text \<open>\<open>Value::get\<close> with a name, \<open>Value::as_str\<close>, \<open>Value::as_u64\<close>, \<open>Value::as_object\<close>.\<close>

fun json_get :: "string \<Rightarrow> json \<Rightarrow> json option" where
  "json_get k (JObj ms) = map_of ms k"
| "json_get k _ = None"

fun as_str :: "json \<Rightarrow> string option" where
  "as_str (JStr s) = Some s"
| "as_str _ = None"

fun as_u64 :: "json \<Rightarrow> u64 option" where
  "as_u64 (JNum (PosInt n)) = Some n"
| "as_u64 _ = None"

fun as_object :: "json \<Rightarrow> (string \<times> json) list option" where
  "as_object (JObj ms) = Some ms"
| "as_object _ = None"

lemma as_str_Some [simp]: "as_str j = Some s \<longleftrightarrow> j = JStr s"
  by (cases j) auto

lemma as_object_Some [simp]: "as_object j = Some ms \<longleftrightarrow> j = JObj ms"
  by (cases j) auto

end
