(* ===== verification/Host.thy ===== *)
theory Host
  imports Claim Bytes Json
begin

text \<open>
  What the attestors see of the machine they run on, and the third-party operations they
  use. A \<open>host\<close> is one moment of the machine: its environment variables, its files, the
  programs behind its sockets, the clock. A \<open>world\<close> is a sequence of such moments; every call
  of an attestor method sees the current one and moves on to the next, so nothing is assumed
  to stay the same between two calls.
\<close>

section \<open>Third-party operations\<close>

text \<open>
  \<open>sha2\<close>, \<open>base64\<close>, \<open>ed25519_dalek\<close> and \<open>serde_json\<close>, and the part of the standard library's
  case mapping that is beyond ASCII, and of its escaping of a string for debug output. An ed25519 verifying key is its 32 bytes, when they
  encode a point.
\<close>

record attest_lib =
  al_sha256 :: "byte list \<Rightarrow> byte list"
  al_b64_std :: "byte list \<Rightarrow> string"
  al_b64url_decode :: "string \<Rightarrow> byte list option"
  al_valid_point :: "byte list \<Rightarrow> bool"
  al_verify_strict :: "byte list \<Rightarrow> byte list \<Rightarrow> byte list \<Rightarrow> bool"
  al_json :: "byte list \<Rightarrow> string + json"
  al_lower :: "string \<Rightarrow> string"
  al_debug :: "string \<Rightarrow> string"

text \<open>\<open>str::to_lowercase\<close>: exact on ASCII.\<close>

definition to_lowercase :: "attest_lib \<Rightarrow> string \<Rightarrow> string" where
  "to_lowercase lib s =
     (if list_all (\<lambda>c. (of_char c :: nat) < 128) s then to_ascii_lowercase s else al_lower lib s)"

section \<open>Streams\<close>

text \<open>
  The program at the other end of a Unix socket: which writes it accepts, and all it has sent
  once it has received given bytes.
\<close>

record peer =
  peer_takes :: "byte list \<Rightarrow> bool"
  peer_sends :: "byte list \<Rightarrow> byte list"

record stream =
  sm_peer :: peer
  sm_written :: "byte list"
  sm_consumed :: nat

definition open_stream :: "peer \<Rightarrow> stream" where
  "open_stream p = \<lparr>sm_peer = p, sm_written = [], sm_consumed = 0\<rparr>"

definition io_broken_pipe :: attestor_error where
  "io_broken_pipe = Io ''broken pipe''"

definition io_eof :: attestor_error where
  "io_eof = Io ''early eof''"

text \<open>\<open>write_all\<close>, \<open>read_exact\<close> and \<open>read_to_end\<close>.\<close>

definition write_all :: "stream \<Rightarrow> byte list \<Rightarrow> attestor_error + stream" where
  "write_all st bs =
     (let all = sm_written st @ bs in
      if peer_takes (sm_peer st) all then Inr (st\<lparr>sm_written := all\<rparr>) else Inl io_broken_pipe)"

definition pending :: "stream \<Rightarrow> byte list" where
  "pending st = drop (sm_consumed st) (peer_sends (sm_peer st) (sm_written st))"

definition read_exact :: "stream \<Rightarrow> nat \<Rightarrow> attestor_error + byte list \<times> stream" where
  "read_exact st n =
     (if length (pending st) < n then Inl io_eof
      else Inr (take n (pending st), st\<lparr>sm_consumed := sm_consumed st + n\<rparr>))"

definition read_to_end :: "stream \<Rightarrow> byte list" where
  "read_to_end st = pending st"

lemma read_exact_length: "read_exact st n = Inr (bs, st') \<Longrightarrow> length bs = n"
  by (auto simp: read_exact_def split: if_splits)

section \<open>The machine\<close>

record exec_output =
  ex_success :: bool
  ex_stdout :: "byte list"
  ex_stderr :: "byte list"

text \<open>A child process may fail to start, or fail to be waited for.\<close>

datatype exec_error = SpawnFailed string | WaitFailed string

fun exec_error_text :: "exec_error \<Rightarrow> string" where
  "exec_error_text (SpawnFailed e) = e"
| "exec_error_text (WaitFailed e) = e"

text \<open>The outcomes of \<open>getpwuid_r\<close>.\<close>

datatype pw_result = PwRange | PwNoEntry | PwError string | PwFound "byte list"

record host =
  h_env :: "string \<Rightarrow> string option"
  h_exists :: "string \<Rightarrow> bool"
  h_read_file :: "string \<Rightarrow> string option"
  h_connect :: "string \<Rightarrow> string + peer"
  h_exec :: "string \<Rightarrow> string list \<Rightarrow> byte list \<Rightarrow> exec_error + exec_output"
  h_now :: sys_time
  h_uid :: u32
  h_getpwuid :: "u32 \<Rightarrow> nat \<Rightarrow> pw_result"
  h_pw_size_max :: int

record world =
  w_moments :: "nat \<Rightarrow> host"
  w_tick :: nat

definition current :: "world \<Rightarrow> host" where
  "current w = w_moments w (w_tick w)"

definition at_call :: "(host \<Rightarrow> 'r) \<Rightarrow> world \<Rightarrow> 'r \<times> world" where
  "at_call f w = (f (current w), w\<lparr>w_tick := Suc (w_tick w)\<rparr>)"

section \<open>What an attestor owes the daemon\<close>

text \<open>
  The contract the daemon relies on: a successful proof is at least one piece of evidence,
  and every piece answers the challenge it was asked for, about the candidate it was asked
  about.
\<close>

locale sound_prover =
  fixes prove :: "candidate \<Rightarrow> byte list \<Rightarrow> host \<Rightarrow> attestor_error + evidence list"
  assumes prove_bound: "prove c challenge h = Inr ev \<Longrightarrow> ev \<noteq> [] \<and> (\<forall>e\<in>set ev. binds_to c challenge e)"
begin

lemma proof_gives_claim:
  assumes "prove c challenge h = Inr ev"
  shows "\<exists>cl. derive c challenge ev = Some cl"
proof -
  have "filter (binds_to c challenge) ev \<noteq> []"
    using prove_bound [OF assms] by (cases ev) auto
  then show ?thesis using derive_None by fastforce
qed

lemma call_bound:
  "at_call (prove c challenge) w = (Inr ev, w') \<Longrightarrow> ev \<noteq> [] \<and> (\<forall>e\<in>set ev. binds_to c challenge e)"
  by (auto simp: at_call_def dest: prove_bound)

end

text \<open>
  Attestors whose evidence never shows a human present, and which name no issuer: the claim
  keeps the candidate's own trust domain and stays below \<open>Iaa3\<close>.
\<close>

locale presenceless_prover = sound_prover +
  assumes no_presence: "prove c challenge h = Inr ev \<Longrightarrow> e \<in> set ev \<Longrightarrow>
    tier_presence e = NoPresence"
begin

lemma claim_no_presence:
  assumes p: "prove c challenge h = Inr ev" and d: "derive c challenge ev = Some cl"
  shows "cl_presence cl = NoPresence" "cl_assurance cl \<noteq> Iaa3"
    "sid_trust_domain (cl_spiffe_id cl) = domain_of (cand_domain c)"
proof -
  from d obtain a where all: "tier_of_all {e \<in> set ev. binds_to c challenge e} (a, cl_presence cl, cl_attested_at cl)"
    and lvl: "cl_assurance cl = (if Hardware \<le> cl_presence cl \<and> Iaa2 \<le> a then Iaa3 else a)"
    and sid: "cl_spiffe_id cl = new_spiffe_id (case first_issuer (filter (binds_to c challenge) ev) of
           Some d \<Rightarrow> OrgOidc d | None \<Rightarrow> domain_of (cand_domain c)) (cand_path c)"
    by (rule derive_cases)
  from all no_presence [OF p] show np: "cl_presence cl = NoPresence"
    by (auto simp: tier_of_all_def)
  have "tier_assurance e \<noteq> Iaa3" for e by (cases e) auto
  with all have "a \<noteq> Iaa3" by (auto simp: tier_of_all_def)
  with lvl np show "cl_assurance cl \<noteq> Iaa3" by simp
  have "IdpVerified t \<notin> set ev" for t using no_presence [OF p] by fastforce
  then have "first_issuer (filter (binds_to c challenge) ev) = None" by (simp add: first_issuer_None)
  with sid show "sid_trust_domain (cl_spiffe_id cl) = domain_of (cand_domain c)" by simp
qed

end

end
