(* ===== verification/Ssh_Agent.thy ===== *)
theory Ssh_Agent
  imports Host
begin

text \<open>
  The wire part of \<open>hire-attestors/src/ssh.rs\<close>: length-prefixed strings, one request and
  reply on the agent's socket, listing the agent's keys and asking for a signature.
\<close>

section \<open>Constants\<close>

definition ssh_agent_failure :: byte where "ssh_agent_failure = 5"

definition agentc_request_identities :: byte where "agentc_request_identities = 11"

definition agent_identities_answer :: byte where "agent_identities_answer = 12"

definition agentc_sign_request :: byte where "agentc_sign_request = 13"

definition agent_sign_response :: byte where "agent_sign_response = 14"

definition ssh_ed25519 :: "byte list" where
  "ssh_ed25519 = as_bytes ''ssh-ed25519''"

definition max_agent_reply :: nat where
  "max_agent_reply = 256 * 1024"

section \<open>Strings on the wire\<close>

definition read_string :: "byte list \<Rightarrow> (byte list \<times> byte list) option" where
  "read_string buf =
     (if length buf < 4 then None
      else (let len = unat (from_be_bytes (take 4 buf)); rest = drop 4 buf in
            if length rest < len then None else Some (take len rest, drop len rest)))"

definition push_string :: "byte list \<Rightarrow> byte list \<Rightarrow> byte list" where
  "push_string buf s = buf @ to_be_bytes (of_nat (length s)) @ s"

text \<open>A string whose length fits the prefix.\<close>

definition wire_string :: "byte list \<Rightarrow> bool" where
  "wire_string s \<longleftrightarrow> length s < 2 ^ 32"

lemma read_string_push:
  assumes "wire_string s"
  shows "read_string (push_string [] s @ rest) = Some (s, rest)"
  using assms by (simp add: read_string_def push_string_def wire_string_def unat_of_nat Let_def)

lemma read_string_sound:
  assumes "read_string buf = Some (s, rest)"
  shows "wire_string s \<and> buf = push_string [] s @ rest"
proof -
  let ?w = "from_be_bytes (take 4 buf)"
  from assms have len: "4 \<le> length buf" "unat ?w \<le> length (drop 4 buf)"
    and s: "s = take (unat ?w) (drop 4 buf)" "rest = drop (unat ?w) (drop 4 buf)"
    by (auto simp: read_string_def Let_def split: if_splits)
  from len s have l: "length s = unat ?w" by simp
  then have "to_be_bytes (of_nat (length s)) = take 4 buf" using len(1) by (simp add: to_from_be_bytes)
  moreover have "s @ rest = drop 4 buf" by (simp only: s append_take_drop_id)
  moreover have "take 4 buf @ drop 4 buf = buf" by simp
  moreover have "length s < 2 ^ 32" using l unat_u32_less [of ?w] by simp
  ultimately show ?thesis by (simp add: push_string_def wire_string_def)
qed

interpretation ssh_string: framing "push_string []" read_string wire_string
  by standard (auto simp: read_string_push dest: read_string_sound)

section \<open>Requests\<close>

definition connect_agent :: "host \<Rightarrow> attestor_error + stream" where
  "connect_agent h =
     and_then (ok_or (Unavailable ''SSH_AUTH_SOCK not set'') (h_env h ''SSH_AUTH_SOCK'')) (\<lambda>p.
     and_then (map_err (\<lambda>e. Unavailable (''cannot connect to SSH agent: '' @ e)) (h_connect h p)) (\<lambda>peer.
     Inr (open_stream peer)))"

text \<open>The length is cast to \<open>u32\<close>.\<close>

definition agent_roundtrip :: "stream \<Rightarrow> byte \<Rightarrow> byte list \<Rightarrow> attestor_error + byte list \<times> stream" where
  "agent_roundtrip st msg_type payload =
     and_then (write_all st (to_be_bytes (of_nat (1 + length payload)))) (\<lambda>st.
     and_then (write_all st [msg_type]) (\<lambda>st.
     and_then (write_all st payload) (\<lambda>st.
     and_then (read_exact st 4) (\<lambda>(len_buf, st).
     (let resp_len = unat (from_be_bytes len_buf) in
      if resp_len > max_agent_reply then Inl (Unavailable ''ssh-agent reply too large'')
      else read_exact st resp_len)))))"

definition ssh_spiffe_path :: "attest_lib \<Rightarrow> byte list \<Rightarrow> string" where
  "ssh_spiffe_path lib key_blob = ''key/'' @ al_b64_std lib (al_sha256 lib key_blob)"

definition ed25519_point_of :: "byte list \<Rightarrow> byte list option" where
  "ed25519_point_of key_blob =
     (case read_string key_blob of
        None \<Rightarrow> None
      | Some (algorithm, rest) \<Rightarrow>
          (case read_string rest of
             None \<Rightarrow> None
           | Some (point, rest) \<Rightarrow>
               if algorithm = ssh_ed25519 \<and> rest = [] \<and> length point = 32 then Some point else None))"

text \<open>The loop over the announced number of keys; a malformed entry ends it.\<close>

fun read_keys :: "nat \<Rightarrow> byte list \<Rightarrow> (byte list \<times> string) list" where
  "read_keys 0 cur = []"
| "read_keys (Suc n) cur =
     (case read_string cur of
        None \<Rightarrow> []
      | Some (key_blob, rest) \<Rightarrow>
          (case read_string rest of
             None \<Rightarrow> []
           | Some (comment, rest) \<Rightarrow> (key_blob, from_utf8_lossy comment) # read_keys n rest))"

definition parse_identities :: "byte list \<Rightarrow> attestor_error + (byte list \<times> string) list" where
  "parse_identities resp =
     (if resp = [] \<or> hd resp \<noteq> agent_identities_answer then
        Inl (Unavailable ''unexpected response from SSH agent'')
      else (let cur = tl resp in
        if length cur < 4 then Inr []
        else Inr (read_keys (unat (from_be_bytes (take 4 cur))) (drop 4 cur))))"

definition list_identities :: "stream \<Rightarrow> attestor_error + (byte list \<times> string) list \<times> stream" where
  "list_identities st =
     and_then (agent_roundtrip st agentc_request_identities []) (\<lambda>(resp, st).
     and_then (parse_identities resp) (\<lambda>keys. Inr (keys, st)))"

definition sign_payload :: "byte list \<Rightarrow> byte list \<Rightarrow> byte list" where
  "sign_payload key_blob challenge = push_string (push_string [] key_blob) challenge @ to_be_bytes 0"

definition parse_signature :: "string \<Rightarrow> byte list \<Rightarrow> attestor_error + byte list" where
  "parse_signature subject resp =
     and_then
       (case resp of
          [] \<Rightarrow> Inl (ChallengeFailed ''unexpected response to ssh-agent sign request'')
        | t # body \<Rightarrow>
            if t = agent_sign_response then Inr body
            else if t = ssh_agent_failure then
              Inl (ChallengeFailed (''ssh-agent declined to sign for '' @ subject))
            else Inl (ChallengeFailed ''unexpected response to ssh-agent sign request'')) (\<lambda>body.
     and_then (ok_or (ChallengeFailed ''malformed SIGN_RESPONSE from ssh-agent'') (read_string body))
       (\<lambda>(signature, trailing).
          if trailing \<noteq> [] then Inl (ChallengeFailed ''trailing bytes after ssh-agent signature'')
          else Inr signature))"

definition agent_sign :: "stream \<Rightarrow> byte list \<Rightarrow> byte list \<Rightarrow> string \<Rightarrow> attestor_error + byte list" where
  "agent_sign st key_blob challenge subject =
     and_then (agent_roundtrip st agentc_sign_request (sign_payload key_blob challenge)) (\<lambda>(resp, _).
     parse_signature subject resp)"

section \<open>Lemmas\<close>

lemma agent_roundtrip_bound:
  assumes "agent_roundtrip st t payload = Inr (resp, st')"
  shows "length resp \<le> max_agent_reply"
  using assms
  by (auto simp: agent_roundtrip_def Let_def split: if_splits dest: read_exact_length)

text \<open>
  However many keys the agent announces, the loop reads no more than the reply holds: every
  key takes at least its two length prefixes.
\<close>

lemma read_string_length:
  "read_string buf = Some (s, rest) \<Longrightarrow> length buf = 4 + length s + length rest"
  using read_string_sound [of buf s rest] by (auto simp: push_string_def)

lemma read_keys_consume: "8 * length (read_keys n cur) \<le> length cur"
proof (induction n cur rule: read_keys.induct)
  case (2 n cur)
  show ?case
  proof (cases "read_string cur")
    case cur: (Some p)
    obtain k r where p: "p = (k, r)" by fastforce
    show ?thesis
    proof (cases "read_string r")
      case r: (Some q)
      obtain c r' where q: "q = (c, r')" by fastforce
      have "8 * length (read_keys n r') \<le> length r'"
        by (rule "2.IH" [OF cur p [symmetric] r q [symmetric]])
      moreover have "length cur = 4 + length k + length r" using cur p by (auto dest: read_string_length)
      moreover have "length r = 4 + length c + length r'" using r q by (auto dest: read_string_length)
      ultimately show ?thesis by (simp add: cur p r q)
    qed (simp add: cur p)
  qed simp
qed simp

text \<open>The encoding of a key list, as an agent sends it.\<close>

fun encode_keys :: "(byte list \<times> byte list) list \<Rightarrow> byte list" where
  "encode_keys [] = []"
| "encode_keys ((blob, comment) # ks) = push_string (push_string [] blob) comment @ encode_keys ks"

lemma push_string_append: "push_string buf s = buf @ push_string [] s"
  by (simp add: push_string_def)

lemma read_keys_encode:
  assumes "list_all (\<lambda>(b, c). wire_string b \<and> wire_string c) ks"
  shows "read_keys (length ks) (encode_keys ks @ rest) = map (apsnd from_utf8_lossy) ks"
  using assms
proof (induction ks)
  case (Cons k ks)
  obtain b c where k: "k = (b, c)" by fastforce
  have "encode_keys (k # ks) @ rest = push_string [] b @ push_string [] c @ encode_keys ks @ rest"
    by (simp add: k push_string_append [of "push_string [] b"])
  with Cons k show ?case by (simp add: ssh_string.unframe_frame)
qed simp

section \<open>Properties\<close>

text \<open>
  The wire strings are exact. A string is read from the front of a buffer if and only if
  the buffer is that string, of a length the 32-bit prefix can hold, written in front of the
  rest: nothing is truncated, and no buffer can be read two ways.
\<close>

theorem wire_string_read_iff_written:
  "read_string buf = Some (s, rest) \<longleftrightarrow> length s < 2 ^ 32 \<and> buf = push_string [] s @ rest"
  using ssh_string.unframe_iff by (simp add: wire_string_def)

text \<open>
  The identity list survives a hostile count. Whatever number of keys a reply announces,
  up to four billion, parsing returns, and the keys it returns take eight bytes each of a
  reply that is at most 256 KiB long; an honest reply is read back exactly.
\<close>

theorem identity_list_bounded_and_exact:
  "(parse_identities resp = Inr keys \<longrightarrow> 8 * length keys \<le> length resp)
   \<and> (list_all (\<lambda>(b, c). wire_string b \<and> wire_string c) ks \<and> length ks < 2 ^ 32 \<longrightarrow>
        parse_identities (agent_identities_answer # to_be_bytes (of_nat (length ks)) @ encode_keys ks)
          = Inr (map (apsnd from_utf8_lossy) ks))"
proof (intro conjI impI)
  assume "parse_identities resp = Inr keys"
  then show "8 * length keys \<le> length resp"
    using read_keys_consume [of "unat (from_be_bytes (take 4 (tl resp)))" "drop 4 (tl resp)"]
    by (auto simp: parse_identities_def Let_def split: if_splits)
next
  assume "list_all (\<lambda>(b, c). wire_string b \<and> wire_string c) ks \<and> length ks < 2 ^ 32"
  then show "parse_identities (agent_identities_answer # to_be_bytes (of_nat (length ks)) @ encode_keys ks)
      = Inr (map (apsnd from_utf8_lossy) ks)"
    using read_keys_encode [of ks "[]"] by (simp add: parse_identities_def Let_def unat_of_nat)
qed

theorem identity_list_bounded_and_exact_witness:
  "parse_identities (agent_identities_answer # to_be_bytes 1 @ encode_keys [([1, 2], [])]) = Inr [([1, 2], '''')]"
  using identity_list_bounded_and_exact [of "[]" "[]" "[([1, 2], [])]"]
  by (simp add: wire_string_def from_utf8_lossy.simps)

end
