(* ===== verification/Did_Codec.thy ===== *)
theory Did_Codec
  imports Ssh_Agent
begin

text \<open>
  The codec part of \<open>hire-attestors/src/did_key.rs\<close>: decoding the ed25519 key a \<open>did:key\<close>
  names, with its fixed-width base58 arithmetic on 32-bit carries, and the SPIFFE path of a
  DID. The decoder is shown equal to its mathematical meaning: the base58 number read from
  the suffix is the big-endian number of the multicodec prefix and the key.
\<close>

section \<open>Decoding\<close>

definition base58btc :: string where
  "base58btc = ''123456789ABCDEFGHJKLMNPQRSTUVWXYZabcdefghijkmnopqrstuvwxyz''"

text \<open>\<open>iter().position\<close>.\<close>

fun position :: "('a \<Rightarrow> bool) \<Rightarrow> 'a list \<Rightarrow> nat option" where
  "position P [] = None"
| "position P (x # xs) = (if P x then Some 0 else map_option Suc (position P xs))"

text \<open>
  The inner loop, over the bytes from the last to the first: each byte is multiplied by 58 and
  the carry added; the result is the bytes, in the same order, and the carry left over.
\<close>

fun mul58 :: "u32 \<Rightarrow> byte list \<Rightarrow> byte list \<times> u32" where
  "mul58 carry [] = ([], carry)"
| "mul58 carry (b # bs) =
     (let c = carry + 58 * ucast b in
      case mul58 (drop_bit 8 c) bs of (bs', c') \<Rightarrow> (ucast c # bs', c'))"

fun decode58 :: "byte list \<Rightarrow> string \<Rightarrow> byte list option" where
  "decode58 decoded [] = Some decoded"
| "decode58 decoded (c # cs) =
     (case position (\<lambda>a. a = c) base58btc of
        None \<Rightarrow> None
      | Some d \<Rightarrow>
          (case mul58 (of_nat d) (rev decoded) of (bs, carry) \<Rightarrow>
             if carry \<noteq> 0 then None else decode58 (rev bs) cs))"

definition ed25519_multicodec :: "byte list" where
  "ed25519_multicodec = [0xed, 0x01]"

definition ed25519_point :: "string \<Rightarrow> byte list option" where
  "ed25519_point did =
     (case strip_prefix ''did:key:z'' did of
        None \<Rightarrow> None
      | Some sfx \<Rightarrow>
          (case decode58 (replicate 34 0) sfx of
             None \<Rightarrow> None
           | Some decoded \<Rightarrow>
               if take 2 decoded = ed25519_multicodec then Some (drop 2 decoded) else None))"

section \<open>Paths and configuration\<close>

definition did_id :: "attest_lib \<Rightarrow> string \<Rightarrow> string" where
  "did_id lib did = hex_bytes (al_sha256 lib (as_bytes did))"

definition did_spiffe_path :: "attest_lib \<Rightarrow> string \<Rightarrow> string" where
  "did_spiffe_path lib did = ''did/'' @ did_id lib did"

definition parse_did_keys_from :: "string \<Rightarrow> string list" where
  "parse_did_keys_from raw = filter (prefix ''did:key:'') (split_whitespace raw)"

definition parse_did_keys :: "host \<Rightarrow> string list" where
  "parse_did_keys h = parse_did_keys_from (case h_env h ''HIRE_DID_KEYS'' of Some v \<Rightarrow> v | None \<Rightarrow> [])"

section \<open>Numbers\<close>

text \<open>Little-endian and big-endian values of byte lists, and the base58 value of digits.\<close>

fun le_value :: "byte list \<Rightarrow> nat" where
  "le_value [] = 0"
| "le_value (b # bs) = unat b + 256 * le_value bs"

definition be_value :: "byte list \<Rightarrow> nat" where
  "be_value bs = le_value (rev bs)"

definition digit58 :: "char \<Rightarrow> nat option" where
  "digit58 c = position (\<lambda>a. a = c) base58btc"

definition base58_value :: "nat list \<Rightarrow> nat" where
  "base58_value ds = foldl (\<lambda>acc d. acc * 58 + d) 0 ds"

lemma position_less: "position P xs = Some i \<Longrightarrow> i < length xs"
  by (induction xs arbitrary: i) (auto split: if_splits)

lemma length_base58btc: "length base58btc = 58"
  by (simp add: base58btc_def)

lemma digit58_less: "digit58 c = Some d \<Longrightarrow> d < 58"
  using position_less [of "\<lambda>a. a = c" base58btc d] by (simp add: digit58_def length_base58btc)

lemma le_value_bound: "le_value bs < 256 ^ length bs"
proof (induction bs)
  case (Cons b bs)
  define p where "p = (256 :: nat) ^ length bs"
  have "le_value bs < p" using Cons by (simp add: p_def)
  then have "unat b + 256 * le_value bs < 256 * p" using unat_byte_less [of b] by linarith
  then show ?case by (simp add: p_def)
qed simp

lemma le_value_inj: "length as = length bs \<Longrightarrow> le_value as = le_value bs \<Longrightarrow> as = bs"
proof (induction as arbitrary: bs)
  case (Cons a as)
  then obtain b bs' where bs: "bs = b # bs'" by (cases bs) auto
  with Cons.prems have eq: "unat a + 256 * le_value as = unat b + 256 * le_value bs'" by simp
  from eq have "(unat a + 256 * le_value as) mod 256 = (unat b + 256 * le_value bs') mod 256" by simp
  then have "unat a = unat b" by simp
  with eq have "le_value as = le_value bs'" by simp
  with Cons bs \<open>unat a = unat b\<close> show ?case by (auto intro: unsigned_word_eqI)
qed simp

lemma be_value_inj: "length as = length bs \<Longrightarrow> be_value as = be_value bs \<Longrightarrow> as = bs"
  using le_value_inj [of "rev as" "rev bs"] by (simp add: be_value_def)

text \<open>One step of the inner loop does not overflow its 32 bits.\<close>

lemma carry_step:
  fixes carry :: u32 and b :: byte
  assumes "unat carry < 256"
  shows "unat (carry + 58 * ucast b) = unat carry + 58 * unat b"
proof -
  have b: "unat (ucast b :: u32) = unat b" 
    using less_trans [OF unat_byte_less [of b], of "2 ^ 32"]
    by (simp add: unsigned_ucast_eq take_bit_nat_eq_self)
  have "unat (58 :: u32) * unat (ucast b :: u32) < 2 ^ LENGTH(32)"
    using unat_byte_less [of b] by (simp add: b del: unat_byte_less)
  then have "unat (58 * ucast b :: u32) = unat (58 :: u32) * unat (ucast b :: u32)"
    by (rule unat_mult_lem [THEN iffD1])
  then have m: "unat (58 * ucast b :: u32) = 58 * unat b" by (simp add: b)
  have "unat carry + unat (58 * ucast b :: u32) < 2 ^ LENGTH(32)"
    using assms unat_byte_less [of b] by (simp add: m del: unat_byte_less)
  then have "unat (carry + 58 * ucast b) = unat carry + unat (58 * ucast b :: u32)"
    by (rule unat_add_lem [THEN iffD1])
  then show ?thesis by (simp only: m)
qed

lemma mul58_value:
  assumes "unat carry < 256" "mul58 carry bs = (bs', carry')"
  shows "le_value bs' + 256 ^ length bs * unat carry' = 58 * le_value bs + unat carry
    \<and> length bs' = length bs"
  using assms
proof (induction carry bs arbitrary: bs' carry' rule: mul58.induct)
  case (2 carry b bs)
  define c where "c = carry + 58 * ucast b"
  obtain bs1 c1 where r: "mul58 (drop_bit 8 c) bs = (bs1, c1)" by fastforce
  have c: "unat c = unat carry + 58 * unat b" using carry_step [OF "2.prems"(1)] by (simp add: c_def)
  have lo: "unat (ucast c :: byte) = unat c mod 256" by (simp add: unsigned_ucast_eq take_bit_eq_mod)
  have hi: "unat (drop_bit 8 c) = unat c div 256" by (simp add: drop_bit_eq_div unat_div)
  have "unat c div 256 < 256" 
    using c "2.prems"(1) unat_byte_less [of b] by (simp add: div_less_iff_less_mult del: unat_byte_less)
  with hi have "unat (drop_bit 8 c) < 256" by simp
  from "2.IH" [OF c_def this r]
  have IH: "le_value bs1 + 256 ^ length bs * unat c1 = 58 * le_value bs + unat c div 256"
    "length bs1 = length bs" by (simp_all add: hi)
  from "2.prems"(2) r have res: "bs' = ucast c # bs1" "carry' = c1" by (simp_all add: c_def [symmetric])
  have "le_value bs' + 256 ^ length (b # bs) * unat carry'
      = unat c mod 256 + 256 * (le_value bs1 + 256 ^ length bs * unat c1)"
    by (simp add: res lo algebra_simps)
  also have "\<dots> = 256 * (58 * le_value bs) + (unat c mod 256 + 256 * (unat c div 256))"
    by (simp only: IH(1)) (simp add: algebra_simps)
  also have "\<dots> = 58 * le_value (b # bs) + unat carry" by (simp add: c algebra_simps)
  finally show ?case using IH res by simp
qed simp

text \<open>One character: the value is multiplied by 58 and the digit added, if that still fits.\<close>

lemma mul58_step:
  assumes "d < 58" "mul58 (of_nat d) (rev decoded) = (bs, carry)"
  shows "carry = 0 \<longleftrightarrow> be_value decoded * 58 + d < 256 ^ length decoded"
    and "carry = 0 \<Longrightarrow> be_value (rev bs) = be_value decoded * 58 + d"
    and "length bs = length decoded"
proof -
  have d: "unat (of_nat d :: u32) = d" using assms(1) by (simp add: unat_of_nat)
  with assms mul58_value [of "of_nat d" "rev decoded" bs carry]
  have eq: "le_value bs + 256 ^ length decoded * unat carry = 58 * be_value decoded + d"
    and len: "length bs = length decoded" by (simp_all add: be_value_def)
  show "length bs = length decoded" by (rule len)
  show "carry = 0 \<Longrightarrow> be_value (rev bs) = be_value decoded * 58 + d"
    using eq by (simp add: be_value_def)
  show "carry = 0 \<longleftrightarrow> be_value decoded * 58 + d < 256 ^ length decoded"
  proof
    assume "carry = 0"
    then show "be_value decoded * 58 + d < 256 ^ length decoded"
      using eq le_value_bound [of bs] len by simp
  next
    assume lt: "be_value decoded * 58 + d < 256 ^ length decoded"
    show "carry = 0"
    proof (rule ccontr)
      assume "carry \<noteq> 0"
      then have "1 \<le> unat carry" by (simp add: Suc_leI unat_gt_0)
      then have "256 ^ length decoded \<le> 256 ^ length decoded * unat carry" by simp
      with eq lt show False by linarith
    qed
  qed
qed

section \<open>What the decoder computes\<close>

lemma base58_value_snoc: "base58_value (ds @ [d]) = base58_value ds * 58 + d"
  by (simp add: base58_value_def)

lemma foldl58_mono: "(acc :: nat) \<le> foldl (\<lambda>acc d. acc * 58 + d) acc ds"
proof (induction ds arbitrary: acc)
  case (Cons d ds)
  from Cons.IH [of "acc * 58 + d"] show ?case by simp
qed simp

lemma decode58_Some:
  "decode58 decoded cs = Some bs \<longleftrightarrow>
     (\<exists>ds. list_all2 (\<lambda>c d. digit58 c = Some d) cs ds \<and> length bs = length decoded
        \<and> be_value bs = foldl (\<lambda>acc d. acc * 58 + d) (be_value decoded) ds)"
proof (induction decoded cs rule: decode58.induct)
  case (1 decoded)
  show ?case using be_value_inj [of bs decoded] by auto
next
  case (2 decoded c cs)
  show ?case
  proof (cases "digit58 c")
    case None
    then show ?thesis by (simp add: digit58_def list_all2_Cons1)
  next
    case (Some d)
    have d: "d < 58" using digit58_less [OF Some] .
    obtain r carry where m: "mul58 (of_nat d) (rev decoded) = (r, carry)" by fastforce
    note step = mul58_step [OF d m]
    show ?thesis
    proof (cases "carry = 0")
      case True
      have "decode58 decoded (c # cs) = decode58 (rev r) cs"
        using Some m True by (simp add: digit58_def)
      also have "decode58 (rev r) cs = Some bs \<longleftrightarrow> (\<exists>ds. list_all2 (\<lambda>c d. digit58 c = Some d) cs ds
          \<and> length bs = length decoded
          \<and> be_value bs = foldl (\<lambda>acc d. acc * 58 + d) (be_value decoded * 58 + d) ds)"
        using "2.IH" [OF Some [unfolded digit58_def] m [symmetric]] True step(2,3) by simp
      finally show ?thesis using Some by (auto simp: list_all2_Cons1)
    next
      case False
      then have big: "256 ^ length decoded \<le> be_value decoded * 58 + d" using step(1) by simp
      have "be_value bs \<noteq> foldl (\<lambda>acc d. acc * 58 + d) (be_value decoded * 58 + d) ds"
        if "length bs = length decoded" for ds
        using foldl58_mono [of "be_value decoded * 58 + d" ds] big le_value_bound [of "rev bs"] that
        by (simp add: be_value_def)
      with Some m False show ?thesis by (auto simp: digit58_def list_all2_Cons1) blast
    qed
  qed
qed

lemma be_value_zeros: "be_value (replicate n 0) = 0"
proof -
  have "le_value (replicate n 0) = 0" by (induction n) simp_all
  then show ?thesis by (simp add: be_value_def)
qed

lemma take_drop_eq: "take 2 xs = [a, b] \<Longrightarrow> xs = a # b # drop 2 xs"
  by (metis append_Cons append_Nil append_take_drop_id)

section \<open>Properties\<close>

text \<open>
  C36: the \<open>did:key\<close> decoder is exact, with no overflow in its 32-bit carries. It yields a key
  if and only if the DID is \<open>did:key:z\<close> followed by base58 digits whose number is the
  big-endian number of \<open>0xed 0x01\<close> and the 32 bytes of the key.
\<close>

theorem did_key_decoded_exactly:
  "ed25519_point did = Some key \<longleftrightarrow>
     length key = 32
     \<and> (\<exists>cs ds. did = ''did:key:z'' @ cs \<and> list_all2 (\<lambda>c d. digit58 c = Some d) cs ds
          \<and> base58_value ds = be_value ([0xed, 0x01] @ key))"
proof -
  have "ed25519_point did = Some key \<longleftrightarrow> (\<exists>cs bs. did = ''did:key:z'' @ cs
      \<and> decode58 (replicate 34 0) cs = Some bs \<and> take 2 bs = [0xed, 0x01] \<and> drop 2 bs = key)"
    by (auto simp: ed25519_point_def strip_prefix_Some ed25519_multicodec_def split: option.splits
        simp del: append_Cons)
  also have "\<dots> \<longleftrightarrow> (\<exists>cs bs ds. did = ''did:key:z'' @ cs \<and> list_all2 (\<lambda>c d. digit58 c = Some d) cs ds
      \<and> length bs = 34 \<and> be_value bs = base58_value ds \<and> take 2 bs = [0xed, 0x01] \<and> drop 2 bs = key)"
    unfolding decode58_Some by (simp add: be_value_zeros base58_value_def del: append_Cons) blast
  also have "\<dots> \<longleftrightarrow> length key = 32 \<and> (\<exists>cs ds. did = ''did:key:z'' @ cs
      \<and> list_all2 (\<lambda>c d. digit58 c = Some d) cs ds \<and> base58_value ds = be_value ([0xed, 0x01] @ key))"
  proof
    assume "\<exists>cs bs ds. did = ''did:key:z'' @ cs \<and> list_all2 (\<lambda>c d. digit58 c = Some d) cs ds
      \<and> length bs = 34 \<and> be_value bs = base58_value ds \<and> take 2 bs = [0xed, 0x01] \<and> drop 2 bs = key"
    then obtain cs bs ds where w: "did = ''did:key:z'' @ cs" "list_all2 (\<lambda>c d. digit58 c = Some d) cs ds"
      and bs: "length bs = 34" "take 2 bs = [0xed, 0x01]" "drop 2 bs = key"
      and v: "be_value bs = base58_value ds" by (elim exE conjE)
    have "bs = [0xed, 0x01] @ key" using take_drop_eq [OF bs(2)] bs(3) by simp
    with v bs(1) have "base58_value ds = be_value ([0xed, 0x01] @ key)" "length key = 32" by simp_all
    with w show "length key = 32 \<and> (\<exists>cs ds. did = ''did:key:z'' @ cs
      \<and> list_all2 (\<lambda>c d. digit58 c = Some d) cs ds \<and> base58_value ds = be_value ([0xed, 0x01] @ key))"
      by blast
  next
    assume r: "length key = 32 \<and> (\<exists>cs ds. did = ''did:key:z'' @ cs
      \<and> list_all2 (\<lambda>c d. digit58 c = Some d) cs ds \<and> base58_value ds = be_value ([0xed, 0x01] @ key))"
    have "length ([0xed, 0x01] @ key) = 34 \<and> take 2 ([0xed, 0x01] @ key) = [0xed, 0x01]
      \<and> drop 2 ([0xed, 0x01] @ key) = key" using r by simp
    with r show "\<exists>cs bs ds. did = ''did:key:z'' @ cs \<and> list_all2 (\<lambda>c d. digit58 c = Some d) cs ds
      \<and> length bs = 34 \<and> be_value bs = base58_value ds \<and> take 2 bs = [0xed, 0x01] \<and> drop 2 bs = key"
      by metis
  qed
  finally show ?thesis .
qed

text \<open>
  Leading digits \<open>1\<close>, which in base58 stand for leading zero bytes, are dropped: identifiers
  of any length name the same key.
\<close>

lemma did_key_leading_ones: "ed25519_point (''did:key:z1'' @ cs) = ed25519_point (''did:key:z'' @ cs)"
proof -
  have one: "digit58 CHR ''1'' = Some 0" by (simp add: digit58_def base58btc_def)
  have "mul58 0 (replicate n 0) = (replicate n 0, 0)" for n by (induction n) simp_all
  then have "decode58 (replicate 34 0) (CHR ''1'' # cs) = decode58 (replicate 34 0) cs"
    using one by (simp add: digit58_def)
  moreover have "strip_prefix ''did:key:z'' (''did:key:z1'' @ cs) = Some (CHR ''1'' # cs)"
    "strip_prefix ''did:key:z'' (''did:key:z'' @ cs) = Some cs"
    by (simp_all add: strip_prefix_Some)
  ultimately show ?thesis by (simp only: ed25519_point_def option.case)
qed

end
