(* ===== verification/Gpg_Tool.thy ===== *)
theory Gpg_Tool
  imports Host
begin

text \<open>
  The parts of \<open>hire-attestors/src/gpg.rs\<close> that locate and run gpg and read its key listing.
  The listing parser is a loop over records with four variables; it is shown equal to a
  specification that cuts the listing into one block per secret key and decides each block on
  its own.
\<close>

section \<open>Running gpg\<close>

definition which_gpg :: "host \<Rightarrow> string option" where
  "which_gpg h = find (h_exists h) [''/usr/bin/gpg'', ''/usr/local/bin/gpg'', ''/usr/bin/gpg2'']"

definition gnupg_home :: "host \<Rightarrow> string" where
  "gnupg_home h =
     (case h_env h ''GNUPGHOME'' of
        Some d \<Rightarrow> d
      | None \<Rightarrow> path_join (case h_env h ''HOME'' of Some d \<Rightarrow> d | None \<Rightarrow> ''/root'') ''.gnupg'')"

definition gpg_is_available :: "host \<Rightarrow> bool" where
  "gpg_is_available h \<longleftrightarrow> which_gpg h \<noteq> None \<and> h_exists h (gnupg_home h)"

definition run_gpg :: "host \<Rightarrow> string \<Rightarrow> string list \<Rightarrow> byte list \<Rightarrow> attestor_error + exec_output" where
  "run_gpg h gpg args stdin =
     map_err (\<lambda>e. case e of SpawnFailed m \<Rightarrow> Unavailable (''gpg exec failed: '' @ m)
                    | WaitFailed m \<Rightarrow> Unavailable (''gpg did not run: '' @ m))
       (h_exec h gpg ([''--batch'', ''--no-tty''] @ args) stdin)"

section \<open>The key listing\<close>

definition get_field :: "'a list \<Rightarrow> nat \<Rightarrow> 'a option" where
  "get_field xs i = (if i < length xs then Some (xs ! i) else None)"

definition is_revoked :: "string option \<Rightarrow> bool" where
  "is_revoked field \<longleftrightarrow> field = Some ''r''"

definition make_gpg_candidate :: "attest_lib \<Rightarrow> string \<Rightarrow> string \<Rightarrow> candidate" where
  "make_gpg_candidate lib fingerprint display_name =
     with_proof_cost Interactive (with_attainable AttIaa1
       (new_candidate ''gpg'' SASshLocal (''gpg/'' @ to_lowercase lib fingerprint) display_name))"

record gpg_state =
  gs_candidates :: "candidate list"
  gs_fp :: "string option"
  gs_uid :: "string option"
  gs_enrollable :: bool
  gs_want_fpr :: bool

definition flush_key :: "attest_lib \<Rightarrow> gpg_state \<Rightarrow> candidate list" where
  "flush_key lib st =
     (case (gs_enrollable st, gs_fp st, gs_uid st) of
        (True, Some fp, Some uid) \<Rightarrow> gs_candidates st @ [make_gpg_candidate lib fp uid]
      | _ \<Rightarrow> gs_candidates st)"

definition gpg_record :: "attest_lib \<Rightarrow> gpg_state \<Rightarrow> string list \<Rightarrow> gpg_state" where
  "gpg_record lib st fs =
     (if get_field fs 0 = Some ''sec'' then
        (let secret_held = (case get_field fs 14 of Some f \<Rightarrow> f \<noteq> ''#'' | None \<Rightarrow> False) in
         \<lparr>gs_candidates = flush_key lib st, gs_fp = None, gs_uid = None,
          gs_enrollable = (secret_held \<and> \<not> is_revoked (get_field fs 1)), gs_want_fpr = True\<rparr>)
      else if get_field fs 0 = Some ''fpr'' \<and> gs_want_fpr st then
        st\<lparr>gs_fp := get_field fs 9, gs_want_fpr := False\<rparr>
      else if get_field fs 0 = Some ''uid'' \<and> gs_uid st = None \<and> \<not> is_revoked (get_field fs 1) then
        st\<lparr>gs_uid := get_field fs 9\<rparr>
      else st)"

definition initial_gpg_state :: gpg_state where
  "initial_gpg_state = \<lparr>gs_candidates = [], gs_fp = None, gs_uid = None, gs_enrollable = False, gs_want_fpr = False\<rparr>"

definition gpg_fields :: "string \<Rightarrow> string list list" where
  "gpg_fields out = map (split_on CHR '':'') (str_lines out)"

definition parse_gpg_colons :: "attest_lib \<Rightarrow> string \<Rightarrow> candidate list" where
  "parse_gpg_colons lib out = flush_key lib (foldl (gpg_record lib) initial_gpg_state (gpg_fields out))"

section \<open>Specification: one block per secret key\<close>

definition is_sec :: "string list \<Rightarrow> bool" where
  "is_sec r \<longleftrightarrow> get_field r 0 = Some ''sec''"

function gpg_blocks :: "string list list \<Rightarrow> (string list \<times> string list list) list" where
  "gpg_blocks [] = []"
| "gpg_blocks (r # rs) =
     (if is_sec r then (r, takeWhile (\<lambda>x. \<not> is_sec x) rs) # gpg_blocks (dropWhile (\<lambda>x. \<not> is_sec x) rs)
      else gpg_blocks rs)"
  by pat_completeness auto
termination
  by (relation "measure length") (auto simp: length_dropWhile_le le_imp_less_Suc)

text \<open>The fingerprint is that of the first \<open>fpr\<close> record, the name that of the first live \<open>uid\<close>.\<close>

definition block_fpr :: "string list list \<Rightarrow> string option" where
  "block_fpr rs = Option.bind (find (\<lambda>r. get_field r 0 = Some ''fpr'') rs) (\<lambda>r. get_field r 9)"

definition block_uid :: "string list list \<Rightarrow> string option" where
  "block_uid rs = Option.bind
     (find (\<lambda>r. get_field r 0 = Some ''uid'' \<and> \<not> is_revoked (get_field r 1) \<and> get_field r 9 \<noteq> None) rs)
     (\<lambda>r. get_field r 9)"

definition block_enrollable :: "string list \<Rightarrow> bool" where
  "block_enrollable sec \<longleftrightarrow>
     (\<exists>f. get_field sec 14 = Some f \<and> f \<noteq> ''#'') \<and> get_field sec 1 \<noteq> Some ''r''"

definition block_candidate :: "attest_lib \<Rightarrow> string list \<times> string list list \<Rightarrow> candidate option" where
  "block_candidate lib block =
     (if block_enrollable (fst block) then
        (case (block_fpr (snd block), block_uid (snd block)) of
           (Some fp, Some uid) \<Rightarrow> Some (make_gpg_candidate lib fp uid) | _ \<Rightarrow> None)
      else None)"

text \<open>The records between two \<open>sec\<close> records only fill the two slots.\<close>

lemma fold_block:
  assumes "\<forall>r\<in>set rs. \<not> is_sec r"
  shows "foldl (gpg_record lib) st rs =
    st\<lparr>gs_fp := (if gs_want_fpr st \<and> (\<exists>r\<in>set rs. get_field r 0 = Some ''fpr'') then block_fpr rs else gs_fp st),
       gs_want_fpr := (gs_want_fpr st \<and> \<not> (\<exists>r\<in>set rs. get_field r 0 = Some ''fpr'')),
       gs_uid := (case gs_uid st of Some u \<Rightarrow> Some u | None \<Rightarrow> block_uid rs)\<rparr>"
  using assms
proof (induction rs arbitrary: st)
  case Nil
  then show ?case by (cases "gs_uid st") (simp_all add: block_uid_def)
next
  case (Cons r rs)
  then have IH: "foldl (gpg_record lib) st' rs =
    st'\<lparr>gs_fp := (if gs_want_fpr st' \<and> (\<exists>r\<in>set rs. get_field r 0 = Some ''fpr'') then block_fpr rs else gs_fp st'),
       gs_want_fpr := (gs_want_fpr st' \<and> \<not> (\<exists>r\<in>set rs. get_field r 0 = Some ''fpr'')),
       gs_uid := (case gs_uid st' of Some u \<Rightarrow> Some u | None \<Rightarrow> block_uid rs)\<rparr>" for st'
    by simp
  have nosec: "get_field r 0 \<noteq> Some ''sec''" using Cons.prems by (simp add: is_sec_def)
  consider (fpr) "get_field r 0 = Some ''fpr''" | (uid) "get_field r 0 = Some ''uid''"
    | (other) "get_field r 0 \<noteq> Some ''fpr''" "get_field r 0 \<noteq> Some ''uid''" by blast
  then show ?case
  proof cases
    case fpr
    then show ?thesis unfolding foldl_Cons IH
      by (cases "gs_uid st") (auto simp: gpg_record_def block_fpr_def block_uid_def)
  next
    case uid
    then show ?thesis unfolding foldl_Cons IH
      by (cases "gs_uid st"; cases "get_field r 9")
        (auto simp: gpg_record_def block_fpr_def block_uid_def)
  next
    case other
    then show ?thesis unfolding foldl_Cons IH
      by (cases "gs_uid st") (auto simp: gpg_record_def nosec block_fpr_def block_uid_def)
  qed
qed

lemma flush_after_block:
  assumes "\<forall>r\<in>set rs. \<not> is_sec r" and "is_sec sec"
  shows "flush_key lib (foldl (gpg_record lib) (gpg_record lib st sec) rs)
    = flush_key lib st @ (case block_candidate lib (sec, rs) of None \<Rightarrow> [] | Some c \<Rightarrow> [c])"
proof -
  have none: "block_fpr rs = None" if "\<not> (\<exists>r\<in>set rs. get_field r 0 = Some ''fpr'')"
  proof -
    have "find (\<lambda>r. get_field r 0 = Some ''fpr'') rs = None" using that by (auto simp: find_None_iff)
    then show ?thesis by (simp add: block_fpr_def)
  qed
  show ?thesis
    unfolding fold_block [OF assms(1)] using assms(2) none
    by (auto simp: gpg_record_def is_sec_def Let_def flush_key_def block_candidate_def
        block_enrollable_def is_revoked_def split: option.splits bool.splits)
qed

lemma fold_blocks:
  assumes "\<forall>r\<in>set rs. \<not> is_sec r"
  shows "flush_key lib (foldl (gpg_record lib) st (rs @ recs))
    = flush_key lib (foldl (gpg_record lib) st rs) @ List.map_filter (block_candidate lib) (gpg_blocks recs)
    \<or> recs \<noteq> [] \<and> \<not> is_sec (hd recs)"
  using assms
proof (induction recs arbitrary: rs st rule: gpg_blocks.induct)
  case 1
  then show ?case by (simp add: map_filter_simps)
next
  case (2 r recs)
  show ?case
  proof (cases "is_sec r")
    case True
    let ?us = "takeWhile (\<lambda>x. \<not> is_sec x) recs" and ?rest = "dropWhile (\<lambda>x. \<not> is_sec x) recs"
    let ?st = "gpg_record lib (foldl (gpg_record lib) st rs) r"
    have us: "\<forall>r\<in>set ?us. \<not> is_sec r" by (auto dest: set_takeWhileD)
    have hd: "\<not> (?rest \<noteq> [] \<and> \<not> is_sec (hd ?rest))" using hd_dropWhile [of "\<lambda>x. \<not> is_sec x" recs] by auto
    have "flush_key lib (foldl (gpg_record lib) st (rs @ r # recs)) = flush_key lib (foldl (gpg_record lib) ?st (?us @ ?rest))"
      by simp
    also have "\<dots> = flush_key lib (foldl (gpg_record lib) ?st ?us) @ List.map_filter (block_candidate lib) (gpg_blocks ?rest)"
      using "2.IH"(1) [OF True us, of ?st] hd by blast
    also have "\<dots> = flush_key lib (foldl (gpg_record lib) st rs)
        @ List.map_filter (block_candidate lib) (gpg_blocks (r # recs))"
      using True flush_after_block [OF us True, of lib "foldl (gpg_record lib) st rs"]
      by (simp add: map_filter_simps split: option.splits)
    finally show ?thesis by simp
  qed simp
qed

lemma gpg_listing_blocks:
  "parse_gpg_colons lib out = List.map_filter (block_candidate lib) (gpg_blocks (gpg_fields out))"
proof -
  let ?recs = "gpg_fields out"
  let ?us = "takeWhile (\<lambda>x. \<not> is_sec x) ?recs" and ?rest = "dropWhile (\<lambda>x. \<not> is_sec x) ?recs"
  have us: "\<forall>r\<in>set ?us. \<not> is_sec r" by (auto dest: set_takeWhileD)
  have hd: "\<not> (?rest \<noteq> [] \<and> \<not> is_sec (hd ?rest))" using hd_dropWhile [of "\<lambda>x. \<not> is_sec x" ?recs] by auto
  have skip: "gpg_blocks (takeWhile (\<lambda>x. \<not> is_sec x) rs @ dropWhile (\<lambda>x. \<not> is_sec x) rs)
      = gpg_blocks (dropWhile (\<lambda>x. \<not> is_sec x) rs)" for rs by (induction rs) auto
  have "flush_key lib (foldl (gpg_record lib) initial_gpg_state ?us) = []"
    unfolding fold_block [OF us] by (simp add: initial_gpg_state_def flush_key_def)
  with fold_blocks [OF us, of lib initial_gpg_state ?rest] hd
  have "parse_gpg_colons lib out = List.map_filter (block_candidate lib) (gpg_blocks ?rest)"
    by (auto simp: parse_gpg_colons_def)
  with skip [of ?recs] show ?thesis by simp
qed

lemma block_candidate_made:
  "block_candidate lib b = Some c \<Longrightarrow> \<exists>fp uid. c = make_gpg_candidate lib fp uid"
  by (cases "block_fpr (snd b)"; cases "block_uid (snd b)")
    (auto simp: block_candidate_def split: if_splits)

lemma gpg_listing_candidates:
  "c \<in> set (parse_gpg_colons lib out) \<Longrightarrow> \<exists>fp uid. c = make_gpg_candidate lib fp uid"
  by (auto simp: gpg_listing_blocks in_set_map_filter dest: block_candidate_made)

section \<open>Properties\<close>

text \<open>
  C35: the key listing is read one secret key at a time. The candidates are exactly those of
  the blocks whose \<open>sec\<close> record says the secret half is held and is not revoked, with the
  fingerprint of the primary key (the block's first \<open>fpr\<close>, never a subkey's) and the block's
  first name that is not revoked; nothing leaks from one key's records into the next.
\<close>

theorem gpg_listing_per_key:
  "parse_gpg_colons lib out = List.map_filter (block_candidate lib) (gpg_blocks (gpg_fields out))"
  by (rule gpg_listing_blocks)

end
