(* ===== verification/Verify.thy ===== *)
theory Verify
  imports Ssh_Agent Did_Codec Gpg_Tool
begin

text \<open>
  The verifying constructors of \<open>hire-attestors/src/claim.rs\<close>: the only ways possession
  evidence comes to be. \<open>now\<close> is the instant the constructor stamps.
\<close>

definition malformed :: attestor_error where
  "malformed = ChallengeFailed ''malformed ssh-agent blob''"

text \<open>The two framed fields of an agent signature, under the algorithm it must name.\<close>

definition read_signature :: "byte list \<Rightarrow> byte list \<Rightarrow> attestor_error + byte list" where
  "read_signature algorithm signature =
     and_then (ok_or malformed (read_string signature)) (\<lambda>(sig_algorithm, rest).
     and_then (ok_or malformed (read_string rest)) (\<lambda>(sig_bytes, rest).
     if sig_algorithm \<noteq> algorithm \<or> rest \<noteq> [] then Inl malformed
     else if length sig_bytes \<noteq> 64 then Inl malformed
     else Inr sig_bytes))"

definition verify_ssh_ed25519 ::
  "attest_lib \<Rightarrow> sys_time \<Rightarrow> candidate \<Rightarrow> byte list \<Rightarrow> byte list \<Rightarrow> byte list
    \<Rightarrow> attestor_error + challenge_signature" where
  "verify_ssh_ed25519 lib now c challenge key_blob signature =
     (if ssh_spiffe_path lib key_blob \<noteq> cand_path c then
        Inl (ChallengeFailed ''ssh-agent signed with a key the candidate does not name'')
      else
        and_then (ok_or malformed (read_string key_blob)) (\<lambda>(algorithm, rest).
        and_then (ok_or malformed (read_string rest)) (\<lambda>(point, rest).
        if algorithm \<noteq> ssh_ed25519 \<or> rest \<noteq> [] then
          Inl (ChallengeFailed (''unsupported ssh key type '' @ from_utf8_lossy algorithm))
        else if length point \<noteq> 32 then Inl malformed
        else if \<not> al_valid_point lib point then
          Inl (ChallengeFailed ''ssh-agent key is not a valid ed25519 point'')
        else and_then (read_signature algorithm signature) (\<lambda>sig_bytes.
          if \<not> al_verify_strict lib point challenge sig_bytes then
            Inl (ChallengeFailed ''ssh-agent signature does not verify over the challenge'')
          else Inr \<lparr>cs_assertion = \<lparr>sa_bytes = sig_bytes,
                      sa_format = ''application/vnd.hire.ssh-ed25519-signature''\<rparr>,
                    cs_challenge = challenge, cs_observed_at = now\<rparr>))))"

definition verify_did_key_ed25519 ::
  "attest_lib \<Rightarrow> sys_time \<Rightarrow> candidate \<Rightarrow> byte list \<Rightarrow> string \<Rightarrow> byte list
    \<Rightarrow> attestor_error + challenge_signature" where
  "verify_did_key_ed25519 lib now c challenge did signature =
     (if did_spiffe_path lib did \<noteq> cand_path c then
        Inl (ChallengeFailed ''did:key signature is for a DID the candidate does not name'')
      else
        and_then (ok_or (ChallengeFailed (did @ '' does not encode an ed25519 key'')) (ed25519_point did)) (\<lambda>point.
        if \<not> al_valid_point lib point then
          Inl (ChallengeFailed ''did:key does not encode a valid ed25519 point'')
        else and_then (read_signature ssh_ed25519 signature) (\<lambda>sig_bytes.
          if \<not> al_verify_strict lib point challenge sig_bytes then
            Inl (ChallengeFailed ''did:key signature does not verify over the challenge'')
          else Inr \<lparr>cs_assertion = \<lparr>sa_bytes = sig_bytes,
                      sa_format = ''application/vnd.hire.did-key-ed25519-signature''\<rparr>,
                    cs_challenge = challenge, cs_observed_at = now\<rparr>)))"

text \<open>The fingerprint positions of a \<open>VALIDSIG\<close> line: the first field and the tenth.\<close>

definition names_key :: "string \<Rightarrow> string \<Rightarrow> bool" where
  "names_key status fingerprint \<longleftrightarrow>
     list_ex (\<lambda>args.
       (let fs = split_whitespace args in
        list_ex (\<lambda>f. eq_ignore_ascii_case f fingerprint)
          (List.map_filter id [get_field fs 0, get_field fs 9])))
     (List.map_filter (strip_prefix ''[GNUPG:] VALIDSIG '') (str_lines status))"

definition verify_openpgp ::
  "host \<Rightarrow> candidate \<Rightarrow> byte list \<Rightarrow> byte list \<Rightarrow> attestor_error + challenge_signature" where
  "verify_openpgp h c challenge signed_message =
     and_then (ok_or (ChallengeFailed ''not a gpg candidate'') (strip_prefix ''gpg/'' (cand_path c))) (\<lambda>fingerprint.
     and_then (ok_or (Unavailable ''gpg binary not found'') (which_gpg h)) (\<lambda>gpg.
     and_then (run_gpg h gpg [''--status-fd'', ''2'', ''--decrypt''] signed_message) (\<lambda>out.
     if \<not> ex_success out \<or> \<not> names_key (from_utf8_lossy (ex_stderr out)) fingerprint then
       Inl (ChallengeFailed (''gpg did not report a valid signature by '' @ fingerprint))
     else if ex_stdout out \<noteq> challenge then
       Inl (ChallengeFailed ''gpg signature covers data that is not this challenge'')
     else Inr \<lparr>cs_assertion = \<lparr>sa_bytes = signed_message,
                 sa_format = ''application/vnd.hire.openpgp-signed-message''\<rparr>,
               cs_challenge = challenge, cs_observed_at = h_now h\<rparr>)))"

section \<open>Lemmas\<close>

lemma read_signature_Inr:
  "read_signature algorithm signature = Inr sig_bytes \<longleftrightarrow>
     wire_string algorithm \<and> length sig_bytes = 64
     \<and> signature = push_string (push_string [] algorithm) sig_bytes"
proof
  assume "read_signature algorithm signature = Inr sig_bytes"
  then obtain rest where "read_string signature = Some (algorithm, rest)" "read_string rest = Some (sig_bytes, [])"
    "length sig_bytes = 64" by (auto simp: read_signature_def split: if_splits)
  then show "wire_string algorithm \<and> length sig_bytes = 64
      \<and> signature = push_string (push_string [] algorithm) sig_bytes"
    by (simp add: ssh_string.unframe_iff push_string_append [of "push_string [] algorithm"])
next
  assume a: "wire_string algorithm \<and> length sig_bytes = 64
      \<and> signature = push_string (push_string [] algorithm) sig_bytes"
  then have "wire_string sig_bytes" by (simp add: wire_string_def)
  with a ssh_string.unframe_frame [of sig_bytes "[]"] show "read_signature algorithm signature = Inr sig_bytes"
    by (simp add: read_signature_def ssh_string.unframe_frame push_string_append [of "push_string [] algorithm"])
qed

lemma wire_ssh_ed25519 [simp]: "wire_string ssh_ed25519"
  by (simp add: wire_string_def ssh_ed25519_def)

lemma verify_challenge:
  "verify_ssh_ed25519 lib now c challenge blob s = Inr cs \<Longrightarrow> cs_challenge cs = challenge"
  "verify_did_key_ed25519 lib now c challenge did s = Inr cs \<Longrightarrow> cs_challenge cs = challenge"
  "verify_openpgp h c challenge m = Inr cs \<Longrightarrow> cs_challenge cs = challenge"
  by (auto simp: verify_ssh_ed25519_def verify_did_key_ed25519_def verify_openpgp_def split: if_splits)

lemma ssh_evidence_helper:
  "verify_ssh_ed25519 lib now c challenge key_blob signature = Inr cs \<longleftrightarrow>
     (\<exists>point sig. ssh_spiffe_path lib key_blob = cand_path c
        \<and> length point = 32 \<and> key_blob = push_string (push_string [] ssh_ed25519) point
        \<and> al_valid_point lib point
        \<and> length sig = 64 \<and> signature = push_string (push_string [] ssh_ed25519) sig
        \<and> al_verify_strict lib point challenge sig
        \<and> cs = \<lparr>cs_assertion = \<lparr>sa_bytes = sig, sa_format = ''application/vnd.hire.ssh-ed25519-signature''\<rparr>,
                cs_challenge = challenge, cs_observed_at = now\<rparr>)"
proof -
  have key: "(\<exists>rest. read_string key_blob = Some (ssh_ed25519, rest) \<and> read_string rest = Some (point, []))
      \<longleftrightarrow> key_blob = push_string (push_string [] ssh_ed25519) point" if "length point = 32" for point
  proof -
    have "wire_string point" using that by (simp add: wire_string_def)
    then show ?thesis by (auto simp: ssh_string.unframe_iff push_string_append [of "push_string [] ssh_ed25519"])
  qed
  have "verify_ssh_ed25519 lib now c challenge key_blob signature = Inr cs \<longleftrightarrow>
     (\<exists>point sig. ssh_spiffe_path lib key_blob = cand_path c
        \<and> length point = 32
        \<and> (\<exists>rest. read_string key_blob = Some (ssh_ed25519, rest) \<and> read_string rest = Some (point, []))
        \<and> al_valid_point lib point
        \<and> read_signature ssh_ed25519 signature = Inr sig
        \<and> al_verify_strict lib point challenge sig
        \<and> cs = \<lparr>cs_assertion = \<lparr>sa_bytes = sig, sa_format = ''application/vnd.hire.ssh-ed25519-signature''\<rparr>,
                cs_challenge = challenge, cs_observed_at = now\<rparr>)"
    by (auto simp: verify_ssh_ed25519_def split: if_splits)
  then show ?thesis by (simp add: read_signature_Inr key cong: conj_cong)
qed

section \<open>Properties\<close>

text \<open>
  C20: possession evidence from an SSH agent exists exactly when all four checks hold: the key
  blob hashes to the candidate's path, it is a framed \<open>ssh-ed25519\<close> key of 32 bytes that
  encode a point with nothing after it, the signature is a framed \<open>ssh-ed25519\<close> signature of
  64 bytes with nothing after it, and it verifies over this very challenge; the evidence
  records that challenge and the instant of the check.
\<close>

theorem ssh_evidence_iff_all_checks:
  "verify_ssh_ed25519 lib now c challenge key_blob signature = Inr cs \<longleftrightarrow>
     (\<exists>point sig. ssh_spiffe_path lib key_blob = cand_path c
        \<and> length point = 32 \<and> key_blob = push_string (push_string [] ssh_ed25519) point
        \<and> al_valid_point lib point
        \<and> length sig = 64 \<and> signature = push_string (push_string [] ssh_ed25519) sig
        \<and> al_verify_strict lib point challenge sig
        \<and> cs = \<lparr>cs_assertion = \<lparr>sa_bytes = sig, sa_format = ''application/vnd.hire.ssh-ed25519-signature''\<rparr>,
                cs_challenge = challenge, cs_observed_at = now\<rparr>)"
  by (rule ssh_evidence_helper)

text \<open>
  C39: possession evidence from gpg exists only when the installed gpg succeeded, reported a
  valid signature that names the candidate's fingerprint as the signing or the primary key,
  and the data the signature covers is byte for byte this challenge.
\<close>

theorem openpgp_evidence_needs_all_checks:
  assumes "verify_openpgp h c challenge signed_message = Inr cs"
  shows "\<exists>fpr gpg out line fs. cand_path c = ''gpg/'' @ fpr \<and> which_gpg h = Some gpg
    \<and> run_gpg h gpg [''--status-fd'', ''2'', ''--decrypt''] signed_message = Inr out
    \<and> ex_success out \<and> ex_stdout out = challenge
    \<and> (''[GNUPG:] VALIDSIG '' @ line) \<in> set (str_lines (from_utf8_lossy (ex_stderr out)))
    \<and> fs = split_whitespace line
    \<and> (\<exists>i\<in>{0, 9}. i < length fs \<and> eq_ignore_ascii_case (fs ! i) fpr)
    \<and> cs_challenge cs = challenge"
proof -
  from assms obtain fpr gpg out where path: "cand_path c = ''gpg/'' @ fpr"
    and rest: "which_gpg h = Some gpg" "ex_success out" "ex_stdout out = challenge" "cs_challenge cs = challenge"
    "run_gpg h gpg [''--status-fd'', ''2'', ''--decrypt''] signed_message = Inr out"
    and names: "names_key (from_utf8_lossy (ex_stderr out)) fpr"
    by (auto simp: verify_openpgp_def strip_prefix_Some split: if_splits simp del: append_Cons)
  from names obtain l line where l: "l \<in> set (str_lines (from_utf8_lossy (ex_stderr out)))"
    "strip_prefix ''[GNUPG:] VALIDSIG '' l = Some line"
    and pos: "\<exists>f. (get_field (split_whitespace line) 0 = Some f \<or> get_field (split_whitespace line) 9 = Some f)
      \<and> eq_ignore_ascii_case f fpr"
    by (auto simp: names_key_def list_ex_iff in_set_map_filter Let_def map_filter_simps split: option.splits) blast+
  from pos have "\<exists>i\<in>{0, 9}. i < length (split_whitespace line) \<and> eq_ignore_ascii_case (split_whitespace line ! i) fpr"
    by (auto simp: get_field_def split: if_splits)
  with path rest l show ?thesis unfolding strip_prefix_Some by blast
qed

end
