(* ===== verification/Key_Attestors.thy ===== *)
theory Key_Attestors
  imports Verify
begin

text \<open>
  The attestors that prove a key: the \<open>Attestor\<close> implementations of
  \<open>hire-attestors/src/ssh.rs\<close>, \<open>did_key.rs\<close> and \<open>gpg.rs\<close>. Each method is a function of the
  moment of the machine it runs at.
\<close>

section \<open>SSH agent\<close>

definition ssh_is_available :: "host \<Rightarrow> bool" where
  "ssh_is_available h \<longleftrightarrow> (case h_env h ''SSH_AUTH_SOCK'' of Some p \<Rightarrow> h_exists h p | None \<Rightarrow> False)"

definition ssh_enumerate :: "attest_lib \<Rightarrow> host \<Rightarrow> attestor_error + candidate list" where
  "ssh_enumerate lib h =
     and_then (connect_agent h) (\<lambda>st.
     and_then (list_identities st) (\<lambda>(keys, _).
     Inr (map (\<lambda>(key_blob, display_name).
       with_proof_cost Interactive (with_attainable AttIaa1
         (new_candidate ''ssh-agent'' SASshLocal (ssh_spiffe_path lib key_blob) display_name))) keys)))"

definition ssh_prove :: "attest_lib \<Rightarrow> candidate \<Rightarrow> byte list \<Rightarrow> host \<Rightarrow> attestor_error + evidence list" where
  "ssh_prove lib c challenge h =
     and_then (connect_agent h) (\<lambda>st.
     and_then (list_identities st) (\<lambda>(keys, st).
     and_then (ok_or (ChallengeFailed (''ssh-agent no longer holds '' @ cand_path c))
       (find (\<lambda>blob. ssh_spiffe_path lib blob = cand_path c) (map fst keys))) (\<lambda>key_blob.
     and_then (ok_or (ChallengeFailed ''malformed key blob from ssh-agent'') (read_string key_blob)) (\<lambda>(algorithm, _).
     if algorithm \<noteq> ssh_ed25519 then
       Inl (ChallengeFailed (''ssh-agent key '' @ cand_path c @ '' is '' @ from_utf8_lossy algorithm
         @ ''; hire proves ssh-ed25519 keys only''))
     else
       and_then (agent_sign st key_blob challenge (cand_path c)) (\<lambda>signature.
       and_then (verify_ssh_ed25519 lib (h_now h) c challenge key_blob signature) (\<lambda>cs.
       Inr [Possession cs]))))))"

definition ssh_agent_attestor :: "attest_lib \<Rightarrow> world attestor" where
  "ssh_agent_attestor lib =
     \<lparr>at_name = ''ssh-agent'', at_enumerate = at_call (ssh_enumerate lib),
      at_prove = (\<lambda>c challenge. at_call (ssh_prove lib c challenge)), at_freshness = default_freshness\<rparr>"

section \<open>DID keys\<close>

definition did_is_available :: "host \<Rightarrow> bool" where
  "did_is_available h \<longleftrightarrow>
     (case h_env h ''HIRE_DID_KEYS'' of
        Some v \<Rightarrow> list_ex (prefix ''did:key:'') (split_whitespace v) | None \<Rightarrow> False)"

definition did_enumerate :: "attest_lib \<Rightarrow> host \<Rightarrow> attestor_error + candidate list" where
  "did_enumerate lib h =
     Inr (map (\<lambda>did. with_proof_cost Interactive (with_attainable AttIaa1
       (new_candidate ''did:key'' SASshLocal (did_spiffe_path lib did) did))) (parse_did_keys h))"

definition did_prove :: "attest_lib \<Rightarrow> candidate \<Rightarrow> byte list \<Rightarrow> host \<Rightarrow> attestor_error + evidence list" where
  "did_prove lib c challenge h =
     and_then (ok_or (ChallengeFailed (''HIRE_DID_KEYS no longer names '' @ cand_path c))
       (find (\<lambda>did. did_spiffe_path lib did = cand_path c) (parse_did_keys h))) (\<lambda>did.
     and_then (ok_or (ChallengeFailed (did @ '' does not name an ed25519 key'')) (ed25519_point did)) (\<lambda>point.
     and_then (connect_agent h) (\<lambda>st.
     and_then (list_identities st) (\<lambda>(keys, st).
     and_then (ok_or (ChallengeFailed (''no local agent holds the key '' @ did @ '' names''))
       (find (\<lambda>blob. ed25519_point_of blob = Some point) (map fst keys))) (\<lambda>key_blob.
     and_then (agent_sign st key_blob challenge (cand_path c)) (\<lambda>signature.
     and_then (verify_did_key_ed25519 lib (h_now h) c challenge did signature) (\<lambda>cs.
     Inr [Possession cs])))))))"

definition did_key_attestor :: "attest_lib \<Rightarrow> world attestor" where
  "did_key_attestor lib =
     \<lparr>at_name = ''did:key'', at_enumerate = at_call (did_enumerate lib),
      at_prove = (\<lambda>c challenge. at_call (did_prove lib c challenge)), at_freshness = default_freshness\<rparr>"

section \<open>GPG\<close>

definition gpg_enumerate :: "attest_lib \<Rightarrow> host \<Rightarrow> attestor_error + candidate list" where
  "gpg_enumerate lib h =
     and_then (ok_or (Unavailable ''gpg binary not found'') (which_gpg h)) (\<lambda>gpg.
     and_then (map_err (\<lambda>e. Unavailable (''gpg exec failed: '' @ exec_error_text e))
       (h_exec h gpg [''--batch'', ''--no-tty'', ''--list-secret-keys'', ''--with-colons'', ''--fingerprint''] [])) (\<lambda>out.
     if \<not> ex_success out then Inr []
     else Inr (parse_gpg_colons lib (from_utf8_lossy (ex_stdout out)))))"

definition gpg_prove :: "attest_lib \<Rightarrow> candidate \<Rightarrow> byte list \<Rightarrow> host \<Rightarrow> attestor_error + evidence list" where
  "gpg_prove lib c challenge h =
     and_then (ok_or (Unavailable ''gpg binary not found'') (which_gpg h)) (\<lambda>gpg.
     and_then (gpg_enumerate lib h) (\<lambda>cands.
     and_then (ok_or (ChallengeFailed (''gpg does not hold an enrollable key for '' @ cand_path c))
       (Option.bind (find (\<lambda>c'. cand_path c' = cand_path c) cands) (\<lambda>c'. strip_prefix ''gpg/'' (cand_path c')))) (\<lambda>fingerprint.
     and_then (run_gpg h gpg [''--local-user'', fingerprint, ''--sign'', ''--output'', ''-''] challenge) (\<lambda>signed.
     if \<not> ex_success signed then
       Inl (ChallengeFailed (''gpg-agent did not sign for '' @ cand_path c))
     else and_then (verify_openpgp h c challenge (ex_stdout signed)) (\<lambda>cs. Inr [Possession cs])))))"

definition gpg_attestor :: "attest_lib \<Rightarrow> world attestor" where
  "gpg_attestor lib =
     \<lparr>at_name = ''gpg'', at_enumerate = at_call (gpg_enumerate lib),
      at_prove = (\<lambda>c challenge. at_call (gpg_prove lib c challenge)), at_freshness = default_freshness\<rparr>"

section \<open>The contract\<close>

text \<open>What a successful proof by one of the three is: one verified possession.\<close>

definition one_possession :: "byte list \<Rightarrow> evidence list \<Rightarrow> bool" where
  "one_possession challenge ev \<longleftrightarrow> (\<exists>cs. ev = [Possession cs] \<and> cs_challenge cs = challenge)"

lemma one_possession_bound:
  "one_possession challenge ev \<Longrightarrow> ev \<noteq> [] \<and> (\<forall>e\<in>set ev. binds_to c challenge e)"
  "one_possession challenge ev \<Longrightarrow> e \<in> set ev \<Longrightarrow> tier_presence e = NoPresence"
  "one_possession challenge ev \<Longrightarrow> e \<in> set ev \<Longrightarrow> tier_assurance e = Iaa1"
  by (auto simp: one_possession_def)

lemma ssh_prove_possession: "ssh_prove lib c challenge h = Inr ev \<Longrightarrow> one_possession challenge ev"
  by (auto simp: ssh_prove_def one_possession_def verify_challenge split: if_splits)

lemma did_prove_possession: "did_prove lib c challenge h = Inr ev \<Longrightarrow> one_possession challenge ev"
  by (auto simp: did_prove_def one_possession_def verify_challenge)

lemma gpg_prove_possession: "gpg_prove lib c challenge h = Inr ev \<Longrightarrow> one_possession challenge ev"
  by (auto simp: gpg_prove_def one_possession_def verify_challenge split: if_splits)

lemmas proves_possession = ssh_prove_possession did_prove_possession gpg_prove_possession

interpretation ssh: presenceless_prover "ssh_prove lib" for lib
proof
  show "ev \<noteq> [] \<and> (\<forall>e\<in>set ev. binds_to c challenge e)" if "ssh_prove lib c challenge h = Inr ev" for c challenge h ev
    using ssh_prove_possession [OF that] by (rule one_possession_bound)
  show "tier_presence e = NoPresence" if "ssh_prove lib c challenge h = Inr ev" "e \<in> set ev" for c challenge h ev e
    using ssh_prove_possession [OF that(1)] that(2) by (rule one_possession_bound)
qed

interpretation did: presenceless_prover "did_prove lib" for lib
proof
  show "ev \<noteq> [] \<and> (\<forall>e\<in>set ev. binds_to c challenge e)" if "did_prove lib c challenge h = Inr ev" for c challenge h ev
    using did_prove_possession [OF that] by (rule one_possession_bound)
  show "tier_presence e = NoPresence" if "did_prove lib c challenge h = Inr ev" "e \<in> set ev" for c challenge h ev e
    using did_prove_possession [OF that(1)] that(2) by (rule one_possession_bound)
qed

interpretation gpg: presenceless_prover "gpg_prove lib" for lib
proof
  show "ev \<noteq> [] \<and> (\<forall>e\<in>set ev. binds_to c challenge e)" if "gpg_prove lib c challenge h = Inr ev" for c challenge h ev
    using gpg_prove_possession [OF that] by (rule one_possession_bound)
  show "tier_presence e = NoPresence" if "gpg_prove lib c challenge h = Inr ev" "e \<in> set ev" for c challenge h ev e
    using gpg_prove_possession [OF that(1)] that(2) by (rule one_possession_bound)
qed

section \<open>Properties\<close>

text \<open>
  An agent key that proves a candidate is the key the candidate names. A successful SSH
  proof means the agent listed, during this proof, an \<open>ssh-ed25519\<close> key whose hash is the
  candidate's path, and that key's signature over this challenge verified under the point in
  that key blob.
\<close>

theorem ssh_proof_is_by_the_named_key:
  assumes "ssh_prove lib c challenge h = Inr ev"
  shows "\<exists>st keys st' blob point sig cs.
      connect_agent h = Inr st \<and> list_identities st = Inr (keys, st') \<and> blob \<in> fst ` set keys
    \<and> ssh_spiffe_path lib blob = cand_path c
    \<and> blob = push_string (push_string [] ssh_ed25519) point \<and> length point = 32
    \<and> al_verify_strict lib point challenge sig
    \<and> ev = [Possession cs] \<and> cs_challenge cs = challenge \<and> cs_observed_at cs = h_now h
    \<and> sa_bytes (cs_assertion cs) = sig"
proof -
  from assms obtain st keys st' blob signature cs where
    a: "connect_agent h = Inr st" "list_identities st = Inr (keys, st')"
    "find (\<lambda>blob. ssh_spiffe_path lib blob = cand_path c) (map fst keys) = Some blob"
    "ev = [Possession cs]"
    and v: "verify_ssh_ed25519 lib (h_now h) c challenge blob signature = Inr cs"
    by (auto simp: ssh_prove_def split: if_splits)
  from a(3) have "blob \<in> fst ` set keys" by (auto simp: find_Some_iff)
  moreover from v [unfolded ssh_evidence_helper] obtain point sig where
    "ssh_spiffe_path lib blob = cand_path c" "length point = 32"
    "blob = push_string (push_string [] ssh_ed25519) point" "al_verify_strict lib point challenge sig"
    "cs = \<lparr>cs_assertion = \<lparr>sa_bytes = sig, sa_format = ''application/vnd.hire.ssh-ed25519-signature''\<rparr>,
           cs_challenge = challenge, cs_observed_at = h_now h\<rparr>" by blast
  ultimately show ?thesis using a by fastforce
qed

end
