(* ===== verification/Account_Attestors.thy ===== *)
theory Account_Attestors
  imports Host
begin

text \<open>
  The attestors of accounts and devices: \<open>hire-attestors/src/unix.rs\<close>, \<open>oidc.rs\<close>, \<open>fido2.rs\<close>,
  \<open>piv.rs\<close> and \<open>goa.rs\<close>. Only the Unix account can be proved; the others are discovered and
  decline.
\<close>

section \<open>The Unix account\<close>

record unix_attestor =
  ua_uid :: u32
  ua_display_name :: string

definition max_passwd_buf :: nat where
  "max_passwd_buf = 2 ^ 20"

definition unix_spiffe_path :: "u32 \<Rightarrow> string" where
  "unix_spiffe_path uid = ''unix/'' @ show_nat (unat uid)"

text \<open>
  The lookup loop. The buffer's capacity is at least one byte; it is \<open>Suc c\<close>, and doubles
  while \<open>getpwuid_r\<close> asks for more.
\<close>

function username_loop :: "host \<Rightarrow> u32 \<Rightarrow> nat \<Rightarrow> attestor_error + string option" where
  "username_loop h uid c =
     (case h_getpwuid h uid (Suc c) of
        PwRange \<Rightarrow>
          (let cap = Suc c * 2 in
           if cap > max_passwd_buf then Inl (Unavailable ''passwd entry larger than 1 MiB'')
           else username_loop h uid (cap - 1))
      | PwNoEntry \<Rightarrow> Inr None
      | PwError e \<Rightarrow> Inl (Io e)
      | PwFound name \<Rightarrow> Inr (Some (from_utf8_lossy name)))"
  by pat_completeness auto
termination
  by (relation "measure (\<lambda>(h, uid, c). max_passwd_buf - c)") auto

declare username_loop.simps [simp del]

definition username_for :: "host \<Rightarrow> u32 \<Rightarrow> attestor_error + string option" where
  "username_for h uid =
     (let cap = (if h_pw_size_max h > 0 then nat (h_pw_size_max h) else 1024)
      in username_loop h uid (cap - 1))"

definition new_unix_attestor :: "host \<Rightarrow> unix_attestor" where
  "new_unix_attestor h =
     \<lparr>ua_uid = h_uid h,
      ua_display_name =
        (case username_for h (h_uid h) of
           Inr (Some name) \<Rightarrow> name
         | Inr None \<Rightarrow> ''uid '' @ show_nat (unat (h_uid h))
         | Inl _ \<Rightarrow> ''uid '' @ show_nat (unat (h_uid h)))\<rparr>"

definition unix_enumerate :: "unix_attestor \<Rightarrow> attestor_error + candidate list" where
  "unix_enumerate ua =
     Inr [with_proof_cost Silent (with_attainable AttIaa1
       (new_candidate ''unix'' SASshLocal (unix_spiffe_path (ua_uid ua)) (ua_display_name ua)))]"

definition unix_prove :: "candidate \<Rightarrow> byte list \<Rightarrow> host \<Rightarrow> attestor_error + evidence list" where
  "unix_prove c challenge h =
     (if cand_path c \<noteq> unix_spiffe_path (h_uid h) then
        Inl (ChallengeFailed ''candidate does not name the current account'')
      else Inr [PlatformAssertion (observe_platform (h_now h) (cand_path c))])"

definition unix_source :: "unix_attestor \<Rightarrow> world attestor" where
  "unix_source ua =
     \<lparr>at_name = ''unix'', at_enumerate = at_call (\<lambda>_. unix_enumerate ua),
      at_prove = (\<lambda>c challenge. at_call (unix_prove c challenge)), at_freshness = default_freshness\<rparr>"

section \<open>Cached OIDC tokens\<close>

text \<open>\<open>splitn(3, '.')\<close> of a token, when it has three parts.\<close>

definition token_parts :: "string \<Rightarrow> (string \<times> string \<times> string) option" where
  "token_parts token =
     (case split_once CHR ''.'' token of
        None \<Rightarrow> None
      | Some (a, rest) \<Rightarrow>
          (case split_once CHR ''.'' rest of None \<Rightarrow> None | Some (b, c) \<Rightarrow> Some (a, b, c)))"

definition parse_jwt_payload :: "attest_lib \<Rightarrow> string \<Rightarrow> json option" where
  "parse_jwt_payload lib token =
     (case token_parts token of
        None \<Rightarrow> None
      | Some (_, p, _) \<Rightarrow>
          (case al_b64url_decode lib p of None \<Rightarrow> None | Some bs \<Rightarrow> result_ok (al_json lib bs)))"

definition now_unix :: "host \<Rightarrow> u64" where
  "now_unix h = (case duration_since (h_now h) unix_epoch of Some d \<Rightarrow> as_secs d | None \<Rightarrow> 0)"

definition token_is_unexpired :: "attest_lib \<Rightarrow> host \<Rightarrow> string \<Rightarrow> bool" where
  "token_is_unexpired lib h raw_token =
     (case Option.bind (parse_jwt_payload lib raw_token) (\<lambda>p. Option.bind (json_get ''exp'' p) as_u64) of
        Some e \<Rightarrow> now_unix h < e | None \<Rightarrow> False)"

definition candidate_from_jwt :: "attest_lib \<Rightarrow> string \<Rightarrow> candidate option" where
  "candidate_from_jwt lib raw_token =
     (case parse_jwt_payload lib raw_token of
        None \<Rightarrow> None
      | Some payload \<Rightarrow>
          (case Option.bind (json_get ''sub'' payload) as_str of
             None \<Rightarrow> None
           | Some sub \<Rightarrow>
               (let named = (case json_get ''email'' payload of
                               Some v \<Rightarrow> Some v | None \<Rightarrow> json_get ''preferred_username'' payload);
                    display_name = (case Option.bind named as_str of Some n \<Rightarrow> n | None \<Rightarrow> sub)
                in Some (with_proof_cost Silent (with_attainable AttIaa2
                     (new_candidate ''oidc-cached'' SASshLocal (''user/'' @ sub @ ''/via/oidc-cached'') display_name))))))"

fun as_array :: "json \<Rightarrow> json list option" where
  "as_array (JArr js) = Some js"
| "as_array _ = None"

text \<open>The candidate and the raw token of one cache entry, if it has one.\<close>

definition token_entry :: "attest_lib \<Rightarrow> string \<Rightarrow> json \<Rightarrow> (candidate \<times> string) option" where
  "token_entry lib field entry =
     (case Option.bind (json_get field entry) as_str of
        None \<Rightarrow> None
      | Some token \<Rightarrow> map_option (\<lambda>c. (c, token)) (candidate_from_jwt lib token))"

definition collect_azure_tokens :: "attest_lib \<Rightarrow> json \<Rightarrow> (candidate \<times> string) list" where
  "collect_azure_tokens lib j =
     (case Option.bind (json_get ''IdToken'' j) as_object of
        Some id_tokens \<Rightarrow> List.map_filter (token_entry lib ''secret'') (map snd id_tokens)
      | None \<Rightarrow>
          (case as_array j of
             Some arr \<Rightarrow> List.map_filter (token_entry lib ''idToken'') arr
           | None \<Rightarrow> []))"

definition read_json :: "attest_lib \<Rightarrow> host \<Rightarrow> string \<Rightarrow> json option" where
  "read_json lib h p = Option.bind (h_read_file h p) (\<lambda>text. result_ok (al_json lib (as_bytes text)))"

definition scan_token_caches :: "attest_lib \<Rightarrow> host \<Rightarrow> (candidate \<times> string) list" where
  "scan_token_caches lib h =
     (case h_env h ''HOME'' of
        None \<Rightarrow> []
      | Some home \<Rightarrow>
          (case read_json lib h (home @ ''/.config/gcloud/application_default_credentials.json'') of
             Some j \<Rightarrow> (case token_entry lib ''id_token'' j of Some p \<Rightarrow> [p] | None \<Rightarrow> [])
           | None \<Rightarrow> [])
          @ concat (map (\<lambda>fname. case read_json lib h (home @ ''/.azure/'' @ fname) of
                                   Some j \<Rightarrow> collect_azure_tokens lib j | None \<Rightarrow> [])
              [''msal_token_cache.json'', ''accessTokens.json'']))"

definition oidc_enumerate :: "attest_lib \<Rightarrow> host \<Rightarrow> attestor_error + candidate list" where
  "oidc_enumerate lib h = Inr (map fst (scan_token_caches lib h))"

definition oidc_freshness :: "attest_lib \<Rightarrow> candidate \<Rightarrow> host \<Rightarrow> attestor_error + freshness_result" where
  "oidc_freshness lib c h =
     (case find (\<lambda>(c', _). cand_path c' = cand_path c) (scan_token_caches lib h) of
        None \<Rightarrow> Inr FreshUnavailable
      | Some (_, raw) \<Rightarrow> if token_is_unexpired lib h raw then Inr Fresh else Inr (Stale NoPresence))"

definition oidc_attestor :: "attest_lib \<Rightarrow> world attestor" where
  "oidc_attestor lib =
     \<lparr>at_name = ''oidc-cached'', at_enumerate = at_call (oidc_enumerate lib),
      at_prove = default_prove ''oidc-cached'', at_freshness = (\<lambda>c. at_call (oidc_freshness lib c))\<rparr>"

section \<open>Devices\<close>

text \<open>
  The \<open>fido2\<close> feature and the devices its driver lists are parameters; a device has its HID
  parameter and its product string.
\<close>

datatype hid_param = HidPath string | HidVidPid "16 word" "16 word"

definition hex4 :: "16 word \<Rightarrow> string" where
  "hex4 w = map (\<lambda>i. digit_char (unat w div 16 ^ i mod 16)) [3, 2, 1, 0]"

fun path_key :: "hid_param \<Rightarrow> string" where
  "path_key (HidPath p) = p"
| "path_key (HidVidPid vid pid) = hex4 vid @ '':'' @ hex4 pid"

definition device_path_hash :: "attest_lib \<Rightarrow> string \<Rightarrow> string" where
  "device_path_hash lib p = hex_bytes (take 8 (al_sha256 lib (as_bytes p)))"

definition fido2_enumerate :: "attest_lib \<Rightarrow> (hid_param \<times> string) list option \<Rightarrow> attestor_error + candidate list" where
  "fido2_enumerate lib devices =
     Inr (case devices of
            None \<Rightarrow> []
          | Some devs \<Rightarrow> map (\<lambda>(param, product).
              with_proof_cost Interactive (with_attainable AttIaa3
                (new_candidate ''fido2'' SASshLocal (''fido2/'' @ device_path_hash lib (path_key param))
                  (''FIDO2 '' @ (if product = [] then ''Unknown'' else product))))) devs)"

definition fido2_is_available :: "(hid_param \<times> string) list option \<Rightarrow> bool" where
  "fido2_is_available devices \<longleftrightarrow> (case devices of None \<Rightarrow> False | Some devs \<Rightarrow> devs \<noteq> [])"

definition fido2_attestor :: "attest_lib \<Rightarrow> (hid_param \<times> string) list option \<Rightarrow> world attestor" where
  "fido2_attestor lib devices =
     \<lparr>at_name = ''fido2'', at_enumerate = at_call (\<lambda>_. fido2_enumerate lib devices),
      at_prove = default_prove ''fido2'', at_freshness = default_freshness\<rparr>"

definition piv_is_available :: bool where
  "piv_is_available = False"

definition piv_attestor :: "world attestor" where
  "piv_attestor =
     \<lparr>at_name = ''piv'', at_enumerate = at_call (\<lambda>_. Inr []),
      at_prove = default_prove ''piv'', at_freshness = default_freshness\<rparr>"

text \<open>Without its feature, which no default build enables, the source is never available.\<close>

definition goa_is_available :: bool where
  "goa_is_available = False"

definition goa_attestor :: "world attestor" where
  "goa_attestor =
     \<lparr>at_name = ''gnome-online-accounts'', at_enumerate = at_call (\<lambda>_. Inr []),
      at_prove = default_prove ''gnome-online-accounts'', at_freshness = default_freshness\<rparr>"

section \<open>The contract\<close>

lemma unix_prove_Inr:
  "unix_prove c challenge h = Inr ev \<longleftrightarrow>
     cand_path c = unix_spiffe_path (h_uid h)
     \<and> ev = [PlatformAssertion (observe_platform (h_now h) (cand_path c))]"
  by (auto simp: unix_prove_def)

interpretation unix_prover: presenceless_prover unix_prove
  by standard (auto simp: unix_prove_Inr observe_platform_def)

lemma default_prove_declines [simp]: "fst (default_prove name c challenge w) \<noteq> Inr ev"
  by (simp add: default_prove_def)

lemma unix_spiffe_path_inj: "unix_spiffe_path a = unix_spiffe_path b \<longleftrightarrow> a = b"
  by (auto simp: unix_spiffe_path_def dest: show_nat_inj intro: unsigned_word_eqI)

text \<open>The sizes after the first are the sizes of the loop started at the doubled size.\<close>

definition found_at :: "host \<Rightarrow> u32 \<Rightarrow> nat \<Rightarrow> string \<Rightarrow> nat \<Rightarrow> bool" where
  "found_at h uid c name k \<longleftrightarrow>
     (\<exists>bs. h_getpwuid h uid (Suc c * 2 ^ k) = PwFound bs \<and> name = from_utf8_lossy bs)
     \<and> (\<forall>j<k. h_getpwuid h uid (Suc c * 2 ^ j) = PwRange) \<and> (k = 0 \<or> Suc c * 2 ^ k \<le> 2 ^ 20)"

lemma found_at_doubled:
  assumes "h_getpwuid h uid (Suc c) = PwRange"
  shows "found_at h uid c name (Suc k) \<longleftrightarrow> Suc c * 2 \<le> 2 ^ 20 \<and> found_at h uid (Suc c * 2 - 1) name k"
proof -
  have cap: "Suc (Suc c * 2 - 1) * 2 ^ j = Suc c * 2 ^ Suc j" for j by simp
  have "(\<forall>j<Suc k. h_getpwuid h uid (Suc c * 2 ^ j) = PwRange)
      \<longleftrightarrow> (\<forall>j<k. h_getpwuid h uid (Suc c * 2 ^ Suc j) = PwRange)"
    using assms by (simp add: All_less_Suc2)
  moreover have "Suc c * 2 \<le> Suc c * 2 ^ Suc k" by (rule mult_le_mono2) simp
  then have "Suc c * 2 ^ Suc k \<le> 2 ^ 20 \<Longrightarrow> Suc c * 2 \<le> 2 ^ 20" by linarith
  moreover have "k = 0 \<Longrightarrow> Suc c * 2 ^ Suc k = Suc c * 2" by simp
  ultimately show ?thesis unfolding found_at_def cap by auto
qed

lemma username_loop_found_at:
  "username_loop h uid c = Inr (Some name) \<longleftrightarrow> (\<exists>k. found_at h uid c name k)"
proof (induction h uid c rule: username_loop.induct)
  case (1 h uid c)
  show ?case
  proof (cases "h_getpwuid h uid (Suc c)")
    case PwRange
    have no_first: "\<not> found_at h uid c name 0" by (simp add: found_at_def PwRange)
    then have "(\<exists>k. found_at h uid c name k) \<longleftrightarrow> (\<exists>k. found_at h uid c name (Suc k))"
      by (metis not0_implies_Suc)
    with "1.IH" [OF PwRange refl] show ?thesis
      by (subst username_loop.simps) (auto simp: PwRange Let_def found_at_doubled max_passwd_buf_def)
  next
    case (PwFound bs)
    have "found_at h uid c name k \<longleftrightarrow> k = 0 \<and> name = from_utf8_lossy bs" for k
      by (cases k) (auto simp: found_at_def PwFound intro!: exI [of _ 0])
    then show ?thesis by (subst username_loop.simps) (auto simp: PwFound)
  qed (subst username_loop.simps; fastforce simp: found_at_def intro: gr0I dest: spec [of _ 0])+
qed

lemma username_loop_found:
  "username_loop h uid c = Inr (Some name) \<longleftrightarrow>
     (\<exists>k bs. h_getpwuid h uid (Suc c * 2 ^ k) = PwFound bs \<and> name = from_utf8_lossy bs
        \<and> (\<forall>j<k. h_getpwuid h uid (Suc c * 2 ^ j) = PwRange)
        \<and> (k = 0 \<or> Suc c * 2 ^ k \<le> 2 ^ 20))"
  by (auto simp: username_loop_found_at found_at_def)

section \<open>Properties\<close>

text \<open>
  The account lookup tries the buffer sizes \<open>c\<close>, \<open>2c\<close>, \<open>4c\<close>, and so on, and returns
  a name exactly when \<open>getpwuid_r\<close> asked for more at every size before and found the entry at a
  size that is the first or at most 1 MiB; the name is the one found there.
\<close>

theorem username_lookup_first_big_enough:
  "username_loop h uid c = Inr (Some name) \<longleftrightarrow>
     (\<exists>k bs. h_getpwuid h uid (Suc c * 2 ^ k) = PwFound bs \<and> name = from_utf8_lossy bs
        \<and> (\<forall>j<k. h_getpwuid h uid (Suc c * 2 ^ j) = PwRange)
        \<and> (k = 0 \<or> Suc c * 2 ^ k \<le> 2 ^ 20))"
  by (rule username_loop_found)

end
