(* ===== verification/Tailscale.thy ===== *)
theory Tailscale
  imports Host
begin

text \<open>
  \<open>hire-attestors/src/tailscale.rs\<close>: the request to the LocalAPI, the chunked transfer
  coding, the identity a status names, and the attestor. Decoding a chunked body always
  returns, and it inverts the coding.
\<close>

section \<open>The HTTP exchange\<close>

text \<open>\<open>windows(n).position(|w| w == p)\<close>, and \<open>str::contains\<close>.\<close>

fun find_window :: "'a list \<Rightarrow> 'a list \<Rightarrow> nat option" where
  "find_window p [] = (if p = [] then Some 0 else None)"
| "find_window p (x # xs) =
     (if take (length p) (x # xs) = p then Some 0 else map_option Suc (find_window p xs))"

definition crlf :: "byte list" where
  "crlf = [13, 10]"

definition http_line :: "string \<Rightarrow> byte list" where
  "http_line s = as_bytes s @ crlf"

definition status_request :: "byte list" where
  "status_request = http_line ''GET /localapi/v0/status HTTP/1.1'' @ http_line ''Host: local-tailscaled.sock''
     @ http_line ''Connection: close'' @ crlf"

definition header_says_chunked :: "byte list \<Rightarrow> bool" where
  "header_says_chunked headers =
     list_ex (\<lambda>l. prefix ''transfer-encoding:'' (to_ascii_lowercase l)
                \<and> find_window ''chunked'' (to_ascii_lowercase l) \<noteq> None)
       (str_lines (from_utf8_lossy headers))"

lemma find_window_Some:
  "find_window p xs = Some i \<Longrightarrow> take (length p) (drop i xs) = p \<and> i \<le> length xs"
proof (induction p xs arbitrary: i rule: find_window.induct)
  case (2 p x xs)
  then show ?case by (cases i) (auto split: if_splits)
qed (auto split: if_splits)

lemma find_window_bound: "find_window p xs = Some i \<Longrightarrow> i + length p \<le> length xs"
  using find_window_Some [of p xs i]
  by (metis length_drop length_take min.cobounded1 nat_add_left_cancel_le le_add_diff_inverse)

text \<open>The loop of \<open>dechunk\<close>, with the bytes gathered so far.\<close>

function dechunk_from :: "attest_lib \<Rightarrow> byte list \<Rightarrow> byte list \<Rightarrow> attestor_error + byte list" where
  "dechunk_from lib out body =
     (case find_window crlf body of
        None \<Rightarrow> Inl (Unavailable ''chunked body: no chunk header'')
      | Some eol \<Rightarrow>
          (let line = from_utf8_lossy (take eol body);
               hex = trim (hd (split_on CHR '';'' line))
           in case parse_uint 16 (2 ^ 64) hex of
                None \<Rightarrow> Inl (Unavailable (''chunked body: bad length '' @ al_debug lib hex))
              | Some len \<Rightarrow>
                  (let body = drop (eol + 2) body in
                   if len = 0 then Inr out
                   else if length body < len then Inl (Unavailable ''chunked body: truncated chunk'')
                   else (let out = out @ take len body; body = drop len body in
                         dechunk_from lib out (if prefix crlf body then drop 2 body else body)))))"
  by pat_completeness auto
termination
proof (relation "measure (\<lambda>(lib, out, body). length body)")
  fix lib out body eol line hex len body' out' body''
  assume "find_window crlf body = Some eol" "body' = drop (eol + 2) body"
    "len \<noteq> 0" "\<not> length body' < len" "body'' = drop len body'"
  then show "((lib, out', if prefix crlf body'' then drop 2 body'' else body''), lib, out, body)
      \<in> measure (\<lambda>(lib, out, body). length body)"
    using find_window_bound [of crlf body eol] by (auto simp: crlf_def)
qed simp

declare dechunk_from.simps [simp del]

definition dechunk :: "attest_lib \<Rightarrow> byte list \<Rightarrow> attestor_error + byte list" where
  "dechunk lib body = dechunk_from lib [] body"

definition fetch_status :: "attest_lib \<Rightarrow> host \<Rightarrow> string \<Rightarrow> attestor_error + json" where
  "fetch_status lib h socket_path =
     and_then (map_err Unavailable (h_connect h socket_path)) (\<lambda>peer.
     and_then (write_all (open_stream peer) status_request) (\<lambda>st.
     (let response = read_to_end st in
      and_then (ok_or (Unavailable ''no HTTP body'')
        (map_option (\<lambda>i. i + 4) (find_window (crlf @ crlf) response))) (\<lambda>body_start.
      and_then
        (if header_says_chunked (take body_start response) then dechunk lib (drop body_start response)
         else Inr (drop body_start response)) (\<lambda>body.
      map_err Unavailable (al_json lib body))))))"

section \<open>The identity\<close>

text \<open>\<open>status[\<dots>]\<close>, which reads \<open>null\<close> where there is nothing.\<close>

definition json_index :: "string \<Rightarrow> json \<Rightarrow> json" where
  "json_index k j = (case json_get k j of Some v \<Rightarrow> v | None \<Rightarrow> JNull)"

definition trim_end_dots :: "string \<Rightarrow> string" where
  "trim_end_dots s = rev (dropWhile (\<lambda>c. c = CHR ''.'') (rev s))"

definition identity_of :: "json \<Rightarrow> attestor_error + string \<times> string" where
  "identity_of status =
     (let self_node = json_index ''Self'' status in
      and_then (ok_or (Unavailable ''missing Self.UserID'') (as_u64 (json_index ''UserID'' self_node))) (\<lambda>user_id.
      (let user_key = show_nat (unat user_id);
           user = json_index user_key (json_index ''User'' status) in
       and_then (ok_or (Unavailable (''no User entry for '' @ user_key)) (as_str (json_index ''LoginName'' user))) (\<lambda>login_name.
       (let node_name =
              (case as_str (json_index ''DNSName'' self_node) of
                 Some d \<Rightarrow> trim_end_dots d
               | None \<Rightarrow> (case as_str (json_index ''HostName'' self_node) of Some n \<Rightarrow> n | None \<Rightarrow> ''unknown''));
            display = (case as_str (json_index ''DisplayName'' user) of Some d \<Rightarrow> d | None \<Rightarrow> login_name)
        in Inr (''user/'' @ login_name @ ''/node/'' @ node_name, display))))))"

section \<open>The attestor\<close>

definition tailscale_socket :: string where
  "tailscale_socket = ''/var/run/tailscale/tailscaled.sock''"

definition tailscale_is_available :: "string \<Rightarrow> host \<Rightarrow> bool" where
  "tailscale_is_available socket_path h \<longleftrightarrow> h_exists h socket_path"

definition tailscale_enumerate :: "attest_lib \<Rightarrow> string \<Rightarrow> host \<Rightarrow> attestor_error + candidate list" where
  "tailscale_enumerate lib socket_path h =
     (if \<not> tailscale_is_available socket_path h then Inr []
      else and_then (fetch_status lib h socket_path) (\<lambda>status.
           and_then (identity_of status) (\<lambda>(path, display).
           Inr [with_proof_cost Silent (with_attainable AttIaa2
                  (new_candidate ''tailscale'' SATailscale path display))])))"

definition tailscale_prove ::
  "attest_lib \<Rightarrow> string \<Rightarrow> candidate \<Rightarrow> byte list \<Rightarrow> host \<Rightarrow> attestor_error + evidence list" where
  "tailscale_prove lib socket_path c challenge h =
     and_then (fetch_status lib h socket_path) (\<lambda>status.
     and_then (identity_of status) (\<lambda>(path, _).
     if path \<noteq> cand_path c then
       Inl (ChallengeFailed (''tailscaled no longer reports '' @ cand_path c))
     else Inr [DaemonAssertion (observe_daemon (h_now h) path)]))"

definition tailscale_attestor :: "attest_lib \<Rightarrow> string \<Rightarrow> world attestor" where
  "tailscale_attestor lib socket_path =
     \<lparr>at_name = ''tailscale'',
      at_enumerate = at_call (tailscale_enumerate lib socket_path),
      at_prove = (\<lambda>c challenge. at_call (tailscale_prove lib socket_path c challenge)),
      at_freshness = default_freshness\<rparr>"

lemma tailscale_prove_Inr:
  "tailscale_prove lib socket_path c challenge h = Inr ev \<longleftrightarrow>
     (\<exists>status display. fetch_status lib h socket_path = Inr status
        \<and> identity_of status = Inr (cand_path c, display)
        \<and> ev = [DaemonAssertion (observe_daemon (h_now h) (cand_path c))])"
  by (fastforce simp: tailscale_prove_def split: if_splits)

interpretation ts: presenceless_prover "tailscale_prove lib socket_path" for lib socket_path
  by standard (auto simp: tailscale_prove_Inr observe_daemon_def)

section \<open>The transfer coding\<close>

text \<open>A chunk as RFC 9112 writes it: its length in hexadecimal, then its bytes.\<close>

fun show_hex :: "nat \<Rightarrow> string" where
  "show_hex n = (if n < 16 then [digit_char n] else show_hex (n div 16) @ [digit_char (n mod 16)])"

declare show_hex.simps [simp del]

definition encode_chunk :: "byte list \<Rightarrow> byte list" where
  "encode_chunk c = as_bytes (show_hex (length c)) @ crlf @ c @ crlf"

definition encode_chunks :: "byte list list \<Rightarrow> byte list" where
  "encode_chunks cs = concat (map encode_chunk cs) @ as_bytes ''0'' @ crlf @ crlf"

lemma to_digit_16 [simp]: "d < 16 \<Longrightarrow> to_digit 16 (digit_char d) = Some d"
  by (simp add: to_digit_def digit_char_def Let_def)

lemma show_hex_chars: "c \<in> set (show_hex n) \<Longrightarrow> is_hex_char c"
proof (induction n rule: show_hex.induct)
  case (1 n)
  show ?case
  proof (cases "n < 16")
    case True
    with "1.prems" show ?thesis by (subst (asm) show_hex.simps) (simp add: is_hex_char_digit)
  next
    case False
    with "1.prems" have "c \<in> set (show_hex (n div 16)) \<or> c = digit_char (n mod 16)"
      by (subst (asm) show_hex.simps) auto
    with False "1.IH" show ?thesis by (auto simp: is_hex_char_digit)
  qed
qed

lemma parse_digits_show_hex: "n < lim \<Longrightarrow> parse_digits 16 lim 0 (show_hex n) = Some n"
proof (induction n rule: show_hex.induct)
  case (1 n)
  show ?case
  proof (cases "n < 16")
    case True
    with "1.prems" show ?thesis by (subst show_hex.simps) simp
  next
    case False
    then have "n div 16 < lim" using "1.prems" by simp
    with False "1.IH" have IH: "parse_digits 16 lim 0 (show_hex (n div 16)) = Some (n div 16)" by simp
    have "n div 16 * 16 + n mod 16 = n" by simp
    with "1.prems" have "parse_digits 16 lim (n div 16) [digit_char (n mod 16)] = Some n"
      by (simp only: parse_digits.simps to_digit_16 [of "n mod 16"]) simp
    with False IH show ?thesis
      by (subst show_hex.simps) (simp only: if_False parse_digits_append)
  qed
qed

lemma show_hex_not_Nil [simp]: "show_hex n \<noteq> []"
  by (subst show_hex.simps) simp

lemma hex_char_facts:
  assumes "is_hex_char c"
  shows "ws_len (c # cs) = 0" "c \<noteq> CHR '';''" "c \<noteq> CHR ''+''" "unat (byte_of_char c) < 128"
    "byte_of_char c \<noteq> 13"
proof -
  have n: "48 \<le> (of_char c :: nat) \<and> (of_char c :: nat) < 58 \<or> 97 \<le> (of_char c :: nat) \<and> (of_char c :: nat) < 103"
    using assms by (auto simp: is_hex_char_def Let_def)
  then have "(of_char c :: nat) \<notin> {9..13} \<union> {32, 194, 225, 226, 227}" by auto
  then show "ws_len (c # cs) = 0" unfolding ws_len_def by (simp add: numeral_3_eq_3)
  show "c \<noteq> CHR '';''" "c \<noteq> CHR ''+''" using n by auto
  have u: "unat (byte_of_char c) = of_char c" by (simp add: byte_of_char_def unat_of_nat)
  show "unat (byte_of_char c) < 128" using n u by auto
  show "byte_of_char c \<noteq> 13" using n u by auto
qed

lemma trim_hex:
  assumes "\<forall>c\<in>set s. is_hex_char c"
  shows "trim s = s"
proof -
  have start: "trim_start t = t" if "\<forall>c\<in>set t. is_hex_char c" for t
    using that by (cases t) (simp_all add: trim_start.simps hex_char_facts ws_len_def [of "[]"])
  have "trim_end_at keep t = keep @ t" if "\<forall>c\<in>set t. is_hex_char c" for keep t
    using that by (induction t arbitrary: keep) (simp_all add: start)
  with assms start show ?thesis by (simp add: trim_def)
qed

lemma parse_uint_show_hex: "n < lim \<Longrightarrow> parse_uint 16 lim (show_hex n) = Some n"
  using parse_digits_show_hex [of n lim] show_hex_chars [of "hd (show_hex n)" n] hex_char_facts(3)
  by (cases "show_hex n") (auto simp: parse_uint_def)

lemma find_window_crlf: "13 \<notin> set a \<Longrightarrow> find_window crlf (a @ crlf @ r) = Some (length a)"
  by (induction a) (auto simp: crlf_def)

lemma dechunk_step:
  assumes "n < 2 ^ 64"
  shows "dechunk_from lib out (as_bytes (show_hex n) @ crlf @ rest) =
    (if n = 0 then Inr out
     else if length rest < n then Inl (Unavailable ''chunked body: truncated chunk'')
     else dechunk_from lib (out @ take n rest)
       (if prefix crlf (drop n rest) then drop 2 (drop n rest) else drop n rest))"
proof -
  let ?h = "show_hex n"
  have hex: "\<forall>c\<in>set ?h. is_hex_char c" using show_hex_chars by blast
  have win: "find_window crlf (as_bytes ?h @ crlf @ rest) = Some (length ?h)"
  proof -
    have "13 \<notin> set (as_bytes ?h)" using hex hex_char_facts(5) by (auto simp: as_bytes_def)
    from find_window_crlf [OF this, of rest] show ?thesis by simp
  qed
  have "from_utf8_lossy (as_bytes ?h) = ?h"
  proof -
    have "list_all (\<lambda>b. unat b < 128) (as_bytes ?h)"
      using hex hex_char_facts(4) by (auto simp: list_all_iff as_bytes_def)
    from from_utf8_lossy_ascii [OF this] show ?thesis by simp
  qed
  moreover have "CHR '';'' \<notin> set ?h" using hex hex_char_facts(2) by blast
  ultimately have "trim (hd (split_on CHR '';'' (from_utf8_lossy (take (length ?h) (as_bytes ?h @ crlf @ rest))))) = ?h"
    using trim_hex [OF hex] by simp
  with win parse_uint_show_hex [OF assms] show ?thesis
    by (subst dechunk_from.simps) (simp add: Let_def crlf_def)
qed

section \<open>Properties\<close>

text \<open>
  C38: the transfer decoding inverts the transfer coding: a body sent in any number of
  non-empty chunks, of any sizes up to the 64-bit limit, is reassembled exactly. Decoding is
  a total function, so it also returns on every malformed body.
\<close>

theorem dechunk_inverts_chunking:
  assumes "\<forall>c\<in>set cs. c \<noteq> [] \<and> length c < 2 ^ 64"
  shows "dechunk lib (encode_chunks cs) = Inr (concat cs)"
proof -
  have "dechunk_from lib out (encode_chunks cs) = Inr (out @ concat cs)" for out
    using assms
  proof (induction cs arbitrary: out)
    case Nil
    have "show_hex 0 = ''0''" by code_simp
    with dechunk_step [of 0 lib out crlf] show ?case by (simp add: encode_chunks_def)
  next
    case (Cons c cs)
    have "encode_chunks (c # cs) = as_bytes (show_hex (length c)) @ crlf @ (c @ crlf @ encode_chunks cs)"
      by (simp add: encode_chunks_def encode_chunk_def)
    then have "dechunk_from lib out (encode_chunks (c # cs)) = dechunk_from lib (out @ c) (encode_chunks cs)"
      using Cons.prems dechunk_step [of "length c" lib out "c @ crlf @ encode_chunks cs"]
      by (simp add: crlf_def)
    with Cons show ?case by simp
  qed
  from this [of "[]"] show ?thesis by (simp add: dechunk_def)
qed


theorem dechunk_inverts_chunking_witness:
  "\<forall>lib. dechunk lib (encode_chunks [[1, 2, 3], [4]]) = Inr [1, 2, 3, 4]"
  using dechunk_inverts_chunking [of "[[1, 2, 3], [4]]"] by simp

end
