(* ===== verification/Registry.thy ===== *)
theory Registry
  imports Key_Attestors Account_Attestors Tailscale
begin

text \<open>
  \<open>hire-attestors/src/registry.rs\<close>: the sources that are active, in the order the daemon
  asks them, and what is true of all of them together.
\<close>

section \<open>Probing\<close>

definition probe_sources ::
  "attest_lib \<Rightarrow> (hid_param \<times> string) list option \<Rightarrow> host \<Rightarrow> world attestor list" where
  "probe_sources lib devices h =
     (if tailscale_is_available tailscale_socket h then [tailscale_attestor lib tailscale_socket] else [])
     @ (if ssh_is_available h then [ssh_agent_attestor lib] else [])
     @ [oidc_attestor lib]
     @ (if did_is_available h then [did_key_attestor lib] else [])
     @ (if gpg_is_available h then [gpg_attestor lib] else [])
     @ (if fido2_is_available devices then [fido2_attestor lib devices] else [])
     @ (if goa_is_available then [goa_attestor] else [])
     @ (if piv_is_available then [piv_attestor] else [])
     @ [unix_source (new_unix_attestor h)]"

section \<open>The shipped sources\<close>

lemma probe_sources_cases:
  assumes "a \<in> set (probe_sources lib devices h)"
  obtains "a = tailscale_attestor lib tailscale_socket" | "a = ssh_agent_attestor lib" | "a = oidc_attestor lib"
    | "a = did_key_attestor lib" | "a = gpg_attestor lib" | "a = fido2_attestor lib devices"
    | "a = unix_source (new_unix_attestor h)"
  using assms by (auto simp: probe_sources_def goa_is_available_def piv_is_available_def split: if_splits)

lemmas shipped_defs = tailscale_attestor_def ssh_agent_attestor_def oidc_attestor_def did_key_attestor_def
  gpg_attestor_def fido2_attestor_def unix_source_def

text \<open>A successful proof by a shipped source runs the prove function of one of five.\<close>

lemma shipped_proof_cases:
  assumes "a \<in> set (probe_sources lib devices h0)" "at_prove a c challenge w = (Inr ev, w')"
  obtains "at_name a = ''tailscale''" "tailscale_prove lib tailscale_socket c challenge (current w) = Inr ev"
    | "at_name a = ''ssh-agent''" "ssh_prove lib c challenge (current w) = Inr ev"
    | "at_name a = ''did:key''" "did_prove lib c challenge (current w) = Inr ev"
    | "at_name a = ''gpg''" "gpg_prove lib c challenge (current w) = Inr ev"
    | "at_name a = ''unix''" "unix_prove c challenge (current w) = Inr ev"
  using assms(1)
  by (cases rule: probe_sources_cases)
    (use assms(2) that in \<open>auto simp: shipped_defs at_call_def default_prove_def\<close>)

lemma possession_tier: "one_possession challenge ev \<Longrightarrow> e \<in> set ev \<Longrightarrow> tier_assurance e = Iaa1"
  by (rule one_possession_bound)

lemma claim_assurance_Iaa1:
  assumes "derive c challenge ev = Some cl" "\<forall>e\<in>set ev. tier_assurance e = Iaa1 \<and> tier_presence e = NoPresence"
  shows "cl_assurance cl = Iaa1"
proof -
  from assms(1) obtain a where "tier_of_all {e \<in> set ev. binds_to c challenge e} (a, cl_presence cl, cl_attested_at cl)"
    and "cl_assurance cl = (if Hardware \<le> cl_presence cl \<and> Iaa2 \<le> a then Iaa3 else a)"
    by (rule derive_cases)
  with assms(2) show ?thesis by (auto simp: tier_of_all_def assurance_order)
qed

lemma silent_candidates:
  assumes "a \<in> set (probe_sources lib devices h0)" "at_enumerate a w = (Inr cs, w')" "c \<in> set cs"
    "cand_proof_cost c = Silent"
  shows "at_name a \<in> {''tailscale'', ''oidc-cached'', ''unix''}"
  using assms(1)
proof (cases rule: probe_sources_cases)
  case 2
  with assms show ?thesis by (auto simp: shipped_defs at_call_def ssh_enumerate_def with_proof_cost_def)
next
  case 4
  with assms show ?thesis by (auto simp: shipped_defs at_call_def did_enumerate_def with_proof_cost_def)
next
  case 5
  with assms show ?thesis
    by (auto simp: shipped_defs at_call_def gpg_enumerate_def with_proof_cost_def
        make_gpg_candidate_def split: if_splits dest!: gpg_listing_candidates)
next
  case 6
  with assms show ?thesis
    by (auto simp: shipped_defs at_call_def fido2_enumerate_def with_proof_cost_def split: option.splits)
qed (simp_all add: shipped_defs)

text \<open>The claim of a shipped proof.\<close>

lemma shipped_claim:
  assumes "a \<in> set (probe_sources lib devices h0)" and "at_prove a c challenge w = (Inr ev, w')"
  shows "\<exists>cl. derive c challenge ev = Some cl \<and> cl_presence cl = NoPresence
    \<and> cl_assurance cl = (if at_name a = ''tailscale'' then Iaa2 else Iaa1)
    \<and> cl_spiffe_id cl = candidate_spiffe_id c"
  using assms
proof (cases rule: shipped_proof_cases)
  case 1
  then show ?thesis
    by (auto simp: tailscale_prove_Inr derive_def observe_daemon_def candidate_spiffe_id_def)
next
  case 5
  then show ?thesis
    by (auto simp: unix_prove_Inr derive_def observe_platform_def candidate_spiffe_id_def)
qed (auto dest!: proves_possession simp: one_possession_def derive_def candidate_spiffe_id_def)

section \<open>Properties\<close>

text \<open>
  What the shipped sources can establish. Every successful proof by an active source
  yields a claim; the claim shows no presence, is never \<open>Iaa3\<close>, is \<open>Iaa2\<close> exactly when the
  source is Tailscale, and stays in the trust domain the candidate named for itself.
\<close>

theorem shipped_proofs_establish_little:
  assumes "a \<in> set (probe_sources lib devices h0)" and "at_prove a c challenge w = (Inr ev, w')"
  shows "\<exists>cl. derive c challenge ev = Some cl \<and> cl_presence cl = NoPresence
    \<and> cl_assurance cl = (if at_name a = ''tailscale'' then Iaa2 else Iaa1)
    \<and> cl_spiffe_id cl = candidate_spiffe_id c"
  using assms by (rule shipped_claim)

text \<open>
  The Unix account is always the last source asked, whatever is installed, and there is
  exactly one; so it is never preferred to another source of the same assurance.
\<close>

theorem unix_account_is_last_source:
  "\<exists>others. probe_sources lib devices h = others @ [unix_source (new_unix_attestor h)]
     \<and> (\<forall>a\<in>set others. at_name a \<noteq> ''unix'')"
  by (rule exI [of _ "butlast (probe_sources lib devices h)"])
    (auto simp: probe_sources_def shipped_defs goa_is_available_def piv_is_available_def)

end
