(* ===== verification/Audience.thy ===== *)
theory Audience
  imports Assurance
begin

text \<open>
  \<open>hire-core/src/audience.rs\<close>: audience strings with \<open>hire_\<close> extension parameters. The
  parser is shown equal to a specification that classifies every parameter on its own and
  then combines the demands; closure of the \<open>hire_\<close> namespace, strictest-wins and
  idempotence are read off that specification.
\<close>

section \<open>Data\<close>

record audience_extensions =
  audience :: string
  require_presence :: presence_level
  max_age :: "duration option"

datatype audience_parse_error =
    AudUnknownPresence string
  | UnprefixedExtension string
  | InvalidMaxAge string
  | UnsupportedExtension string

text \<open>The messages of the error type, as the service returns them.\<close>

fun audience_error_message :: "audience_parse_error \<Rightarrow> string" where
  "audience_error_message (AudUnknownPresence v) = ''unknown hire_require_presence value: '' @ v"
| "audience_error_message (UnprefixedExtension n) =
     n @ '' must be written hire_'' @ n @ ''; refusing to ignore a presence requirement''"
| "audience_error_message (InvalidMaxAge v) = ''hire_max_age must be a whole number of seconds: '' @ v"
| "audience_error_message (UnsupportedExtension n) = ''unsupported hire extension: '' @ n"

section \<open>The parser\<close>

definition param_name :: "string \<Rightarrow> string" where
  "param_name p = (case split_once CHR ''='' p of None \<Rightarrow> p | Some (n, _) \<Rightarrow> n)"

definition is_unprefixed_policy_name :: "string \<Rightarrow> bool" where
  "is_unprefixed_policy_name p \<longleftrightarrow> param_name p \<in> {''require_presence'', ''max_age''}"

text \<open>The loop's variables: \<open>require_presence\<close>, \<open>max_age\<close> and \<open>kept_params\<close>.\<close>

type_synonym parse_state = "presence_level \<times> duration option \<times> string list"

definition parse_param :: "parse_state \<Rightarrow> string \<Rightarrow> audience_parse_error + parse_state" where
  "parse_param st param =
     (case st of (req, age, kept) \<Rightarrow>
        (case strip_prefix ''hire_require_presence='' param of
           Some val \<Rightarrow>
             (case presence_from_str val of
                Inl _ \<Rightarrow> Inl (AudUnknownPresence val)
              | Inr level \<Rightarrow> Inr (max req level, age, kept))
         | None \<Rightarrow>
             (case strip_prefix ''hire_max_age='' param of
                Some val \<Rightarrow>
                  (case parse_u64 val of
                     None \<Rightarrow> Inl (InvalidMaxAge val)
                   | Some secs \<Rightarrow>
                       (let named = from_secs secs in
                        Inr (req, Some (case age of None \<Rightarrow> named | Some cur \<Rightarrow> min cur named), kept)))
              | None \<Rightarrow>
                  if prefix ''hire_'' param then Inl (UnsupportedExtension (param_name param))
                  else if is_unprefixed_policy_name param
                  then Inl (UnprefixedExtension (param_name param))
                  else Inr (req, age, kept @ [param]))))"

fun parse_params :: "parse_state \<Rightarrow> string list \<Rightarrow> audience_parse_error + parse_state" where
  "parse_params st [] = Inr st"
| "parse_params st (p # ps) = and_then (parse_param st p) (\<lambda>st'. parse_params st' ps)"

definition split_query :: "string \<Rightarrow> string \<times> string option" where
  "split_query raw =
     (case split_once CHR ''?'' raw of Some (b, q) \<Rightarrow> (b, Some q) | None \<Rightarrow> (raw, None))"

definition query_params :: "string option \<Rightarrow> string list" where
  "query_params query =
     (case query of None \<Rightarrow> [] | Some q \<Rightarrow> filter (\<lambda>s. s \<noteq> []) (split_on CHR ''&'' q))"

definition join_audience :: "string \<Rightarrow> string list \<Rightarrow> string" where
  "join_audience base kept = (if kept = [] then base else base @ ''?'' @ join_with ''&'' kept)"

definition parse_audience :: "string \<Rightarrow> audience_parse_error + audience_extensions" where
  "parse_audience raw =
     (case split_query raw of (base, query) \<Rightarrow>
        and_then (parse_params (NoPresence, None, []) (query_params query))
          (\<lambda>(req, age, kept). Inr \<lparr>audience = join_audience base kept,
             require_presence = req, max_age = age\<rparr>))"

section \<open>Age bounds\<close>

text \<open>The tighter of two age bounds, \<open>None\<close> naming none.\<close>

fun tighten :: "duration option \<Rightarrow> duration option \<Rightarrow> duration option" where
  "tighten None b = b"
| "tighten a None = a"
| "tighten (Some a) (Some b) = Some (min a b)"

interpretation age_req: requirement tighten None
proof
  show "tighten (tighten a b) c = tighten a (tighten b c)" for a b c
    by (cases a; cases b; cases c) (simp_all add: min.assoc)
  show "tighten a b = tighten b a" for a b
    by (cases a; cases b) (simp_all add: min.commute)
  show "tighten a a = a" for a by (cases a) simp_all
qed simp

lemma age_as_strict_as [simp]:
  "age_req.as_strict_as a (Some b) \<longleftrightarrow> (\<exists>a'. a = Some a' \<and> a' \<le> b)"
  by (cases a) (auto simp: age_req.as_strict_as_def min_def)

section \<open>Specification\<close>

text \<open>What one parameter means on its own.\<close>

datatype param_meaning = NamesPresence presence_level | NamesAge duration | Ordinary string

definition classify :: "string \<Rightarrow> audience_parse_error + param_meaning" where
  "classify param =
     (if prefix ''hire_require_presence='' param
      then (let val = drop (length ''hire_require_presence='') param in
            case presence_from_str val of Inl _ \<Rightarrow> Inl (AudUnknownPresence val)
            | Inr l \<Rightarrow> Inr (NamesPresence l))
      else if prefix ''hire_max_age='' param
      then (let val = drop (length ''hire_max_age='') param in
            case parse_u64 val of None \<Rightarrow> Inl (InvalidMaxAge val)
            | Some secs \<Rightarrow> Inr (NamesAge (from_secs secs)))
      else if prefix ''hire_'' param then Inl (UnsupportedExtension (param_name param))
      else if param_name param \<in> {''require_presence'', ''max_age''}
      then Inl (UnprefixedExtension (param_name param))
      else Inr (Ordinary param))"

fun presence_of :: "param_meaning \<Rightarrow> presence_level" where
  "presence_of (NamesPresence l) = l"
| "presence_of _ = NoPresence"

fun age_of :: "param_meaning \<Rightarrow> duration option" where
  "age_of (NamesAge d) = Some d"
| "age_of _ = None"

fun kept_of :: "param_meaning \<Rightarrow> string list" where
  "kept_of (Ordinary p) = [p]"
| "kept_of _ = []"

definition raw_params :: "string \<Rightarrow> string list" where
  "raw_params raw = query_params (snd (split_query raw))"

definition audience_spec :: "string \<Rightarrow> audience_parse_error + audience_extensions" where
  "audience_spec raw =
     and_then (collect_results classify (raw_params raw))
       (\<lambda>ms. Inr \<lparr>audience = join_audience (fst (split_query raw)) (concat (map kept_of ms)),
                require_presence = foldl max NoPresence (map presence_of ms),
                max_age = foldl tighten None (map age_of ms)\<rparr>)"

lemma strip_prefix_take:
  "strip_prefix p s = (if prefix p s then Some (drop (length p) s) else None)"
  by (auto simp: prefix_def strip_prefix_def) (metis append_take_drop_id)

lemma parse_param_classify:
  "parse_param (req, age, kept) p =
     and_then (classify p)
       (\<lambda>m. Inr (max req (presence_of m), tighten age (age_of m), kept @ kept_of m))"
proof -
  have age: "Some (case age of None \<Rightarrow> d | Some cur \<Rightarrow> min cur d) = tighten age (Some d)" for d
    by (cases age) simp_all
  have none: "tighten age None = age" by (cases age) simp_all
  have np: "max r NoPresence = r" for r by (simp add: max_absorb1)
  show ?thesis
    unfolding parse_param_def classify_def strip_prefix_take is_unprefixed_policy_name_def Let_def
    by (simp add: age none np split: sum.split option.split)
qed

lemma parse_params_classify:
  "parse_params (req, age, kept) ps =
     and_then (collect_results classify ps)
       (\<lambda>ms. Inr (max req (foldl max NoPresence (map presence_of ms)),
                tighten age (foldl tighten None (map age_of ms)), kept @ concat (map kept_of ms)))"
proof (induction ps arbitrary: req age kept)
  case Nil
  have "tighten age None = age" by (cases age) simp_all
  then show ?case by (simp add: max_absorb1)
next
  case (Cons p ps)
  have fold: "foldl max NoPresence (l # ls) = max l (foldl max NoPresence ls)" for l ls
    by (rule presence_req.fold_Cons)
  have foldt: "foldl tighten None (d # ds) = tighten d (foldl tighten None ds)" for d ds
    by (rule age_req.fold_Cons)
  show ?case
    by (auto simp: parse_param_classify Cons.IH fold foldt max.assoc age_req.combine_assoc
        simp del: foldl_Cons split: sum.splits)
qed

lemma parse_audience_spec: "parse_audience raw = audience_spec raw"
proof -
  have "tighten None a = a" "max NoPresence l = l" for a l by (simp_all add: max_absorb2)
  then show ?thesis
    unfolding parse_audience_def audience_spec_def raw_params_def
    by (cases "collect_results classify (query_params (snd (split_query raw)))")
      (auto simp: parse_params_classify split: prod.splits)
qed

section \<open>Consequences\<close>

lemma parse_audience_Inr:
  assumes "parse_audience raw = Inr ext"
  obtains ms where "list_all2 (\<lambda>p m. classify p = Inr m) (raw_params raw) ms"
    and "audience ext = join_audience (fst (split_query raw)) (concat (map kept_of ms))"
    and "require_presence ext = foldl max NoPresence (map presence_of ms)"
    and "max_age ext = foldl tighten None (map age_of ms)"
  using assms by (auto simp: parse_audience_spec audience_spec_def collect_results_Inr)

lemma classified:
  assumes "list_all2 (\<lambda>p m. classify p = Inr m) ps ms"
  shows "set ms = {m. \<exists>p\<in>set ps. classify p = Inr m}"
  using assms by (induction rule: list_all2_induct) auto

lemma classified_ex:
  assumes "list_all2 (\<lambda>p m. classify p = Inr m) ps ms" "p \<in> set ps"
  obtains m where "classify p = Inr m" "m \<in> set ms"
proof -
  from assms have "\<exists>m. classify p = Inr m" by (auto simp: list_all2_conv_all_nth in_set_conv_nth)
  with classified [OF assms(1)] assms(2) that show thesis by blast
qed

lemma drop_length_append: "drop (length p) (p @ v) = v"
  by simp

lemma classify_hire:
  assumes "classify p = Inr m" "prefix ''hire_'' p"
  shows "(\<exists>l. p = ''hire_require_presence='' @ display_presence l \<and> m = NamesPresence l)
    \<or> (\<exists>v secs. p = ''hire_max_age='' @ v \<and> parse_u64 v = Some secs \<and> m = NamesAge (from_secs secs))"
proof (cases "prefix ''hire_require_presence='' p")
  case True
  then obtain v where v: "p = ''hire_require_presence='' @ v" by (auto simp: prefix_def)
  have "drop (length ''hire_require_presence='') p = v" unfolding v by (rule drop_length_append)
  with assms(1) True obtain l where "presence_from_str v = Inr l" "m = NamesPresence l"
    by (auto simp: classify_def Let_def simp del: list.size split: sum.splits)
  with v show ?thesis by (auto simp: presence_text.from_str_iff)
next
  case False
  show ?thesis
  proof (cases "prefix ''hire_max_age='' p")
    case True
    then obtain v where v: "p = ''hire_max_age='' @ v" by (auto simp: prefix_def)
    have "drop (length ''hire_max_age='') p = v" unfolding v by (rule drop_length_append)
    with assms(1) True False obtain secs where "parse_u64 v = Some secs" "m = NamesAge (from_secs secs)"
      by (auto simp: classify_def Let_def simp del: list.size split: option.splits)
    with v show ?thesis by auto
  next
    case no_age: False
    with False assms have False by (auto simp: classify_def)
    then show ?thesis ..
  qed
qed

lemma classify_Ordinary:
  "classify p = Inr (Ordinary q) \<longleftrightarrow>
     q = p \<and> \<not> prefix ''hire_'' p \<and> param_name p \<notin> {''require_presence'', ''max_age''}"
proof -
  have "prefix ''hire_'' p" if "prefix ''hire_require_presence='' p"
    using that by (auto simp: prefix_def)
  moreover have "prefix ''hire_'' p" if "prefix ''hire_max_age='' p"
    using that by (auto simp: prefix_def)
  ultimately show ?thesis
    unfolding classify_def Let_def by (auto split: sum.splits option.splits if_splits)
qed

lemma raw_params_plain:
  assumes "p \<in> set (raw_params raw)"
  shows "p \<noteq> [] \<and> CHR ''&'' \<notin> set p"
  using assms
  by (auto simp: raw_params_def query_params_def split: option.splits dest: split_on_no_sep)

lemma raw_params_join_audience:
  assumes "CHR ''?'' \<notin> set base" "\<forall>p\<in>set kept. p \<noteq> [] \<and> CHR ''&'' \<notin> set p"
  shows "fst (split_query (join_audience base kept)) = base"
    and "raw_params (join_audience base kept) = kept"
proof -
  have none: "split_once CHR ''?'' base = None" using assms(1) by (simp add: split_once_None)
  have some: "split_once CHR ''?'' (base @ CHR ''?'' # q) = Some (base, q)" for q
    using assms(1) by simp
  show "fst (split_query (join_audience base kept)) = base"
    by (simp add: split_query_def join_audience_def none some)
  have "filter (\<lambda>s. s \<noteq> []) (split_on CHR ''&'' (join_with ''&'' kept)) = kept" if "kept \<noteq> []"
    using assms(2) that by (simp add: split_join_with filter_id_conv)
  then show "raw_params (join_audience base kept) = kept"
    by (auto simp: raw_params_def query_params_def split_query_def join_audience_def none some)
qed

lemma split_query_base: "CHR ''?'' \<notin> set (fst (split_query raw))"
  by (auto simp: split_query_def split_once_Some split_once_None split: option.splits)

lemma kept_params:
  assumes "list_all2 (\<lambda>p m. classify p = Inr m) ps ms" "p \<in> set (concat (map kept_of ms))"
  shows "p \<in> set ps \<and> classify p = Inr (Ordinary p)"
proof -
  from assms(2) obtain m where m: "m \<in> set ms" "p \<in> set (kept_of m)" by auto
  from m(2) have mp: "m = Ordinary p" by (cases m) auto
  with m classified [OF assms(1)] obtain q where "q \<in> set ps" "classify q = Inr (Ordinary p)"
    by auto
  with classify_Ordinary [of q p] show ?thesis by simp
qed

lemma collect_ordinary:
  assumes "\<forall>p\<in>set ps. classify p = Inr (Ordinary p)"
  shows "collect_results classify ps = Inr (map Ordinary ps)"
  using assms by (simp add: collect_results_Inr list_all2_conv_all_nth)

lemma concat_kept_Ordinary: "concat (map kept_of (map Ordinary ps)) = ps"
  by (induction ps) auto

lemma fold_Ordinary:
  "foldl max NoPresence (map presence_of (map Ordinary ps)) = NoPresence"
  "foldl tighten None (map age_of (map Ordinary ps)) = None"
  by (induction ps) (auto simp: max_def)

lemma classify_name:
  assumes "classify p = Inr m"
  shows "param_name p \<notin> {''require_presence'', ''max_age''}"
proof (cases "prefix ''hire_'' p")
  case True
  then have "prefix ''hire_'' (param_name p)"
    by (auto simp: param_name_def prefix_def split: option.splits)
  then show ?thesis by auto
next
  case False
  have "\<not> prefix ''hire_require_presence='' p" "\<not> prefix ''hire_max_age='' p"
    using False by (auto simp: prefix_def)
  with False assms show ?thesis by (auto simp: classify_def split: if_splits)
qed

section \<open>Properties\<close>

text \<open>
  C22: the \<open>hire_\<close> namespace is closed. If an audience string is accepted, then no policy
  name occurs without its prefix, and every parameter in the \<open>hire_\<close> namespace was
  evaluated: it is a presence requirement that the result's level covers, or an age bound
  that the result's bound does not exceed. A requirement is never silently ignored.
\<close>

theorem accepted_audience_ignores_nothing:
  assumes "parse_audience raw = Inr ext"
  shows "\<forall>p\<in>set (raw_params raw).
    param_name p \<notin> {''require_presence'', ''max_age''} \<and>
    (prefix ''hire_'' p \<longrightarrow>
       (\<exists>l. p = ''hire_require_presence='' @ display_presence l \<and> l \<le> require_presence ext)
       \<or> (\<exists>v secs a. p = ''hire_max_age='' @ v \<and> parse_u64 v = Some secs
            \<and> max_age ext = Some a \<and> a \<le> from_secs secs))"
proof
  fix p
  assume p: "p \<in> set (raw_params raw)"
  from assms obtain ms where ms: "list_all2 (\<lambda>p m. classify p = Inr m) (raw_params raw) ms"
    and req: "require_presence ext = foldl max NoPresence (map presence_of ms)"
    and age: "max_age ext = foldl tighten None (map age_of ms)" by (rule parse_audience_Inr)
  from ms p obtain m where m: "classify p = Inr m" "m \<in> set ms" by (rule classified_ex)
  have l: "presence_of m \<le> require_presence ext"
    using presence_req.fold_covers [of "presence_of m" "map presence_of ms"] m(2) req by simp
  have a: "age_req.as_strict_as (max_age ext) (age_of m)"
    using age_req.fold_covers [of "age_of m" "map age_of ms"] m(2) age by simp
  show "param_name p \<notin> {''require_presence'', ''max_age''} \<and> (prefix ''hire_'' p \<longrightarrow>
       (\<exists>l. p = ''hire_require_presence='' @ display_presence l \<and> l \<le> require_presence ext)
       \<or> (\<exists>v secs a. p = ''hire_max_age='' @ v \<and> parse_u64 v = Some secs
            \<and> max_age ext = Some a \<and> a \<le> from_secs secs))"
  proof (intro conjI impI)
    show "param_name p \<notin> {''require_presence'', ''max_age''}" using m(1) by (rule classify_name)
    assume "prefix ''hire_'' p"
    from classify_hire [OF m(1) this] l a
    show "(\<exists>l. p = ''hire_require_presence='' @ display_presence l \<and> l \<le> require_presence ext)
       \<or> (\<exists>v secs a. p = ''hire_max_age='' @ v \<and> parse_u64 v = Some secs
            \<and> max_age ext = Some a \<and> a \<le> from_secs secs)" by force
  qed
qed

text \<open>
  What an accepted audience demands does not depend on the order or the repetition of
  its parameters: two accepted strings whose queries hold the same set of parameters demand
  the same presence level and the same age bound.
\<close>

theorem audience_demands_order_independent:
  assumes "parse_audience raw = Inr ext" and "parse_audience raw' = Inr ext'"
    and "set (raw_params raw) = set (raw_params raw')"
  shows "require_presence ext = require_presence ext' \<and> max_age ext = max_age ext'"
proof -
  from assms(1) obtain ms where ms: "list_all2 (\<lambda>p m. classify p = Inr m) (raw_params raw) ms"
    and e: "require_presence ext = foldl max NoPresence (map presence_of ms)"
    "max_age ext = foldl tighten None (map age_of ms)" by (rule parse_audience_Inr)
  from assms(2) obtain ms' where ms': "list_all2 (\<lambda>p m. classify p = Inr m) (raw_params raw') ms'"
    and e': "require_presence ext' = foldl max NoPresence (map presence_of ms')"
    "max_age ext' = foldl tighten None (map age_of ms')" by (rule parse_audience_Inr)
  have "set ms = set ms'" using classified [OF ms] classified [OF ms'] assms(3) by simp
  then have "foldl max NoPresence (map presence_of ms) = foldl max NoPresence (map presence_of ms')"
    "foldl tighten None (map age_of ms) = foldl tighten None (map age_of ms')"
    by (auto intro: presence_req.fold_set_eq age_req.fold_set_eq)
  with e e' show ?thesis by simp
qed

text \<open>
  Parsing is idempotent. The audience an accepted string yields parses again, to
  itself, and demands nothing: no \<open>hire_\<close> parameter reaches the signed \<open>aud\<close> claim.
\<close>

theorem parsed_audience_demands_nothing:
  assumes "parse_audience raw = Inr ext"
  shows "parse_audience (audience ext) =
    Inr \<lparr>audience = audience ext, require_presence = NoPresence, max_age = None\<rparr>"
proof -
  from assms obtain ms where ms: "list_all2 (\<lambda>p m. classify p = Inr m) (raw_params raw) ms"
    and a: "audience ext = join_audience (fst (split_query raw)) (concat (map kept_of ms))"
    by (rule parse_audience_Inr)
  let ?kept = "concat (map kept_of ms)"
  have plain: "\<forall>p\<in>set ?kept. p \<noteq> [] \<and> CHR ''&'' \<notin> set p"
    using kept_params [OF ms] raw_params_plain by blast
  note again = raw_params_join_audience [OF split_query_base [of raw] plain]
  have "collect_results classify (raw_params (audience ext)) = Inr (map Ordinary ?kept)"
    unfolding a again(2) using kept_params [OF ms] by (intro collect_ordinary) blast
  then show ?thesis
    unfolding parse_audience_spec audience_spec_def
    by (simp only: a again(1) and_then.simps concat_kept_Ordinary fold_Ordinary)
qed

text \<open>Applications of the properties above at concrete audience strings.\<close>

definition sample_audience :: string where
  "sample_audience = ''svc?hire_max_age=60&x=1&hire_require_presence=session&hire_max_age=30''"

definition sample_reordered :: string where
  "sample_reordered = ''other?hire_max_age=30&hire_require_presence=session&x=1&hire_max_age=60''"

definition sample_extensions :: "string \<Rightarrow> audience_extensions" where
  "sample_extensions a = \<lparr>audience = a, require_presence = Session, max_age = Some 30000000000\<rparr>"

lemma sample_seconds:
  "parse_u64 ''60'' = Some 60" "parse_u64 ''30'' = Some 30"
  "from_secs 60 = 60000000000" "from_secs 30 = 30000000000"
  by (simp_all add: parse_u64_def parse_uint_def to_digit_def from_secs_def nanos_per_sec_def)

lemma sample_parses:
  "parse_audience sample_audience = Inr (sample_extensions ''svc?x=1'')"
  "parse_audience sample_reordered = Inr (sample_extensions ''other?x=1'')"
  by (simp_all add: parse_audience_def split_query_def query_params_def parse_param_def
      strip_prefix_def presence_from_str_def sample_seconds param_name_def join_audience_def
      is_unprefixed_policy_name_def sample_audience_def sample_reordered_def sample_extensions_def
      max_def)

theorem accepted_audience_ignores_nothing_witness:
  "\<exists>l. ''hire_require_presence=session'' = ''hire_require_presence='' @ display_presence l \<and> l \<le> Session"
proof -
  have "''hire_require_presence=session'' \<in> set (raw_params sample_audience)" by code_simp
  with accepted_audience_ignores_nothing [OF sample_parses(1)]
  show ?thesis by (fastforce simp: sample_extensions_def)
qed

theorem audience_demands_order_independent_witness:
  "require_presence (sample_extensions ''svc?x=1'') = require_presence (sample_extensions ''other?x=1'')
   \<and> max_age (sample_extensions ''svc?x=1'') = max_age (sample_extensions ''other?x=1'')"
proof -
  have "set (raw_params sample_audience) = set (raw_params sample_reordered)" by code_simp
  from audience_demands_order_independent [OF sample_parses this] show ?thesis .
qed

theorem parsed_audience_demands_nothing_witness:
  "parse_audience ''svc?x=1'' = Inr \<lparr>audience = ''svc?x=1'', require_presence = NoPresence, max_age = None\<rparr>"
  using parsed_audience_demands_nothing [OF sample_parses(1)] by (simp add: sample_extensions_def)

end
