(* ===== verification/Hint.thy ===== *)
theory Hint
  imports Assurance "HOL-Library.Multiset"
begin

text \<open>
  \<open>hire-core/src/hint.rs\<close>: the machine-readable \<open>hint\<close> tag of an issued SVID, printed in a
  fixed field order and parsed in any. The parser is characterised exactly: it accepts a tag
  if and only if its non-empty parameters are, as a multiset, one of each of the four fields.
\<close>

section \<open>Data\<close>

record svid_hint =
  hint_source :: string
  hint_identity_assurance :: identity_assurance
  hint_presence :: presence_level
  hint_age :: u64

datatype hint_parse_error =
    UnknownKey string
  | RepeatedKey string
  | Missing string
  | BadValue string string

section \<open>Operations\<close>

definition display_hint :: "svid_hint \<Rightarrow> string" where
  "display_hint h =
     ''source='' @ hint_source h @ ''&identity_assurance='' @ display_assurance (hint_identity_assurance h)
     @ ''&presence='' @ display_presence (hint_presence h) @ ''&age='' @ show_nat (unat (hint_age h))"

text \<open>The four \<open>Option\<close> variables of the parser's loop.\<close>

record hint_state =
  st_source :: "string option"
  st_assurance :: "identity_assurance option"
  st_presence :: "presence_level option"
  st_age :: "u64 option"

text \<open>
  One iteration. \<open>Option::replace\<close> stores the new value and returns the old one, so a key
  seen before is an error; the value is parsed before that is looked at.
\<close>

definition hint_param :: "hint_state \<Rightarrow> string \<Rightarrow> hint_parse_error + hint_state" where
  "hint_param st param =
     (case split_once CHR ''='' param of
        None \<Rightarrow> Inl (UnknownKey param)
      | Some (key, val) \<Rightarrow>
          if key = ''source'' then
            (if st_source st \<noteq> None then Inl (RepeatedKey key)
             else Inr (st\<lparr>st_source := Some val\<rparr>))
          else if key = ''identity_assurance'' then
            (case assurance_from_str val of
               Inl _ \<Rightarrow> Inl (BadValue key val)
             | Inr a \<Rightarrow> if st_assurance st \<noteq> None then Inl (RepeatedKey key)
                        else Inr (st\<lparr>st_assurance := Some a\<rparr>))
          else if key = ''presence'' then
            (case presence_from_str val of
               Inl _ \<Rightarrow> Inl (BadValue key val)
             | Inr p \<Rightarrow> if st_presence st \<noteq> None then Inl (RepeatedKey key)
                        else Inr (st\<lparr>st_presence := Some p\<rparr>))
          else if key = ''age'' then
            (case parse_u64 val of
               None \<Rightarrow> Inl (BadValue key val)
             | Some n \<Rightarrow> if st_age st \<noteq> None then Inl (RepeatedKey key)
                         else Inr (st\<lparr>st_age := Some n\<rparr>))
          else Inl (UnknownKey key))"

fun hint_params :: "hint_state \<Rightarrow> string list \<Rightarrow> hint_parse_error + hint_state" where
  "hint_params st [] = Inr st"
| "hint_params st (p # ps) = and_then (hint_param st p) (\<lambda>st'. hint_params st' ps)"

definition hint_pieces :: "string \<Rightarrow> string list" where
  "hint_pieces raw = filter (\<lambda>s. s \<noteq> []) (split_on CHR ''&'' raw)"

definition empty_hint_state :: hint_state where
  "empty_hint_state = \<lparr>st_source = None, st_assurance = None, st_presence = None, st_age = None\<rparr>"

definition finish_hint :: "hint_state \<Rightarrow> hint_parse_error + svid_hint" where
  "finish_hint st =
     and_then (ok_or (Missing ''source'') (st_source st)) (\<lambda>s.
     and_then (ok_or (Missing ''identity_assurance'') (st_assurance st)) (\<lambda>a.
     and_then (ok_or (Missing ''presence'') (st_presence st)) (\<lambda>p.
     and_then (ok_or (Missing ''age'') (st_age st)) (\<lambda>n.
     Inr \<lparr>hint_source = s, hint_identity_assurance = a, hint_presence = p, hint_age = n\<rparr>))))"

definition hint_from_str :: "string \<Rightarrow> hint_parse_error + svid_hint" where
  "hint_from_str raw = and_then (hint_params empty_hint_state (hint_pieces raw)) finish_hint"

section \<open>Specification: one of each field\<close>

datatype hint_field =
    FSource string
  | FAssurance identity_assurance
  | FPresence presence_level
  | FAge u64

text \<open>The field a piece names, on its own.\<close>

definition field_of :: "string \<Rightarrow> hint_parse_error + hint_field" where
  "field_of param =
     (case split_once CHR ''='' param of
        None \<Rightarrow> Inl (UnknownKey param)
      | Some (key, val) \<Rightarrow>
          if key = ''source'' then Inr (FSource val)
          else if key = ''identity_assurance'' then
            map_err (\<lambda>_. BadValue key val) (and_then (assurance_from_str val) (\<lambda>a. Inr (FAssurance a)))
          else if key = ''presence'' then
            map_err (\<lambda>_. BadValue key val) (and_then (presence_from_str val) (\<lambda>p. Inr (FPresence p)))
          else if key = ''age'' then
            and_then (ok_or (BadValue key val) (parse_u64 val)) (\<lambda>n. Inr (FAge n))
          else Inl (UnknownKey key))"

fun put_field :: "hint_state \<Rightarrow> hint_field \<Rightarrow> hint_parse_error + hint_state" where
  "put_field st (FSource s) =
     (if st_source st \<noteq> None then Inl (RepeatedKey ''source'') else Inr (st\<lparr>st_source := Some s\<rparr>))"
| "put_field st (FAssurance a) =
     (if st_assurance st \<noteq> None then Inl (RepeatedKey ''identity_assurance'')
      else Inr (st\<lparr>st_assurance := Some a\<rparr>))"
| "put_field st (FPresence p) =
     (if st_presence st \<noteq> None then Inl (RepeatedKey ''presence'') else Inr (st\<lparr>st_presence := Some p\<rparr>))"
| "put_field st (FAge n) =
     (if st_age st \<noteq> None then Inl (RepeatedKey ''age'') else Inr (st\<lparr>st_age := Some n\<rparr>))"

text \<open>The fields a state holds.\<close>

fun opt_mset :: "'a option \<Rightarrow> 'a multiset" where
  "opt_mset None = {#}"
| "opt_mset (Some x) = {#x#}"

definition fields :: "hint_state \<Rightarrow> hint_field multiset" where
  "fields st =
     opt_mset (map_option FSource (st_source st))
     + opt_mset (map_option FAssurance (st_assurance st))
     + opt_mset (map_option FPresence (st_presence st))
     + opt_mset (map_option FAge (st_age st))"

lemma hint_param_field: "hint_param st p = and_then (field_of p) (put_field st)"
  unfolding hint_param_def field_of_def by (auto split: option.splits sum.splits)

fun put_fields :: "hint_state \<Rightarrow> hint_field list \<Rightarrow> hint_parse_error + hint_state" where
  "put_fields st [] = Inr st"
| "put_fields st (f # fs) = and_then (put_field st f) (\<lambda>s. put_fields s fs)"

lemma hint_params_Inr:
  "hint_params st ps = Inr st' \<longleftrightarrow>
     (\<exists>fs. list_all2 (\<lambda>p f. field_of p = Inr f) ps fs \<and> put_fields st fs = Inr st')"
proof (induction ps arbitrary: st)
  case (Cons p ps)
  have "hint_params st (p # ps) = Inr st' \<longleftrightarrow> (\<exists>f s. field_of p = Inr f \<and> put_field st f = Inr s \<and>
      (\<exists>fs. list_all2 (\<lambda>p f. field_of p = Inr f) ps fs \<and> put_fields s fs = Inr st'))"
    by (auto simp: hint_param_field Cons.IH)
  also have "\<dots> \<longleftrightarrow> (\<exists>f fs. field_of p = Inr f \<and> list_all2 (\<lambda>p f. field_of p = Inr f) ps fs
      \<and> put_fields st (f # fs) = Inr st')" by auto
  finally show ?case by (auto simp only: list_all2_Cons1)
qed simp

text \<open>The loop accumulates: what it holds in the end is what it held plus what it read.\<close>

lemma put_field_fields: "put_field st f = Inr st' \<Longrightarrow> fields st' = add_mset f (fields st)"
  by (cases f) (auto simp: fields_def split: if_splits)

lemma put_fields_fields: "put_fields st fs = Inr st' \<Longrightarrow> fields st' = fields st + mset fs"
  by (induction st fs rule: put_fields.induct) (auto simp: put_field_fields)

text \<open>Conversely, fields that fit in a state are taken, each into a slot that is free.\<close>

fun key_of :: "hint_field \<Rightarrow> string" where
  "key_of (FSource _) = ''source''"
| "key_of (FAssurance _) = ''identity_assurance''"
| "key_of (FPresence _) = ''presence''"
| "key_of (FAge _) = ''age''"

definition slot :: "string \<Rightarrow> hint_state \<Rightarrow> hint_field multiset" where
  "slot k st = filter_mset (\<lambda>f. key_of f = k) (fields st)"

lemma slot_simps:
  "slot ''source'' st = opt_mset (map_option FSource (st_source st))"
  "slot ''identity_assurance'' st = opt_mset (map_option FAssurance (st_assurance st))"
  "slot ''presence'' st = opt_mset (map_option FPresence (st_presence st))"
  "slot ''age'' st = opt_mset (map_option FAge (st_age st))"
  by (cases "st_source st"; cases "st_assurance st"; cases "st_presence st"; cases "st_age st";
      simp add: slot_def fields_def)+

lemma opt_mset_inj [simp]: "opt_mset x = opt_mset y \<longleftrightarrow> x = y"
  by (cases x; cases y) auto

lemma size_opt_mset: "size (opt_mset x) \<le> 1"
  by (cases x) auto

lemma opt_mset_empty [simp]: "opt_mset x = {#} \<longleftrightarrow> x = None"
  by (cases x) auto

lemma map_option_inj: "map_option f x = map_option f y \<Longrightarrow> inj f \<Longrightarrow> x = y"
  by (metis injD option.inj_map)

lemma inj_fields [simp]: "inj FSource" "inj FAssurance" "inj FPresence" "inj FAge"
  by (auto simp: inj_def)

lemma fields_inj:
  assumes "fields a = fields b"
  shows "a = b"
proof -
  have "slot k a = slot k b" for k using assms by (simp add: slot_def)
  from this [of "''source''"] this [of "''identity_assurance''"] this [of "''presence''"] this [of "''age''"]
  show ?thesis
    by (intro hint_state.equality)
      (auto simp: slot_simps dest: map_option_inj)
qed

lemma slot_small: "size (slot (key_of f) st) \<le> 1"
  by (cases f) (simp_all only: key_of.simps slot_simps size_opt_mset)

lemma put_field_free: "slot (key_of f) st = {#} \<Longrightarrow> \<exists>s. put_field st f = Inr s"
  by (cases f) (auto simp: slot_simps)

lemma put_fields_fit:
  assumes "fields st' = fields st + mset fs"
  shows "put_fields st fs = Inr st'"
  using assms
proof (induction st fs rule: put_fields.induct)
  case (1 st)
  then show ?case using fields_inj by simp
next
  case (2 st f fs)
  have "slot (key_of f) st' = slot (key_of f) st + filter_mset (\<lambda>g. key_of g = key_of f) (mset (f # fs))"
    using "2.prems" by (simp add: slot_def)
  then have "slot (key_of f) st = {#}"
    using slot_small [of f st'] by (auto simp: size_Suc_Diff1)
  then obtain s where s: "put_field st f = Inr s" using put_field_free by blast
  with "2.IH" [of s] "2.prems" show ?case by (simp add: put_field_fields [OF s])
qed

lemma put_fields_iff: "put_fields st fs = Inr st' \<longleftrightarrow> fields st' = fields st + mset fs"
  using put_fields_fields put_fields_fit by blast

section \<open>The accepted tags\<close>

text \<open>Reading pieces one by one, seen on multisets.\<close>

lemma read_all_mset:
  "(\<exists>fs. list_all2 R ps fs \<and> mset fs = M) \<longleftrightarrow> rel_mset R (mset ps) M"
proof
  assume "rel_mset R (mset ps) M"
  then obtain xs ys where "mset xs = mset ps" "mset ys = M" "list_all2 R xs ys"
    by (auto simp: rel_mset_def)
  with list_all2_reorder_left_invariance [of R xs ys ps]
  show "\<exists>fs. list_all2 R ps fs \<and> mset fs = M" by auto
qed (auto simp: rel_mset_def)

lemma rel_mset_add_right:
  "rel_mset R A (add_mset b B) \<longleftrightarrow> (\<exists>a A'. A = add_mset a A' \<and> R a b \<and> rel_mset R A' B)"
  using msed_rel_invR [of R A b B] rel_mset_Plus [of R _ b _ B] by auto

text \<open>The spellings of one field.\<close>

lemma key_split:
  "CHR ''='' \<notin> set key \<Longrightarrow> split_once CHR ''='' p = Some (key, v) \<longleftrightarrow> p = key @ CHR ''='' # v"
  by (auto simp: split_once_Some)

lemma field_of_cases:
  "field_of p = Inr f \<longleftrightarrow>
     (\<exists>v. split_once CHR ''='' p = Some (key_of f, v) \<and>
        (case f of FSource s \<Rightarrow> v = s | FAssurance a \<Rightarrow> assurance_from_str v = Inr a
         | FPresence l \<Rightarrow> presence_from_str v = Inr l | FAge n \<Rightarrow> parse_u64 v = Some n))"
proof (cases "split_once CHR ''='' p")
  case (Some kv)
  obtain k v where kv: "kv = (k, v)" by (cases kv)
  show ?thesis by (cases f) (auto simp: field_of_def Some kv)
qed (simp add: field_of_def)

lemma field_of_Inr:
  "field_of p = Inr (FSource s) \<longleftrightarrow> p = ''source='' @ s"
  "field_of p = Inr (FAssurance a) \<longleftrightarrow> p = ''identity_assurance='' @ display_assurance a"
  "field_of p = Inr (FPresence l) \<longleftrightarrow> p = ''presence='' @ display_presence l"
  "field_of p = Inr (FAge n) \<longleftrightarrow> (\<exists>v. p = ''age='' @ v \<and> parse_u64 v = Some n)"
  by (simp_all add: field_of_cases key_split assurance_text.from_str_iff presence_text.from_str_iff)

lemma finish_hint_Inr:
  "finish_hint st = Inr h \<longleftrightarrow>
     fields st = {#FSource (hint_source h), FAssurance (hint_identity_assurance h),
                  FPresence (hint_presence h), FAge (hint_age h)#}"
proof -
  let ?full = "\<lparr>st_source = Some (hint_source h), st_assurance = Some (hint_identity_assurance h),
    st_presence = Some (hint_presence h), st_age = Some (hint_age h)\<rparr>"
  have "finish_hint st = Inr h \<longleftrightarrow> st = ?full" by (cases st; cases h) (auto simp: finish_hint_def)
  also have "\<dots> \<longleftrightarrow> fields st = fields ?full" using fields_inj by blast
  also have "fields ?full = {#FSource (hint_source h), FAssurance (hint_identity_assurance h),
      FPresence (hint_presence h), FAge (hint_age h)#}" by (simp add: fields_def)
  finally show ?thesis .
qed

lemma rel_mset_four:
  "rel_mset R A {#a, b, c, d#} \<longleftrightarrow>
     (\<exists>a' b' c' d'. R a' a \<and> R b' b \<and> R c' c \<and> R d' d \<and> A = {#a', b', c', d'#})"
  by (simp only: rel_mset_add_right rel_mset_Zero_iff) blast

lemma hint_from_str_iff:
  "hint_from_str raw = Inr h \<longleftrightarrow>
     (\<exists>v. parse_u64 v = Some (hint_age h) \<and>
        mset (hint_pieces raw) =
          {#''source='' @ hint_source h,
            ''identity_assurance='' @ display_assurance (hint_identity_assurance h),
            ''presence='' @ display_presence (hint_presence h), ''age='' @ v#})"
proof -
  let ?M = "{#FSource (hint_source h), FAssurance (hint_identity_assurance h),
    FPresence (hint_presence h), FAge (hint_age h)#}"
  have "hint_from_str raw = Inr h \<longleftrightarrow>
      (\<exists>st. hint_params empty_hint_state (hint_pieces raw) = Inr st \<and> fields st = ?M)"
    by (simp add: hint_from_str_def finish_hint_Inr)
  also have "\<dots> \<longleftrightarrow> (\<exists>fs. list_all2 (\<lambda>p f. field_of p = Inr f) (hint_pieces raw) fs \<and> mset fs = ?M)"
  proof -
    have empty: "fields empty_hint_state = {#}" by (simp add: fields_def empty_hint_state_def)
    obtain st where st: "fields st = ?M"
      by (rule that [of "\<lparr>st_source = Some (hint_source h), st_assurance = Some (hint_identity_assurance h),
        st_presence = Some (hint_presence h), st_age = Some (hint_age h)\<rparr>"]) (simp add: fields_def)
    show ?thesis
      unfolding hint_params_Inr put_fields_iff empty using st by (metis add_0)
  qed
  also have "\<dots> \<longleftrightarrow> rel_mset (\<lambda>p f. field_of p = Inr f) (mset (hint_pieces raw)) ?M"
    by (rule read_all_mset)
  finally show ?thesis unfolding rel_mset_four field_of_Inr by (simp del: append_Cons) metis
qed

definition plain_source :: "svid_hint \<Rightarrow> bool" where
  "plain_source h \<longleftrightarrow> CHR ''&'' \<notin> set (hint_source h)"

lemma hint_pieces_display:
  assumes "plain_source h"
  shows "hint_pieces (display_hint h) =
    [''source='' @ hint_source h, ''identity_assurance='' @ display_assurance (hint_identity_assurance h),
     ''presence='' @ display_presence (hint_presence h), ''age='' @ show_nat (unat (hint_age h))]"
    (is "_ = ?ps")
proof -
  have "CHR ''&'' \<notin> set (show_nat n)" for n by (rule show_nat_no_char) simp
  then have "\<forall>p\<in>set ?ps. CHR ''&'' \<notin> set p"
    using assms display_assurance_plain display_presence_plain by (simp add: plain_source_def)
  then have "split_on CHR ''&'' (join_with ''&'' ?ps) = ?ps" by (intro split_join_with) auto
  moreover have "join_with ''&'' ?ps = display_hint h" by (simp add: display_hint_def)
  ultimately have "split_on CHR ''&'' (display_hint h) = ?ps" by metis
  then show ?thesis by (simp add: hint_pieces_def)
qed

interpretation hint_text: text_form display_hint hint_from_str plain_source
  by standard (auto simp: hint_from_str_iff hint_pieces_display
      intro!: exI [of _ "show_nat (unat (hint_age _))"])

section \<open>Properties\<close>

text \<open>
  A \<open>hint\<close> tag is accepted exactly when its non-empty parameters are one of each of the
  four documented fields, in any order, each with a value of its type: an unknown key, a
  repeated key, a missing key and a malformed value are all refused.
\<close>

theorem hint_accepts_one_of_each_field:
  "hint_from_str raw = Inr h \<longleftrightarrow>
     (\<exists>v. parse_u64 v = Some (hint_age h) \<and>
        mset (hint_pieces raw) =
          {#''source='' @ hint_source h,
            ''identity_assurance='' @ display_assurance (hint_identity_assurance h),
            ''presence='' @ display_presence (hint_presence h), ''age='' @ v#})"
  by (rule hint_from_str_iff)

text \<open>
  A printed tag parses back to the hint it was printed from, for every hint whose source
  name holds no \<open>&\<close>.
\<close>

theorem hint_round_trip:
  "CHR ''&'' \<notin> set (hint_source h) \<Longrightarrow> hint_from_str (display_hint h) = Inr h"
  using hint_text.from_str_display by (simp add: plain_source_def)

theorem hint_round_trip_witness:
  "hint_from_str ''source=tailscale&identity_assurance=iaa2&presence=none&age=3'' =
     Inr \<lparr>hint_source = ''tailscale'', hint_identity_assurance = Iaa2, hint_presence = NoPresence, hint_age = 3\<rparr>"
proof -
  have three: "show_nat 3 = ''3''" by code_simp
  show ?thesis
    using hint_round_trip [of "\<lparr>hint_source = ''tailscale'', hint_identity_assurance = Iaa2,
      hint_presence = NoPresence, hint_age = 3\<rparr>"]
    by (simp add: display_hint_def three)
qed

end
