(* ===== verification/Signer.thy ===== *)
theory Signer
  imports Consumer Assurance Json
begin

text \<open>
  \<open>hire-core/src/signer.rs\<close> and \<open>hire-core/src/hvid.rs\<close>: the daemon's ephemeral signing
  key, the JWKS and the key identifier it publishes, the claims of a JWT-SVID and their
  signature.

  The cryptographic and token crates are the fields of \<open>crypto_lib\<close>. Keys are their bytes:
  a signing key its scalar, an \<open>EncodingKey\<close> its DER document, a \<open>DecodingKey\<close> the
  uncompressed point.
\<close>

section \<open>Third-party operations\<close>

record jwt_header =
  hdr_alg :: string
  hdr_kid :: "string option"

record validation =
  val_algorithm :: string
  val_audience :: "string list"
  val_leeway :: u64

datatype jwk_params = EllipticCurve string string string | OtherParams

record jwk =
  jwk_kid :: "string option"
  jwk_algorithm :: jwk_params

record crypto_lib =
  sha256 :: "byte list \<Rightarrow> byte list"
  b64url_encode :: "byte list \<Rightarrow> string"
  b64url_decode :: "string \<Rightarrow> byte list option"
  hkdf_sha256 :: hkdf
  to_pkcs8_der :: "byte list \<Rightarrow> string + byte list"
  to_encoded_point :: "byte list \<Rightarrow> byte list"
  try_sign :: "byte list \<Rightarrow> byte list \<Rightarrow> string + byte list"
  jwt_encode :: "jwt_header \<Rightarrow> json \<Rightarrow> byte list \<Rightarrow> string + string"
  jwt_insecure_decode :: "string \<Rightarrow> string + jwt_header \<times> json"
  jwt_decode :: "string \<Rightarrow> byte list \<Rightarrow> validation \<Rightarrow> u64 \<Rightarrow> string + jwt_header \<times> json"
  jwks_from_value :: "json \<Rightarrow> jwk list option"
  jwks_find :: "jwk list \<Rightarrow> string \<Rightarrow> jwk option"
  decoding_key_from_jwk :: "jwk \<Rightarrow> byte list option"

section \<open>Data\<close>

datatype signer_error =
    KeyGen string
  | SignFailed string
  | JwtError string
  | NotImplemented string

fun signer_error_message :: "signer_error \<Rightarrow> string" where
  "signer_error_message (KeyGen e) = ''key generation failed: '' @ e"
| "signer_error_message (SignFailed e) = ''signing failed: '' @ e"
| "signer_error_message (JwtError e) = ''jwt error: '' @ e"
| "signer_error_message (NotImplemented e) = ''not implemented: '' @ e"

record jwt_claims =
  jc_sub :: string
  jc_aud :: "string list"
  jc_exp :: u64
  jc_iat :: u64
  jc_spiffe_id :: string
  jc_hire :: json

record svid_signer =
  signing_key :: "byte list"
  public_key_sec1 :: "byte list"
  encoding_key :: "byte list"
  pseudonym_ikm :: "byte list"

text \<open>\<open>hvid.rs\<close>: the \<open>hire\<close> extension object.\<close>

record presence_info =
  pi_present :: bool
  pi_attested_by :: string
  pi_attested_at :: u64
  pi_present_until :: u64

record hire_claims =
  hc_root_trust_domain :: string
  hc_sources :: "string list"
  hc_identity_assurance :: identity_assurance
  hc_presence :: presence_info
  hc_auth_methods :: "string list"

section \<open>Serialisation\<close>

definition presence_info_value :: "presence_info \<Rightarrow> json" where
  "presence_info_value p = JObj
     [(''present'', JBool (pi_present p)), (''attested_by'', JStr (pi_attested_by p)),
      (''attested_at'', JNum (PosInt (pi_attested_at p))),
      (''present_until'', JNum (PosInt (pi_present_until p)))]"

text \<open>\<open>IdentityAssurance\<close> serialises in lower case, which is its text form.\<close>

definition hire_claims_value :: "hire_claims \<Rightarrow> json" where
  "hire_claims_value h = JObj
     [(''root_trust_domain'', JStr (hc_root_trust_domain h)),
      (''sources'', JArr (map JStr (hc_sources h))),
      (''identity_assurance'', JStr (display_assurance (hc_identity_assurance h))),
      (''presence'', presence_info_value (hc_presence h)),
      (''auth_methods'', JArr (map JStr (hc_auth_methods h)))]"

definition jwt_claims_value :: "jwt_claims \<Rightarrow> json" where
  "jwt_claims_value c = JObj
     [(''sub'', JStr (jc_sub c)), (''aud'', JArr (map JStr (jc_aud c))),
      (''exp'', JNum (PosInt (jc_exp c))), (''iat'', JNum (PosInt (jc_iat c))),
      (''spiffe_id'', JStr (jc_spiffe_id c)), (''hire'', jc_hire c)]"

section \<open>Operations\<close>

text \<open>
  \<open>random\<close> is what the operating system's generator returned for the 32 bytes of pseudonym
  key material.
\<close>

definition from_signing_key :: "crypto_lib \<Rightarrow> byte list \<Rightarrow> string + byte list \<Rightarrow> signer_error + svid_signer" where
  "from_signing_key lib sk random =
     and_then (map_err KeyGen (to_pkcs8_der lib sk)) (\<lambda>ek.
     (let sec1 = to_encoded_point lib sk in
      if length sec1 \<noteq> 65 then Inl (KeyGen ''public key is not an uncompressed P-256 point'')
      else and_then (map_err KeyGen random) (\<lambda>ikm.
        Inr \<lparr>signing_key = sk, public_key_sec1 = sec1, encoding_key = ek, pseudonym_ikm = ikm\<rparr>)))"

text \<open>\<open>SvidSigner::new\<close>: the key comes from the generator too, which panics when it fails.\<close>

definition new_signer :: "crypto_lib \<Rightarrow> byte list \<Rightarrow> string + byte list \<Rightarrow> signer_error + svid_signer" where
  "new_signer lib fresh_key random = from_signing_key lib fresh_key random"

definition public_xy :: "crypto_lib \<Rightarrow> svid_signer \<Rightarrow> string \<times> string" where
  "public_xy lib s =
     (b64url_encode lib (take 32 (drop 1 (public_key_sec1 s))),
      b64url_encode lib (take 32 (drop 33 (public_key_sec1 s))))"

text \<open>The double quote, which the thumbprint's canonical form is written with.\<close>

definition quoted :: "string \<Rightarrow> string" where
  "quoted s = CHR 0x22 # s @ [CHR 0x22]"

definition thumbprint_input :: "string \<Rightarrow> string \<Rightarrow> string" where
  "thumbprint_input x y =
     ''{'' @ quoted ''crv'' @ '':'' @ quoted ''P-256'' @ '','' @ quoted ''kty'' @ '':'' @ quoted ''EC''
     @ '','' @ quoted ''x'' @ '':'' @ quoted x @ '','' @ quoted ''y'' @ '':'' @ quoted y @ ''}''"

definition jwk_thumbprint :: "crypto_lib \<Rightarrow> string \<Rightarrow> string \<Rightarrow> string" where
  "jwk_thumbprint lib x y = b64url_encode lib (sha256 lib (as_bytes (thumbprint_input x y)))"

definition jwks :: "crypto_lib \<Rightarrow> svid_signer \<Rightarrow> json" where
  "jwks lib s =
     (case public_xy lib s of (x, y) \<Rightarrow>
        JObj [(''keys'', JArr [JObj
          [(''kty'', JStr ''EC''), (''crv'', JStr ''P-256''), (''alg'', JStr ''ES256''),
           (''use'', JStr ''sig''), (''kid'', JStr (jwk_thumbprint lib x y)),
           (''x'', JStr x), (''y'', JStr y)]])])"

definition kid :: "crypto_lib \<Rightarrow> svid_signer \<Rightarrow> string" where
  "kid lib s = (case public_xy lib s of (x, y) \<Rightarrow> jwk_thumbprint lib x y)"

definition pseudonymous_id :: "crypto_lib \<Rightarrow> svid_signer \<Rightarrow> spiffe_id \<Rightarrow> consumer_identity \<Rightarrow> spiffe_id" where
  "pseudonymous_id lib s root consumer =
     derive_pseudonymous_id (hkdf_sha256 lib) (pseudonym_ikm s) root consumer"

definition svid_claims :: "u64 \<Rightarrow> string \<Rightarrow> string list \<Rightarrow> json \<Rightarrow> jwt_claims" where
  "svid_claims now sid audiences hire_ext =
     \<lparr>jc_sub = sid, jc_aud = audiences, jc_exp = now + 300, jc_iat = now,
      jc_spiffe_id = sid, jc_hire = hire_ext\<rparr>"

text \<open>
  \<open>sign_jwt_svid\<close>, which reads the clock; \<open>None\<close> is its panic on a clock before the epoch.
\<close>

definition sign_jwt_svid ::
  "crypto_lib \<Rightarrow> svid_signer \<Rightarrow> sys_time \<Rightarrow> string \<Rightarrow> string list \<Rightarrow> json \<Rightarrow> (signer_error + string) option" where
  "sign_jwt_svid lib s clock sid audiences hire_ext =
     (case duration_since clock unix_epoch of
        None \<Rightarrow> None
      | Some d \<Rightarrow>
          (let claims = svid_claims (as_secs d) sid audiences hire_ext;
               header = \<lparr>hdr_alg = ''ES256'', hdr_kid = Some (kid lib s)\<rparr>
           in Some (map_err JwtError (jwt_encode lib header (jwt_claims_value claims) (encoding_key s)))))"

definition sign_x509_svid :: "svid_signer \<Rightarrow> string \<Rightarrow> signer_error + byte list" where
  "sign_x509_svid s sid = Inl (NotImplemented ''x509_svid'')"

definition sign_raw :: "crypto_lib \<Rightarrow> svid_signer \<Rightarrow> byte list \<Rightarrow> signer_error + byte list" where
  "sign_raw lib s message = map_err SignFailed (try_sign lib (signing_key s) message)"

section \<open>Lemmas\<close>

definition wf_signer :: "svid_signer \<Rightarrow> bool" where
  "wf_signer s \<longleftrightarrow> length (public_key_sec1 s) = 65 \<and> length (pseudonym_ikm s) = 32"

lemma from_signing_key_wf:
  assumes "from_signing_key lib sk random = Inr s" "\<And>r. random = Inr r \<Longrightarrow> length r = 32"
  shows "wf_signer s"
  using assms by (auto simp: from_signing_key_def Let_def wf_signer_def split: if_splits)

lemma jwks_kid:
  "jwks lib s = JObj [(''keys'', JArr [JObj
     [(''kty'', JStr ''EC''), (''crv'', JStr ''P-256''), (''alg'', JStr ''ES256''),
      (''use'', JStr ''sig''), (''kid'', JStr (kid lib s)),
      (''x'', JStr (fst (public_xy lib s))), (''y'', JStr (snd (public_xy lib s)))]])]"
  by (simp add: jwks_def kid_def split: prod.splits)

lemma jwt_claims_get [simp]:
  "json_get ''spiffe_id'' (jwt_claims_value c) = Some (JStr (jc_spiffe_id c))"
  "json_get ''sub'' (jwt_claims_value c) = Some (JStr (jc_sub c))"
  "json_get ''exp'' (jwt_claims_value c) = Some (JNum (PosInt (jc_exp c)))"
  "json_get ''iat'' (jwt_claims_value c) = Some (JNum (PosInt (jc_iat c)))"
  "json_get ''aud'' (jwt_claims_value c) = Some (JArr (map JStr (jc_aud c)))"
  "json_get ''hire'' (jwt_claims_value c) = Some (jc_hire c)"
  by (simp_all add: jwt_claims_value_def)

lemma svid_claims_simps [simp]:
  "jc_sub (svid_claims now sid auds h) = sid" "jc_aud (svid_claims now sid auds h) = auds"
  "jc_spiffe_id (svid_claims now sid auds h) = sid" "jc_hire (svid_claims now sid auds h) = h"
  "jc_iat (svid_claims now sid auds h) = now" "jc_exp (svid_claims now sid auds h) = now + 300"
  by (simp_all add: svid_claims_def)

text \<open>A \<open>SystemTime\<close> holds its seconds in 63 bits, so the expiry does not wrap.\<close>

definition clock_ok :: "sys_time \<Rightarrow> bool" where
  "clock_ok t \<longleftrightarrow> 0 \<le> t \<and> t < 2 ^ 63 * 1000000000"

lemma clock_secs:
  assumes "clock_ok t" "duration_since t unix_epoch = Some d"
  shows "unat (as_secs d) < 2 ^ 63" "unat (as_secs d + 300) = unat (as_secs d) + 300"
proof -
  have d: "d div nanos_per_sec < 2 ^ 63"
    using assms by (auto simp: clock_ok_def duration_since_Some unix_epoch_def nanos_per_sec_def
        less_mult_imp_div_less nat_less_iff)
  then have "valid_duration d" by (simp add: valid_duration_def)
  with d show s: "unat (as_secs d) < 2 ^ 63" by (simp add: unat_as_secs)
  have "unat (300 :: u64) = 300" by simp
  with s show "unat (as_secs d + 300) = unat (as_secs d) + 300"
    by (subst unat_add_lem [THEN iffD1]) simp_all
qed

lemma thumbprint_input_inj:
  assumes "CHR 0x22 \<notin> set x" "CHR 0x22 \<notin> set x'"
  shows "thumbprint_input x y = thumbprint_input x' y' \<longleftrightarrow> x = x' \<and> y = y'"
  using append_Cons_split [OF assms] by (auto simp: thumbprint_input_def quoted_def)

end
