(* ===== verification/Trust_Bundle.thy ===== *)
theory Trust_Bundle
  imports Signer "HOL-Library.AList"
begin

text \<open>
  \<open>hire-core/src/trust_bundle.rs\<close>: a trust bundle per trust domain, the choice of a
  verification key in it, and the store the daemon publishes bundles from.

  The store's \<open>HashMap\<close> is an association list with distinct keys; the order of a snapshot,
  which the standard library leaves open, is here the order of first insertion. A guarded
  section is one call, and a poisoned lock is ignored by every method, so the lock itself
  leaves no trace.
\<close>

section \<open>Data\<close>

record trust_bundle =
  tb_trust_domain :: trust_domain
  x509_authorities :: "byte list list"
  jwt_authorities :: json

type_synonym trust_bundle_store = "(string \<times> trust_bundle) list"

section \<open>Operations\<close>

definition local_bundle :: "crypto_lib \<Rightarrow> trust_domain \<Rightarrow> svid_signer \<Rightarrow> trust_bundle" where
  "local_bundle lib td s =
     \<lparr>tb_trust_domain = td, x509_authorities = [], jwt_authorities = jwks lib s\<rparr>"

definition jwt_decoding_key :: "crypto_lib \<Rightarrow> trust_bundle \<Rightarrow> string \<Rightarrow> byte list option" where
  "jwt_decoding_key lib b k =
     (case jwks_from_value lib (jwt_authorities b) of
        None \<Rightarrow> None
      | Some keys \<Rightarrow>
          (case jwks_find lib keys k of
             None \<Rightarrow> None
           | Some key \<Rightarrow>
               (case jwk_algorithm key of
                  EllipticCurve curve x y \<Rightarrow>
                    if curve = ''P-256''
                       \<and> (case b64url_decode lib x of Some bs \<Rightarrow> length bs = 32 | None \<Rightarrow> False)
                       \<and> (case b64url_decode lib y of Some bs \<Rightarrow> length bs = 32 | None \<Rightarrow> False)
                    then decoding_key_from_jwk lib key else None
                | OtherParams \<Rightarrow> None)))"

definition new_store :: trust_bundle_store where
  "new_store = []"

definition upsert :: "trust_bundle_store \<Rightarrow> trust_bundle \<Rightarrow> trust_bundle_store" where
  "upsert st b = AList.update (display_trust_domain (tb_trust_domain b)) b st"

definition get_bundle :: "trust_bundle_store \<Rightarrow> trust_domain \<Rightarrow> trust_bundle option" where
  "get_bundle st td = map_of st (display_trust_domain td)"

definition snapshot :: "trust_bundle_store \<Rightarrow> trust_bundle list" where
  "snapshot st = map snd st"

section \<open>The store's contract\<close>

text \<open>
  A store of bundles, one per trust domain. \<open>valid\<close> is the invariant its operations keep.
\<close>

locale bundle_store =
  fixes empty :: 's
    and put :: "'s \<Rightarrow> trust_bundle \<Rightarrow> 's"
    and get :: "'s \<Rightarrow> trust_domain \<Rightarrow> trust_bundle option"
    and all :: "'s \<Rightarrow> trust_bundle list"
    and valid :: "'s \<Rightarrow> bool"
  assumes valid_empty: "valid empty"
    and valid_put: "valid s \<Longrightarrow> valid (put s b)"
    and get_empty: "get empty td = None"
    and get_put: "get (put s b) td = (if td = tb_trust_domain b then Some b else get s td)"
    and all_get: "valid s \<Longrightarrow> b \<in> set (all s) \<longleftrightarrow> get s (tb_trust_domain b) = Some b"
    and all_distinct: "valid s \<Longrightarrow> distinct (map tb_trust_domain (all s))"
begin

definition put_all :: "trust_bundle list \<Rightarrow> 's" where
  "put_all bs = foldl put empty bs"

lemma put_all_append: "put_all (bs @ [b]) = put (put_all bs) b"
  by (simp add: put_all_def)

lemma valid_put_all: "valid (put_all bs)"
  by (induction bs rule: rev_induct) (simp_all add: put_all_append valid_put, simp add: put_all_def valid_empty)

lemma get_put_all:
  "get (put_all bs) td = find (\<lambda>b. tb_trust_domain b = td) (rev bs)"
  by (induction bs rule: rev_induct) (auto simp: put_all_append get_put, simp add: put_all_def get_empty)

lemma get_put_all_domain: "get (put_all bs) td = Some b \<Longrightarrow> tb_trust_domain b = td"
  by (auto simp: get_put_all find_Some_iff)

end

definition valid_store :: "trust_bundle_store \<Rightarrow> bool" where
  "valid_store st \<longleftrightarrow> distinct (map fst st)
     \<and> list_all (\<lambda>(k, b). k = display_trust_domain (tb_trust_domain b)) st"

lemma valid_store_upsert:
  assumes "valid_store st"
  shows "valid_store (upsert st b)"
proof -
  have "list_all (\<lambda>(k, b). k = display_trust_domain (tb_trust_domain b))
      (AList.update (display_trust_domain (tb_trust_domain b)) b st)"
    using assms unfolding valid_store_def
    by (induction st) (auto simp: distinct_map)
  then show ?thesis
    using assms by (simp add: valid_store_def upsert_def distinct_update)
qed

lemma valid_store_get:
  assumes "valid_store st"
  shows "b \<in> set (snapshot st) \<longleftrightarrow> get_bundle st (tb_trust_domain b) = Some b"
proof -
  have keys: "(k, b) \<in> set st \<Longrightarrow> k = display_trust_domain (tb_trust_domain b)" for k
    using assms by (auto simp: valid_store_def list_all_iff)
  have "b \<in> set (snapshot st) \<longleftrightarrow> (\<exists>k. (k, b) \<in> set st)" by (force simp: snapshot_def)
  also have "\<dots> \<longleftrightarrow> (display_trust_domain (tb_trust_domain b), b) \<in> set st" using keys by blast
  also have "\<dots> \<longleftrightarrow> get_bundle st (tb_trust_domain b) = Some b"
    using assms by (simp add: get_bundle_def valid_store_def map_of_eq_Some_iff)
  finally show ?thesis .
qed

lemma valid_store_distinct:
  assumes "valid_store st"
  shows "distinct (map tb_trust_domain (snapshot st))"
proof -
  have "map fst st = map (display_trust_domain \<circ> tb_trust_domain) (snapshot st)"
    using assms by (auto simp: valid_store_def list_all_iff snapshot_def)
  then have "distinct (map display_trust_domain (map tb_trust_domain (snapshot st)))"
    using assms by (simp add: valid_store_def)
  then show ?thesis by (rule distinct_map [THEN iffD1, THEN conjunct1])
qed

interpretation bundles: bundle_store new_store upsert get_bundle snapshot valid_store
proof
  show "valid_store new_store" by (simp add: new_store_def valid_store_def)
  show "get_bundle new_store td = None" for td by (simp add: new_store_def get_bundle_def)
  show "get_bundle (upsert s b) td = (if td = tb_trust_domain b then Some b else get_bundle s td)"
    for s b td by (auto simp: get_bundle_def upsert_def update_conv')
qed (simp_all add: valid_store_upsert valid_store_get valid_store_distinct)

section \<open>Properties\<close>

text \<open>
  The store is a map from trust domains. After any sequence of insertions a domain's
  bundle is the last one inserted for that domain and for no other, and a snapshot lists
  exactly the current bundles, one per domain.
\<close>

theorem store_holds_last_bundle_per_domain:
  "get_bundle (foldl upsert new_store bs) td = find (\<lambda>b. tb_trust_domain b = td) (rev bs)
   \<and> distinct (map tb_trust_domain (snapshot (foldl upsert new_store bs)))
   \<and> set (snapshot (foldl upsert new_store bs))
       = {b. find (\<lambda>b'. tb_trust_domain b' = tb_trust_domain b) (rev bs) = Some b}"
  using bundles.get_put_all [of bs] bundles.all_distinct [OF bundles.valid_put_all, of bs]
    bundles.all_get [OF bundles.valid_put_all, of _ bs]
  by (auto simp: bundles.put_all_def)

text \<open>
  No key of the wrong shape is ever used. If a bundle yields a verification key for a
  key identifier, the JWKS entry with that identifier is a P-256 key whose two coordinates
  decode to exactly 32 bytes each.
\<close>

theorem decoding_key_has_full_coordinates:
  assumes "jwt_decoding_key lib b k = Some dk"
  shows "\<exists>keys key x y bx by'. jwks_from_value lib (jwt_authorities b) = Some keys
    \<and> jwks_find lib keys k = Some key \<and> jwk_algorithm key = EllipticCurve ''P-256'' x y
    \<and> b64url_decode lib x = Some bx \<and> length bx = 32
    \<and> b64url_decode lib y = Some by' \<and> length by' = 32
    \<and> decoding_key_from_jwk lib key = Some dk"
  using assms unfolding jwt_decoding_key_def
  by (auto split: option.splits jwk_params.splits if_splits)

text \<open>
  A concrete instance of the third-party operations, for applications of the theorems: base64
  is the identity on bytes, hashes and signatures are constant, there is one token, whose
  header and payload are given, and one published key.
\<close>

definition sample_lib :: "jwt_header \<Rightarrow> json \<Rightarrow> jwk \<Rightarrow> crypto_lib" where
  "sample_lib header payload key =
     \<lparr>sha256 = (\<lambda>_. replicate 32 1), b64url_encode = str_of_bytes, b64url_decode = (\<lambda>s. Some (as_bytes s)),
      hkdf_sha256 = (\<lambda>_ _ _. replicate 32 2), to_pkcs8_der = Inr, to_encoded_point = (\<lambda>_. replicate 65 4),
      try_sign = (\<lambda>_ _. Inr []), jwt_encode = (\<lambda>_ _ _. Inr ''token''),
      jwt_insecure_decode = (\<lambda>_. Inr (header, payload)),
      jwt_decode = (\<lambda>_ _ _ _. Inr (header, payload)),
      jwks_from_value = (\<lambda>_. Some [key]), jwks_find = (\<lambda>ks k. find (\<lambda>j. jwk_kid j = Some k) ks),
      decoding_key_from_jwk = (\<lambda>_. Some (replicate 65 4))\<rparr>"

definition sample_signer :: svid_signer where
  "sample_signer = \<lparr>signing_key = [9], public_key_sec1 = replicate 65 4, encoding_key = [9],
     pseudonym_ikm = replicate 32 5\<rparr>"

definition sample_jwk :: jwk where
  "sample_jwk = \<lparr>jwk_kid = Some (str_of_bytes (replicate 32 1)),
     jwk_algorithm = EllipticCurve ''P-256'' (str_of_bytes (replicate 32 4)) (str_of_bytes (replicate 32 4))\<rparr>"

definition sample_header :: jwt_header where
  "sample_header = \<lparr>hdr_alg = ''ES256'', hdr_kid = Some (str_of_bytes (replicate 32 1))\<rparr>"

definition sample_bundle :: trust_bundle where
  "sample_bundle = \<lparr>tb_trust_domain = SshLocal, x509_authorities = [], jwt_authorities = JNull\<rparr>"

lemma sample_decoding_key:
  "jwt_decoding_key (sample_lib header payload sample_jwk) b (str_of_bytes (replicate 32 1)) = Some (replicate 65 4)"
  by (simp add: jwt_decoding_key_def sample_lib_def sample_jwk_def)

theorem decoding_key_has_full_coordinates_witness:
  "\<exists>x y bx. jwk_algorithm sample_jwk = EllipticCurve ''P-256'' x y
     \<and> b64url_decode (sample_lib sample_header JNull sample_jwk) x = Some bx \<and> length bx = 32"
proof -
  from decoding_key_has_full_coordinates [OF sample_decoding_key, of sample_header JNull sample_bundle]
  show ?thesis by (auto simp: sample_lib_def sample_jwk_def)
qed

end
