(* ===== verification/Service.thy ===== *)
theory Service
  imports Audience Hint Trust_Bundle Claim
begin

text \<open>
  \<open>hire-grpc/src/service.rs\<close>: the Workload API handlers. A handler is a function of the
  service, of what the transport attested about the peer, of the request and of the world
  the attestors act on; it returns the reply and the world after it. \<open>None\<close> as a reply is
  the panic of the signer on a clock before the epoch.
\<close>

section \<open>Data\<close>

datatype status_code = InvalidArgument | Unauthenticated | NotFound | Internal | Unimplemented

type_synonym status = "status_code \<times> string"

record 'w workload_service =
  sv_signer :: svid_signer
  sv_bundles :: trust_bundle_store
  sv_attestors :: "'w attestor list"

record jwtsvid =
  sv_spiffe_id :: string
  sv_svid :: string
  sv_hint :: string

record jwtsvid_request =
  rq_audience :: "string list"
  rq_spiffe_id :: string

record validate_request =
  vr_audience :: string
  vr_svid :: string

text \<open>
  What the operating system provides to the handlers: the clock, read with
  \<open>SystemTime::now()\<close>, and the random generator, which may fail.
\<close>

record 'w os =
  os_now :: "'w \<Rightarrow> sys_time \<times> 'w"
  os_random32 :: "'w \<Rightarrow> byte list option \<times> 'w"

definition new_workload_service ::
  "svid_signer \<Rightarrow> trust_bundle_store \<Rightarrow> 'w attestor list \<Rightarrow> 'w workload_service" where
  "new_workload_service signer bundles attestors =
     \<lparr>sv_signer = signer, sv_bundles = bundles, sv_attestors = attestors\<rparr>"

declare new_workload_service_def [simp]

definition new_challenge :: "'w os \<Rightarrow> 'w \<Rightarrow> (status + byte list) \<times> 'w" where
  "new_challenge os w =
     (case os_random32 os w of
        (Some buf, w') \<Rightarrow> (Inr buf, w')
      | (None, w') \<Rightarrow> (Inl (Internal, ''challenge generation failed''), w'))"

declare new_challenge_def [simp]

section \<open>Payloads as protobuf values\<close>

datatype pb_value =
    NullValue
  | BoolValue bool
  | NumberValue u64
  | StringValue string
  | ListValue "pb_value list"
  | StructValue "(string \<times> pb_value) list"

text \<open>
  \<open>Number::as_f64\<close> and \<open>Number::to_string\<close> belong to \<open>serde_json\<close>; the float is its bit
  pattern.
\<close>

primrec json_to_protobuf ::
  "(json_number \<Rightarrow> u64 option) \<Rightarrow> (json_number \<Rightarrow> string) \<Rightarrow> json \<Rightarrow> pb_value" where
  "json_to_protobuf as_f64 num_to_string JNull = NullValue"
| "json_to_protobuf as_f64 num_to_string (JBool b) = BoolValue b"
| "json_to_protobuf as_f64 num_to_string (JNum n) =
     (case as_f64 n of Some f \<Rightarrow> NumberValue f | None \<Rightarrow> StringValue (num_to_string n))"
| "json_to_protobuf as_f64 num_to_string (JStr s) = StringValue s"
| "json_to_protobuf as_f64 num_to_string (JArr items) =
     ListValue (map (json_to_protobuf as_f64 num_to_string) items)"
| "json_to_protobuf as_f64 num_to_string (JObj ms) =
     StructValue (map (map_prod id (json_to_protobuf as_f64 num_to_string)) ms)"

definition struct_from_map ::
  "(json_number \<Rightarrow> u64 option) \<Rightarrow> (json_number \<Rightarrow> string) \<Rightarrow> (string \<times> json) list \<Rightarrow> (string \<times> pb_value) list" where
  "struct_from_map as_f64 num_to_string ms = map (map_prod id (json_to_protobuf as_f64 num_to_string)) ms"

definition claims_struct ::
  "(json_number \<Rightarrow> u64 option) \<Rightarrow> (json_number \<Rightarrow> string) \<Rightarrow> json \<Rightarrow> (string \<times> pb_value) list option" where
  "claims_struct as_f64 num_to_string payload = map_option (struct_from_map as_f64 num_to_string) (as_object payload)"

section \<open>Issuing one SVID\<close>

definition presence_ttl :: duration where
  "presence_ttl = from_secs 300"

definition within_max_age :: "duration option \<Rightarrow> duration option \<Rightarrow> bool" where
  "within_max_age age bound =
     (case bound of
        Some m \<Rightarrow> (case age of Some a \<Rightarrow> a < m | None \<Rightarrow> False)
      | None \<Rightarrow> True)"

text \<open>The \<open>Debug\<close> form of a presence level, which the refusal quotes.\<close>

fun debug_presence :: "presence_level \<Rightarrow> string" where
  "debug_presence NoPresence = ''None''"
| "debug_presence Session = ''Session''"
| "debug_presence Software = ''Software''"
| "debug_presence Hardware = ''Hardware''"

definition decayed_presence :: "claim \<Rightarrow> duration option \<Rightarrow> presence_level" where
  "decayed_presence cl age =
     (case age of Some a \<Rightarrow> if a < presence_ttl then cl_presence cl else NoPresence
      | None \<Rightarrow> NoPresence)"

definition attested_secs :: "claim \<Rightarrow> u64" where
  "attested_secs cl =
     as_secs (case duration_since (cl_attested_at cl) unix_epoch of Some d \<Rightarrow> d | None \<Rightarrow> 0)"

definition issue_extension :: "claim \<Rightarrow> presence_level \<Rightarrow> hire_claims" where
  "issue_extension cl presence =
     (let attested_at = attested_secs cl;
          present_until = saturating_add attested_at (as_secs presence_ttl)
      in \<lparr>hc_root_trust_domain = display_trust_domain (sid_trust_domain (cl_spiffe_id cl)),
          hc_sources = [cl_source cl],
          hc_identity_assurance = cl_assurance cl,
          hc_presence = \<lparr>pi_present = (presence \<noteq> NoPresence), pi_attested_by = cl_source cl,
            pi_attested_at = attested_at, pi_present_until = present_until\<rparr>,
          hc_auth_methods = [cl_source cl]\<rparr>)"

definition issue_hint :: "claim \<Rightarrow> presence_level \<Rightarrow> duration option \<Rightarrow> svid_hint" where
  "issue_hint cl presence age =
     \<lparr>hint_source = cl_source cl, hint_identity_assurance = cl_assurance cl,
      hint_presence = presence, hint_age = (case age of Some a \<Rightarrow> as_secs a | None \<Rightarrow> u64_max)\<rparr>"

text \<open>
  \<open>issue\<close>: the two policy gates, then the token. The signer reads the clock itself.
\<close>

definition issue ::
  "crypto_lib \<Rightarrow> 'w os \<Rightarrow> svid_signer \<Rightarrow> claim \<Rightarrow> consumer_identity \<Rightarrow> string list
    \<Rightarrow> presence_level \<Rightarrow> duration option \<Rightarrow> sys_time \<Rightarrow> 'w \<Rightarrow> (status + jwtsvid) option \<times> 'w" where
  "issue lib os signer cl consumer audiences required bound now w =
     (let age = age_at cl now in
      if \<not> within_max_age age bound then
        (Some (Inl (Unauthenticated, ''presence observation is older than the requested hire_max_age'')), w)
      else (let presence = decayed_presence cl age in
      if presence < required then
        (Some (Inl (Unauthenticated, ''required presence level not satisfied (need ''
           @ debug_presence required @ '', have '' @ debug_presence presence @ '')'')), w)
      else (let hire_ext = hire_claims_value (issue_extension cl presence);
                sid = uri (pseudonymous_id lib signer (cl_spiffe_id cl) consumer)
            in case os_now os w of (clock, w') \<Rightarrow>
              (case sign_jwt_svid lib signer clock sid audiences hire_ext of
                 None \<Rightarrow> (None, w')
               | Some (Inl e) \<Rightarrow> (Some (Inl (Internal, signer_error_message e)), w')
               | Some (Inr token) \<Rightarrow>
                   (Some (Inr \<lparr>sv_spiffe_id = sid, sv_svid = token,
                     sv_hint = display_hint (issue_hint cl presence age)\<rparr>), w')))))"

section \<open>Discovery and proof\<close>

fun enumerate_all :: "'w attestor list \<Rightarrow> 'w \<Rightarrow> ('w attestor \<times> candidate) list \<times> 'w" where
  "enumerate_all [] w = ([], w)"
| "enumerate_all (a # as) w =
     (case at_enumerate a w of (r, w') \<Rightarrow>
        (case enumerate_all as w' of (found, w'') \<Rightarrow>
           (case r of Inr cs \<Rightarrow> map (\<lambda>c. (a, c)) cs @ found | Inl _ \<Rightarrow> found, w'')))"

text \<open>The loop of an unnamed request: only silent candidates are proved.\<close>

fun prove_silent :: "byte list \<Rightarrow> ('w attestor \<times> candidate) list \<Rightarrow> 'w \<Rightarrow> claim list \<times> 'w" where
  "prove_silent challenge [] w = ([], w)"
| "prove_silent challenge ((a, c) # rest) w =
     (if cand_proof_cost c \<noteq> Silent then prove_silent challenge rest w
      else case at_prove a c challenge w of (r, w') \<Rightarrow>
        (case prove_silent challenge rest w' of (proven, w'') \<Rightarrow>
           (case r of Inl _ \<Rightarrow> proven
            | Inr ev \<Rightarrow> (case derive c challenge ev of None \<Rightarrow> proven | Some cl \<Rightarrow> cl # proven), w'')))"

text \<open>
  Best first: a stable sort by \<open>Reverse(assurance)\<close>, then the first claim of each SPIFFE ID.
\<close>

definition reverse_assurance :: "claim \<Rightarrow> int" where
  "reverse_assurance cl = - int (assurance_rank (cl_assurance cl))"

fun retain_unseen :: "string list \<Rightarrow> claim list \<Rightarrow> claim list" where
  "retain_unseen seen [] = []"
| "retain_unseen seen (cl # cls) =
     (let u = uri (cl_spiffe_id cl) in
      if u \<in> set seen then retain_unseen seen cls else cl # retain_unseen (u # seen) cls)"

definition best_first :: "claim list \<Rightarrow> claim list" where
  "best_first proven = retain_unseen [] (sort_key reverse_assurance proven)"

definition unnamed_claims ::
  "byte list \<Rightarrow> ('w attestor \<times> candidate) list \<Rightarrow> 'w \<Rightarrow> claim list \<times> 'w" where
  "unnamed_claims challenge candidates w = apfst best_first (prove_silent challenge candidates w)"

text \<open>A named request: the first candidate with that path, proved once, whatever comes of it.\<close>

definition selector_deny :: status where
  "selector_deny = (NotFound, ''no such identity could be proven'')"

definition named_claims ::
  "byte list \<Rightarrow> spiffe_id \<Rightarrow> ('w attestor \<times> candidate) list \<Rightarrow> 'w \<Rightarrow> (status + claim list) \<times> 'w" where
  "named_claims challenge want candidates w =
     (case find (\<lambda>(a, c). cand_path c = sid_path want) candidates of
        None \<Rightarrow> (Inl selector_deny, w)
      | Some (a, c) \<Rightarrow>
          (case at_prove a c challenge w of
             (Inl _, w') \<Rightarrow> (Inl selector_deny, w')
           | (Inr ev, w') \<Rightarrow>
               (case derive c challenge ev of
                  None \<Rightarrow> (Inl selector_deny, w')
                | Some cl \<Rightarrow> (if cl_spiffe_id cl \<noteq> want then Inl selector_deny else Inr [cl], w'))))"

section \<open>FetchJWTSVID\<close>

text \<open>
  The issuing loop: the SVIDs in order and the first refusal. A panic ends it.
\<close>

fun issue_all ::
  "(claim \<Rightarrow> 'w \<Rightarrow> (status + jwtsvid) option \<times> 'w) \<Rightarrow> claim list \<Rightarrow> jwtsvid list \<Rightarrow> status option
    \<Rightarrow> 'w \<Rightarrow> (jwtsvid list \<times> status option) option \<times> 'w" where
  "issue_all iss [] svids refusal w = (Some (svids, refusal), w)"
| "issue_all iss (cl # cls) svids refusal w =
     (case iss cl w of
        (None, w') \<Rightarrow> (None, w')
      | (Some (Inr svid), w') \<Rightarrow> issue_all iss cls (svids @ [svid]) refusal w'
      | (Some (Inl st), w') \<Rightarrow>
          issue_all iss cls svids (case refusal of None \<Rightarrow> Some st | Some r \<Rightarrow> Some r) w')"

definition strictest_presence :: "audience_extensions list \<Rightarrow> presence_level" where
  "strictest_presence exts = foldl (\<lambda>acc e. max acc (require_presence e)) NoPresence exts"

text \<open>\<open>filter_map(|e| e.max_age).min()\<close>.\<close>

definition tightest_age :: "audience_extensions list \<Rightarrow> duration option" where
  "tightest_age exts = (case List.map_filter max_age exts of [] \<Rightarrow> None | d # ds \<Rightarrow> Some (foldl min d ds))"

definition parse_selector :: "string \<Rightarrow> status + spiffe_id option" where
  "parse_selector raw =
     (if raw = [] then Inr None
      else map_err (\<lambda>e. (InvalidArgument, spiffe_id_error_message e))
        (and_then (spiffe_id_from_str raw) (\<lambda>sid. Inr (Some sid))))"

text \<open>Everything that is decided before any attestor is asked.\<close>

definition check_request ::
  "consumer_identity option \<Rightarrow> jwtsvid_request
    \<Rightarrow> status + consumer_identity \<times> audience_extensions list \<times> spiffe_id option" where
  "check_request peer req =
     (case peer of
        None \<Rightarrow> Inl (Unauthenticated, ''consumer could not be attested'')
      | Some consumer \<Rightarrow>
          if rq_audience req = [] then Inl (InvalidArgument, ''audience must not be empty'')
          else and_then (map_err (\<lambda>e. (InvalidArgument, audience_error_message e))
                 (collect_results parse_audience (rq_audience req))) (\<lambda>exts.
               and_then (parse_selector (rq_spiffe_id req)) (\<lambda>requested.
               Inr (consumer, exts, requested))))"

definition finish_svids :: "(jwtsvid list \<times> status option) option \<Rightarrow> (status + jwtsvid list) option" where
  "finish_svids r =
     (case r of None \<Rightarrow> None
      | Some (svids, refusal) \<Rightarrow>
          Some (if svids = [] then
                  Inl (case refusal of Some st \<Rightarrow> st | None \<Rightarrow> (Unauthenticated, ''no identity claims available''))
                else Inr svids))"

definition prove_requested ::
  "'w workload_service \<Rightarrow> byte list \<Rightarrow> spiffe_id option \<Rightarrow> 'w \<Rightarrow> (status + claim list) \<times> 'w" where
  "prove_requested sv challenge requested w =
     (case enumerate_all (sv_attestors sv) w of (candidates, w') \<Rightarrow>
        (case requested of
           Some want \<Rightarrow> named_claims challenge want candidates w'
         | None \<Rightarrow> apfst Inr (unnamed_claims challenge candidates w')))"

definition fetch_jwtsvid ::
  "crypto_lib \<Rightarrow> 'w os \<Rightarrow> 'w workload_service \<Rightarrow> consumer_identity option \<Rightarrow> jwtsvid_request \<Rightarrow> 'w
    \<Rightarrow> (status + jwtsvid list) option \<times> 'w" where
  "fetch_jwtsvid lib os sv peer req w =
     (case check_request peer req of
        Inl st \<Rightarrow> (Some (Inl st), w)
      | Inr (consumer, exts, requested) \<Rightarrow>
          (case new_challenge os w of
             (Inl st, w1) \<Rightarrow> (Some (Inl st), w1)
           | (Inr challenge, w1) \<Rightarrow>
               (case prove_requested sv challenge requested w1 of
                  (Inl st, w2) \<Rightarrow> (Some (Inl st), w2)
                | (Inr claims, w2) \<Rightarrow>
                    (case os_now os w2 of (now, w3) \<Rightarrow>
                       apfst finish_svids
                         (issue_all
                           (\<lambda>cl. issue lib os (sv_signer sv) cl consumer (map audience exts)
                              (strictest_presence exts) (tightest_age exts) now)
                           claims [] None w3)))))"

section \<open>Bundles\<close>

definition bundle_key :: "trust_domain \<Rightarrow> string" where
  "bundle_key td = ''spiffe://'' @ display_trust_domain td"

definition fetch_x509svid :: "status + 'a" where
  "fetch_x509svid = Inl (Unimplemented, ''X.509-SVID issuance not yet implemented'')"

definition fetch_x509_bundles :: "'w workload_service \<Rightarrow> (string \<times> byte list) list" where
  "fetch_x509_bundles sv =
     map (\<lambda>b. (bundle_key (tb_trust_domain b), concat (x509_authorities b)))
       (filter (\<lambda>b. x509_authorities b \<noteq> []) (snapshot (sv_bundles sv)))"

text \<open>\<open>serde_json::to_vec\<close> is a parameter.\<close>

definition fetch_jwt_bundles ::
  "(json \<Rightarrow> byte list option) \<Rightarrow> 'w workload_service \<Rightarrow> status + (string \<times> byte list) list" where
  "fetch_jwt_bundles to_vec sv =
     collect_results (\<lambda>b. and_then (ok_or (Internal, ''trust bundle is not serialisable'') (to_vec (jwt_authorities b)))
       (\<lambda>bs. Inr (bundle_key (tb_trust_domain b), bs))) (snapshot (sv_bundles sv))"

definition fetch_witsvid :: "status + 'a" where
  "fetch_witsvid = Inl (Unimplemented, ''FetchWITSVID not yet implemented'')"

definition fetch_wit_bundles :: "status + 'a" where
  "fetch_wit_bundles = Inl (Unimplemented, ''FetchWITBundles not yet implemented'')"

section \<open>ValidateJWTSVID\<close>

definition reject :: status where
  "reject = (InvalidArgument, ''JWT validation failed'')"

text \<open>The \<open>spiffe_id\<close> member of a payload, read as a SPIFFE ID.\<close>

definition payload_spiffe_id :: "json \<Rightarrow> status + spiffe_id" where
  "payload_spiffe_id payload =
     and_then (ok_or reject (Option.bind (json_get ''spiffe_id'' payload) as_str))
       (\<lambda>s. map_err (\<lambda>_. reject) (spiffe_id_from_str s))"

definition es256_validation :: "string \<Rightarrow> validation" where
  "es256_validation aud = \<lparr>val_algorithm = ''ES256'', val_audience = [aud], val_leeway = 0\<rparr>"

text \<open>
  \<open>now\<close> is the Unix time the token library reads. The service's signer is not an argument.
\<close>

definition validate_jwtsvid ::
  "crypto_lib \<Rightarrow> trust_bundle_store \<Rightarrow> u64 \<Rightarrow> validate_request \<Rightarrow> status + spiffe_id \<times> json" where
  "validate_jwtsvid lib bundles now req =
     (if vr_svid req = [] then Inl (InvalidArgument, ''svid must not be empty'')
      else if vr_audience req = [] then Inl (InvalidArgument, ''audience must not be empty'')
      else
        and_then (map_err (\<lambda>_. reject) (jwt_insecure_decode lib (vr_svid req))) (\<lambda>(header, unverified).
        and_then (ok_or reject (hdr_kid header)) (\<lambda>k.
        and_then (payload_spiffe_id unverified) (\<lambda>claimed.
        and_then (ok_or reject (get_bundle bundles (sid_trust_domain claimed))) (\<lambda>bundle.
        and_then (ok_or reject (jwt_decoding_key lib bundle k)) (\<lambda>key.
        and_then (map_err (\<lambda>_. reject)
          (jwt_decode lib (vr_svid req) key (es256_validation (vr_audience req)) now)) (\<lambda>(_, payload).
        and_then (payload_spiffe_id payload) (\<lambda>sid.
        if sid_trust_domain sid \<noteq> sid_trust_domain claimed then Inl reject
        else Inr (sid, payload)))))))))"

definition validate_reply ::
  "(json_number \<Rightarrow> u64 option) \<Rightarrow> (json_number \<Rightarrow> string) \<Rightarrow> spiffe_id \<times> json
    \<Rightarrow> string \<times> (string \<times> pb_value) list option" where
  "validate_reply as_f64 num_to_string r = (uri (fst r), claims_struct as_f64 num_to_string (snd r))"

end
