(* ===== verification/Service_Policy.thy ===== *)
theory Service_Policy
  imports Service
begin

text \<open>
  What \<open>FetchJWTSVID\<close> guarantees: the order of its refusals, the policy every issued SVID
  satisfies, the consent boundary around proofs, the choice and the order of the claims.
\<close>

section \<open>Policy folds\<close>

lemma strictest_presence_fold:
  "strictest_presence exts = foldl max NoPresence (map require_presence exts)"
  by (simp add: strictest_presence_def foldl_map)

lemma foldl_tighten_Some:
  "foldl tighten (Some d) (map max_age exts) = Some (foldl min d (List.map_filter max_age exts))"
proof (induction exts arbitrary: d)
  case (Cons e exts)
  show ?case by (cases "max_age e") (simp_all add: map_filter_simps Cons.IH)
qed (simp add: map_filter_simps)

lemma tightest_age_fold: "tightest_age exts = foldl tighten None (map max_age exts)"
proof (induction exts)
  case (Cons e exts)
  show ?case
  proof (cases "max_age e")
    case None
    then show ?thesis using Cons by (simp add: tightest_age_def map_filter_simps)
  next
    case (Some d)
    then show ?thesis by (simp add: tightest_age_def map_filter_simps foldl_tighten_Some)
  qed
qed (simp add: tightest_age_def map_filter_simps)

lemma strictest_presence_covers: "e \<in> set exts \<Longrightarrow> require_presence e \<le> strictest_presence exts"
  using presence_req.fold_covers [of "require_presence e" "map require_presence exts"]
  by (simp add: strictest_presence_fold)

lemma tightest_age_covers:
  assumes "e \<in> set exts" "max_age e = Some m"
  shows "\<exists>m'. tightest_age exts = Some m' \<and> m' \<le> m"
proof -
  have "Some m \<in> set (map max_age exts)" using assms by force
  from age_req.fold_covers [OF this] show ?thesis by (simp add: tightest_age_fold)
qed

section \<open>Inversion of the handler\<close>

lemma issue_Inr:
  assumes "issue lib os signer cl consumer auds required bound now w = (Some (Inr svid), w')"
  shows "within_max_age (age_at cl now) bound
    \<and> required \<le> decayed_presence cl (age_at cl now)
    \<and> sv_spiffe_id svid = uri (pseudonymous_id lib signer (cl_spiffe_id cl) consumer)
    \<and> sv_hint svid = display_hint (issue_hint cl (decayed_presence cl (age_at cl now)) (age_at cl now))
    \<and> (\<exists>clock. sign_jwt_svid lib signer clock (sv_spiffe_id svid) auds
          (hire_claims_value (issue_extension cl (decayed_presence cl (age_at cl now)))) = Some (Inr (sv_svid svid)))"
proof -
  obtain clock w1 where now: "os_now os w = (clock, w1)" by fastforce
  from assms show ?thesis
    by (auto simp: issue_def Let_def now not_less split: if_splits option.splits sum.splits)
qed

lemma issue_all_Inr:
  assumes "issue_all iss cls acc refusal w = (Some (svids, r), w')" "svid \<in> set svids"
  shows "svid \<in> set acc \<or> (\<exists>cl\<in>set cls. \<exists>w1 w2. iss cl w1 = (Some (Inr svid), w2))"
  using assms
proof (induction iss cls acc refusal w rule: issue_all.induct)
  case (2 iss cl cls acc refusal w)
  then show ?case by (fastforce split: prod.splits option.splits sum.splits)
qed simp

lemma check_request_Inr:
  assumes "check_request peer req = Inr (consumer, exts, requested)"
  shows "peer = Some consumer \<and> rq_audience req \<noteq> []
    \<and> list_all2 (\<lambda>a e. parse_audience a = Inr e) (rq_audience req) exts
    \<and> parse_selector (rq_spiffe_id req) = Inr requested"
  using assms by (auto simp: check_request_def collect_results_Inr split: option.splits if_splits)

lemma fetch_Inr:
  assumes "fetch_jwtsvid lib os sv peer req w = (Some (Inr svids), w')"
  obtains consumer exts requested challenge w1 claims w2 now w3 r where
    "check_request peer req = Inr (consumer, exts, requested)"
    and "os_random32 os w = (Some challenge, w1)"
    and "prove_requested sv challenge requested w1 = (Inr claims, w2)"
    and "os_now os w2 = (now, w3)"
    and "issue_all (\<lambda>cl. issue lib os (sv_signer sv) cl consumer (map audience exts)
           (strictest_presence exts) (tightest_age exts) now) claims [] None w3 = (Some (svids, r), w')"
    and "svids \<noteq> []"
proof -
  from assms obtain consumer exts requested where
    c: "check_request peer req = Inr (consumer, exts, requested)"
    by (auto simp: fetch_jwtsvid_def split: sum.splits)
  from assms c obtain challenge w1 where r: "os_random32 os w = (Some challenge, w1)"
    by (auto simp: fetch_jwtsvid_def split: prod.splits option.splits)
  from assms c r obtain claims w2 where p: "prove_requested sv challenge requested w1 = (Inr claims, w2)"
    by (auto simp: fetch_jwtsvid_def split: prod.splits sum.splits)
  obtain now w3 where n: "os_now os w2 = (now, w3)" by fastforce
  let ?iss = "issue_all (\<lambda>cl. issue lib os (sv_signer sv) cl consumer (map audience exts)
    (strictest_presence exts) (tightest_age exts) now) claims [] None w3"
  obtain o' w4 where i: "?iss = (o', w4)" by fastforce
  from assms c r p n i have f: "finish_svids o' = Some (Inr svids)" "w4 = w'"
    by (simp_all add: fetch_jwtsvid_def)
  then obtain refusal where "o' = Some (svids, refusal)" "svids \<noteq> []"
    by (auto simp: finish_svids_def split: option.splits prod.splits if_splits)
  with c r p n i f(2) that show thesis by blast
qed

text \<open>Where every SVID of a reply comes from.\<close>

lemma fetch_svid_from_claim:
  assumes "fetch_jwtsvid lib os sv peer req w = (Some (Inr svids), w')" "svid \<in> set svids"
  obtains consumer exts cl now w1 w2 where "peer = Some consumer"
    and "list_all2 (\<lambda>a e. parse_audience a = Inr e) (rq_audience req) exts"
    and "issue lib os (sv_signer sv) cl consumer (map audience exts)
           (strictest_presence exts) (tightest_age exts) now w1 = (Some (Inr svid), w2)"
proof -
  from assms(1) obtain consumer exts requested challenge w1 claims w2 now w3 r where
    c: "check_request peer req = Inr (consumer, exts, requested)"
    and i: "issue_all (\<lambda>cl. issue lib os (sv_signer sv) cl consumer (map audience exts)
           (strictest_presence exts) (tightest_age exts) now) claims [] None w3 = (Some (svids, r), w')"
    by (rule fetch_Inr)
  from issue_all_Inr [OF i assms(2)] check_request_Inr [OF c] that show thesis by auto
qed

lemma parsed_audience_in:
  assumes "list_all2 (\<lambda>a e. parse_audience a = Inr e) as es" "a \<in> set as" "parse_audience a = Inr e"
  shows "e \<in> set es"
  using assms by (induction rule: list_all2_induct) auto

section \<open>Properties\<close>

text \<open>
  Every SVID handed out satisfies the policy of every audience it names. For an audience
  that demands presence, the presence the SVID's tag states is at least that level and comes
  from an observation younger than the fixed TTL; for an audience that bounds the age, the
  observation is measured and strictly younger than the bound. No audience added to a request
  lowers what another one demands.
\<close>

theorem every_svid_meets_every_audience:
  assumes "fetch_jwtsvid lib os sv peer req w = (Some (Inr svids), w')" and "svid \<in> set svids"
    and "a \<in> set (rq_audience req)" and "parse_audience a = Inr ext"
  shows "\<exists>cl now. let age = age_at cl now; p = decayed_presence cl age in
      sv_hint svid = display_hint (issue_hint cl p age)
    \<and> require_presence ext \<le> p
    \<and> (p \<noteq> NoPresence \<longrightarrow> p = cl_presence cl \<and> (\<exists>d. age = Some d \<and> d < from_secs 300))
    \<and> (\<forall>m. max_age ext = Some m \<longrightarrow> (\<exists>d. age = Some d \<and> d < m))"
proof -
  from assms(1,2) obtain consumer exts cl now w1 w2 where
    all: "list_all2 (\<lambda>a e. parse_audience a = Inr e) (rq_audience req) exts"
    and i: "issue lib os (sv_signer sv) cl consumer (map audience exts)
           (strictest_presence exts) (tightest_age exts) now w1 = (Some (Inr svid), w2)"
    by (rule fetch_svid_from_claim)
  have ext: "ext \<in> set exts" using all assms(3,4) by (rule parsed_audience_in)
  let ?age = "age_at cl now" let ?p = "decayed_presence cl ?age"
  from issue_Inr [OF i] have within: "within_max_age ?age (tightest_age exts)"
    and p: "strictest_presence exts \<le> ?p"
    and h: "sv_hint svid = display_hint (issue_hint cl ?p ?age)" by auto
  from strictest_presence_covers [OF ext] p have "require_presence ext \<le> ?p" by simp
  moreover have "?p \<noteq> NoPresence \<longrightarrow> ?p = cl_presence cl \<and> (\<exists>d. ?age = Some d \<and> d < from_secs 300)"
    by (auto simp: decayed_presence_def presence_ttl_def split: option.splits)
  moreover have "\<exists>d. ?age = Some d \<and> d < m" if "max_age ext = Some m" for m
    using tightest_age_covers [OF ext that] within
    by (auto simp: within_max_age_def split: option.splits)
  ultimately show ?thesis using h by (auto simp: Let_def)
qed

text \<open>
  The root identity never leaves the daemon in the subject of an SVID. The SPIFFE ID of
  every SVID is the caller's pseudonym for some root: its trust domain, then
  \<open>pseudonym/\<close> and a hexadecimal string, and it is the subject the token was signed for.
\<close>

theorem svid_subject_is_pseudonym:
  assumes "fetch_jwtsvid lib os sv peer req w = (Some (Inr svids), w')" and "svid \<in> set svids"
  shows "\<exists>consumer root h clock auds ext. peer = Some consumer
    \<and> sv_spiffe_id svid = uri (pseudonymous_id lib (sv_signer sv) root consumer)
    \<and> sv_spiffe_id svid = ''spiffe://'' @ display_trust_domain (sid_trust_domain root) @ ''/pseudonym/'' @ h
    \<and> list_all is_hex_char h
    \<and> sign_jwt_svid lib (sv_signer sv) clock (sv_spiffe_id svid) auds ext = Some (Inr (sv_svid svid))"
proof -
  from assms obtain consumer exts cl now w1 w2 where peer: "peer = Some consumer"
    and i: "issue lib os (sv_signer sv) cl consumer (map audience exts)
           (strictest_presence exts) (tightest_age exts) now w1 = (Some (Inr svid), w2)"
    by (rule fetch_svid_from_claim)
  from issue_Inr [OF i] obtain clock where
    sid: "sv_spiffe_id svid = uri (pseudonymous_id lib (sv_signer sv) (cl_spiffe_id cl) consumer)"
    and sign: "sign_jwt_svid lib (sv_signer sv) clock (sv_spiffe_id svid) (map audience exts)
      (hire_claims_value (issue_extension cl (decayed_presence cl (age_at cl now)))) = Some (Inr (sv_svid svid))"
    by auto
  let ?okm = "case hkdf_input (pseudonym_ikm (sv_signer sv)) (cl_spiffe_id cl) consumer of
    (s, i, f) \<Rightarrow> hkdf_sha256 lib s i f"
  have "sv_spiffe_id svid = ''spiffe://'' @ display_trust_domain (sid_trust_domain (cl_spiffe_id cl))
      @ ''/pseudonym/'' @ hex_bytes ?okm"
    by (simp add: sid pseudonymous_id_def derive_pseudonymous_id_input uri_def)
  moreover have "list_all is_hex_char (hex_bytes ?okm)" by (simp add: list_all_iff hex_bytes_chars)
  ultimately show ?thesis using peer sid sign by blast
qed

text \<open>
  C24: a caller the transport could not attest is refused before anything else happens: the
  reply is the same whatever the request holds, and neither an attestor, nor the random
  generator, nor the clock is consulted. The same holds of a request without an audience,
  with a malformed audience or a malformed selector, which get an invalid-argument reply.
\<close>

theorem refused_before_any_effect:
  "fetch_jwtsvid lib os sv None req w
     = (Some (Inl (Unauthenticated, ''consumer could not be attested'')), w)
   \<and> ((rq_audience req = [] \<or> (\<exists>a\<in>set (rq_audience req). \<exists>e. parse_audience a = Inl e)
        \<or> rq_spiffe_id req \<noteq> [] \<and> (\<exists>e. spiffe_id_from_str (rq_spiffe_id req) = Inl e))
      \<longrightarrow> (\<exists>msg. fetch_jwtsvid lib os sv (Some consumer) req w = (Some (Inl (InvalidArgument, msg)), w)))"
proof -
  have bad: "\<exists>msg. check_request (Some consumer) req = Inl (InvalidArgument, msg)"
    if "rq_audience req = [] \<or> (\<exists>a\<in>set (rq_audience req). \<exists>e. parse_audience a = Inl e)
        \<or> rq_spiffe_id req \<noteq> [] \<and> (\<exists>e. spiffe_id_from_str (rq_spiffe_id req) = Inl e)"
  proof (cases "collect_results parse_audience (rq_audience req)")
    case (Inl e)
    then show ?thesis by (simp add: check_request_def)
  next
    case (Inr exts)
    then have "\<forall>a\<in>set (rq_audience req). \<exists>e. parse_audience a = Inr e"
      by (auto simp: collect_results_Inr list_all2_conv_all_nth in_set_conv_nth)
    with that Inr show ?thesis by (auto simp: check_request_def parse_selector_def)
  qed
  have early: "check_request peer req = Inl st \<Longrightarrow> fetch_jwtsvid lib os sv peer req w = (Some (Inl st), w)"
    for peer st by (simp add: fetch_jwtsvid_def)
  have "check_request None req = Inl (Unauthenticated, ''consumer could not be attested'')"
    by (simp add: check_request_def)
  from early [OF this] bad early show ?thesis by blast
qed

end
