(* ===== verification/Service_Choice.thy ===== *)
theory Service_Choice
  imports Service_Policy
begin

text \<open>
  Which candidates \<open>FetchJWTSVID\<close> proves, and which of the proven claims it keeps, in which
  order.
\<close>

section \<open>Dependence on proofs\<close>

text \<open>
  Two attestors that agree on what they enumerate, and on the proofs of the candidates in
  \<open>P\<close>. What a proof of any other candidate would do, to the result or to the world, is free.
\<close>

definition agree_on :: "(candidate \<Rightarrow> bool) \<Rightarrow> 'w attestor \<Rightarrow> 'w attestor \<Rightarrow> bool" where
  "agree_on P a a' \<longleftrightarrow> at_enumerate a = at_enumerate a'
     \<and> (\<forall>c challenge w. P c \<longrightarrow> at_prove a c challenge w = at_prove a' c challenge w)"

definition agree_pair ::
  "(candidate \<Rightarrow> bool) \<Rightarrow> 'w attestor \<times> candidate \<Rightarrow> 'w attestor \<times> candidate \<Rightarrow> bool" where
  "agree_pair P p p' \<longleftrightarrow> agree_on P (fst p) (fst p') \<and> snd p = snd p'"

lemma enumerate_all_agree:
  assumes "list_all2 (agree_on P) as as'"
  shows "list_all2 (agree_pair P)
      (fst (enumerate_all as w)) (fst (enumerate_all as' w))
    \<and> snd (enumerate_all as w) = snd (enumerate_all as' w)"
  using assms
proof (induction arbitrary: w rule: list_all2_induct)
  case (Cons a as a' as')
  obtain r w1 where r: "at_enumerate a w = (r, w1)" by fastforce
  with Cons.hyps(1) have r': "at_enumerate a' w = (r, w1)" by (simp add: agree_on_def)
  have same: "list_all2 (agree_pair P)
      (map (\<lambda>c. (a, c)) cs) (map (\<lambda>c. (a', c)) cs)" for cs
    using Cons.hyps(1) by (simp add: list_all2_map1 list_all2_map2 list_all2_same agree_pair_def)
  show ?case
    using Cons.IH [of w1] same
    by (auto simp: r r' split: prod.splits sum.splits intro: list_all2_appendI)
qed simp

lemma prove_silent_agree:
  assumes "list_all2 (agree_pair (\<lambda>c. cand_proof_cost c = Silent)) cs cs'"
  shows "prove_silent challenge cs w = prove_silent challenge cs' w"
  using assms
proof (induction arbitrary: w rule: list_all2_induct)
  case (Cons p cs p' cs')
  then show ?case by (cases p; cases p') (auto simp: agree_pair_def agree_on_def)
qed simp

lemma find_agree:
  assumes "list_all2 (agree_pair P) cs cs'"
  shows "rel_option (agree_pair P)
    (find (\<lambda>(a, c). Q c) cs) (find (\<lambda>(a, c). Q c) cs')"
  using assms by (induction rule: list_all2_induct) (auto simp: agree_pair_def)

lemma named_claims_agree:
  assumes "list_all2 (agree_pair (\<lambda>c. cand_path c = sid_path want)) cs cs'"
  shows "named_claims challenge want cs w = named_claims challenge want cs' w"
proof -
  let ?Q = "\<lambda>(a, c). cand_path c = sid_path want"
  have rel: "rel_option (agree_pair (\<lambda>c. cand_path c = sid_path want))
      (find ?Q cs) (find ?Q cs')"
    using find_agree [OF assms, of "\<lambda>c. cand_path c = sid_path want"] by simp
  show ?thesis
  proof (cases "find ?Q cs")
    case None
    with rel show ?thesis by (auto simp: named_claims_def)
  next
    case (Some p)
    with rel obtain p' where p': "find ?Q cs' = Some p'" by (cases "find ?Q cs'") auto
    obtain a c where p: "p = (a, c)" by fastforce
    from Some p have path: "cand_path c = sid_path want" by (auto simp: find_Some_iff)
    from rel Some p' p obtain a' where "p' = (a', c)"
      "agree_on (\<lambda>c. cand_path c = sid_path want) a a'" by (cases p') (auto simp: agree_pair_def)
    with Some p' p path show ?thesis by (simp add: named_claims_def agree_on_def)
  qed
qed

lemma fetch_cong:
  assumes "sv_signer sv = sv_signer sv'"
    and "\<And>requested challenge w. parse_selector (rq_spiffe_id req) = Inr requested \<Longrightarrow>
      prove_requested sv challenge requested w = prove_requested sv' challenge requested w"
  shows "fetch_jwtsvid lib os sv peer req w = fetch_jwtsvid lib os sv' peer req w"
proof (cases "check_request peer req")
  case (Inr c)
  obtain consumer exts requested where c: "c = (consumer, exts, requested)" by (metis prod_cases3)
  from check_request_Inr [OF Inr [unfolded c]]
  have "prove_requested sv challenge requested w = prove_requested sv' challenge requested w"
    for challenge w using assms(2) by simp
  then show ?thesis by (auto simp: fetch_jwtsvid_def Inr c assms(1) split: prod.split option.split sum.split)
qed (simp add: fetch_jwtsvid_def)

lemma fetch_silent_agree:
  assumes "list_all2 (agree_on (\<lambda>c. cand_proof_cost c = Silent)) (sv_attestors sv) (sv_attestors sv')"
    and "sv_signer sv = sv_signer sv'" and "rq_spiffe_id req = []"
  shows "fetch_jwtsvid lib os sv peer req w = fetch_jwtsvid lib os sv' peer req w"
proof (rule fetch_cong [OF assms(2)])
  fix requested challenge w
  assume "parse_selector (rq_spiffe_id req) = Inr requested"
  with assms(3) have "requested = None" by (simp add: parse_selector_def)
  moreover obtain cs w1 cs' where "enumerate_all (sv_attestors sv) w = (cs, w1)"
    "enumerate_all (sv_attestors sv') w = (cs', w1)"
    "list_all2 (agree_pair (\<lambda>c. cand_proof_cost c = Silent)) cs cs'"
    using enumerate_all_agree [OF assms(1), of w] by (metis prod.collapse)
  ultimately show "prove_requested sv challenge requested w = prove_requested sv' challenge requested w"
    by (simp add: prove_requested_def unnamed_claims_def prove_silent_agree)
qed

section \<open>Named requests\<close>

lemma named_claims_Inr:
  "named_claims challenge want cs w = (Inr claims, w') \<Longrightarrow> \<exists>cl. claims = [cl] \<and> cl_spiffe_id cl = want"
  by (auto simp: named_claims_def split: option.splits prod.splits sum.splits if_splits)

lemma named_claims_Inl: "named_claims challenge want cs w = (Inl st, w') \<Longrightarrow> st = selector_deny"
  by (auto simp: named_claims_def split: option.splits prod.splits sum.splits if_splits)

lemma parse_selector_Some:
  "parse_selector raw = Inr (Some want) \<longleftrightarrow> raw \<noteq> [] \<and> spiffe_id_from_str raw = Inr want"
  by (auto simp: parse_selector_def)

lemma spiffe_id_from_str_not_Nil: "spiffe_id_from_str s = Inr sid \<Longrightarrow> s \<noteq> []"
  by (auto simp: spiffe_id_from_str_def strip_prefix_def)

section \<open>The kept claims\<close>

lemma retain_unseen_subseq: "subseq (retain_unseen seen cls) cls"
  by (induction seen cls rule: retain_unseen.induct) (auto simp: Let_def)

lemma retain_unseen_fresh:
  "cl \<in> set (retain_unseen seen cls) \<Longrightarrow> uri (cl_spiffe_id cl) \<notin> set seen"
  by (induction seen cls rule: retain_unseen.induct) (auto simp: Let_def split: if_splits)

lemma retain_unseen_distinct: "distinct (map (uri \<circ> cl_spiffe_id) (retain_unseen seen cls))"
proof (induction seen cls rule: retain_unseen.induct)
  case (2 seen cl cls)
  have "uri (cl_spiffe_id cl) \<notin> (uri \<circ> cl_spiffe_id) ` set (retain_unseen (uri (cl_spiffe_id cl) # seen) cls)"
    by (auto dest: retain_unseen_fresh)
  with 2 show ?case by (simp add: Let_def)
qed simp

lemma retain_unseen_first:
  assumes "cl \<in> set (retain_unseen seen cls)"
  shows "\<exists>rest. filter (\<lambda>c. uri (cl_spiffe_id c) = uri (cl_spiffe_id cl)) cls = cl # rest"
  using assms
proof (induction seen cls rule: retain_unseen.induct)
  case (2 seen c cls)
  let ?u = "uri (cl_spiffe_id c)"
  show ?case
  proof (cases "?u \<in> set seen")
    case True
    with "2.prems" have m: "cl \<in> set (retain_unseen seen cls)" by simp
    with True have "?u \<noteq> uri (cl_spiffe_id cl)" by (auto dest: retain_unseen_fresh)
    with "2.IH"(1) [OF refl True m] show ?thesis by simp
  next
    case False
    show ?thesis
    proof (cases "cl = c")
      case False': False
      with "2.prems" False have m: "cl \<in> set (retain_unseen (?u # seen) cls)" by simp
      from retain_unseen_fresh [OF m] have "?u \<noteq> uri (cl_spiffe_id cl)" by auto
      with "2.IH"(2) [OF refl False m] show ?thesis by simp
    qed simp
  qed
qed simp

lemma find_first_of_filter: "filter P xs = x # ys \<Longrightarrow> find P xs = Some x"
  by (induction xs) (auto split: if_splits)

lemma retain_unseen_covers:
  "u \<in> (uri \<circ> cl_spiffe_id) ` set cls \<Longrightarrow> u \<notin> set seen \<Longrightarrow>
     u \<in> (uri \<circ> cl_spiffe_id) ` set (retain_unseen seen cls)"
proof (induction seen cls rule: retain_unseen.induct)
  case (2 seen cl cls)
  show ?case
  proof (cases "u = uri (cl_spiffe_id cl)")
    case True
    with "2.prems" show ?thesis by simp
  next
    case False
    with "2.prems" have m: "u \<in> (uri \<circ> cl_spiffe_id) ` set cls" by auto
    show ?thesis
    proof (cases "uri (cl_spiffe_id cl) \<in> set seen")
      case True
      with "2.IH"(1) [OF refl True m] "2.prems"(2) show ?thesis by simp
    next
      case False': False
      with "2.IH"(2) [OF refl False' m] "2.prems"(2) False show ?thesis by simp
    qed
  qed
qed simp

lemma sort_assurance_filter:
  "filter (\<lambda>c. cl_assurance c = a) (sort_key reverse_assurance cls) = filter (\<lambda>c. cl_assurance c = a) cls"
proof -
  have rank: "assurance_rank a = assurance_rank b \<longleftrightarrow> a = b" for a b by (cases a; cases b) auto
  have "cl_assurance c = a \<longleftrightarrow> reverse_assurance c = - int (assurance_rank a)" for c
    by (simp add: reverse_assurance_def rank)
  then show ?thesis by (simp add: sort_key_stable)
qed

lemma reverse_assurance_le:
  "reverse_assurance c \<le> reverse_assurance d \<longleftrightarrow> cl_assurance d \<le> cl_assurance c"
  by (simp add: reverse_assurance_def assurance_order)

text \<open>The claim kept for a SPIFFE ID is the first proven among those of the best assurance.\<close>

lemma best_first_survivor:
  assumes "cl \<in> set (best_first proven)"
  shows "find (\<lambda>c. cl_assurance c = cl_assurance cl \<and> uri (cl_spiffe_id c) = uri (cl_spiffe_id cl)) proven = Some cl
    \<and> (\<forall>c\<in>set proven. uri (cl_spiffe_id c) = uri (cl_spiffe_id cl) \<longrightarrow> cl_assurance c \<le> cl_assurance cl)"
proof -
  let ?ys = "sort_key reverse_assurance proven"
  let ?u = "\<lambda>c. uri (cl_spiffe_id c) = uri (cl_spiffe_id cl)"
  let ?a = "\<lambda>c. cl_assurance c = cl_assurance cl"
  from assms obtain rest where f: "filter ?u ?ys = cl # rest"
    using retain_unseen_first unfolding best_first_def by blast
  have "filter ?u (filter ?a proven) = filter ?u (filter ?a ?ys)"
    by (simp add: sort_assurance_filter)
  also have "\<dots> = filter ?a (filter ?u ?ys)" by (simp add: conj_commute)
  also have "\<dots> = cl # filter ?a rest" by (simp add: f)
  finally have "filter (\<lambda>c. ?a c \<and> ?u c) proven = cl # filter ?a rest" by (simp add: conj_commute)
  then have "find (\<lambda>c. ?a c \<and> ?u c) proven = Some cl"
    by (rule find_first_of_filter)
  moreover have "sorted (map reverse_assurance (cl # rest))"
    using sorted_filter [of reverse_assurance ?ys ?u] f by simp
  then have "cl_assurance c \<le> cl_assurance cl" if "c \<in> set proven" "?u c" for c
  proof -
    have "c \<in> set (filter ?u ?ys)" using that by simp
    then have "c = cl \<or> c \<in> set rest" unfolding f by simp
    then show ?thesis using \<open>sorted _\<close> by (auto simp: reverse_assurance_le)
  qed
  ultimately show ?thesis by blast
qed

lemma retain_unseen_set: "set (retain_unseen seen cls) \<subseteq> set cls"
  by (induction seen cls rule: retain_unseen.induct) (auto simp: Let_def)

lemma best_first_set: "set (best_first proven) \<subseteq> set proven"
  using retain_unseen_set [of "[]" "sort_key reverse_assurance proven"] by (simp add: best_first_def)

section \<open>Properties\<close>

text \<open>
  C5: the consent boundary. An unnamed request never proves a candidate whose proof may
  prompt a human: replace what any attestor would do when asked to prove such a candidate by
  anything at all, and the reply and the state of the world after it are the same.
\<close>

theorem unnamed_request_proves_only_silent:
  assumes "list_all2 (agree_on (\<lambda>c. cand_proof_cost c = Silent)) (sv_attestors sv) (sv_attestors sv')"
    and "sv_signer sv = sv_signer sv'" and "rq_spiffe_id req = []"
  shows "fetch_jwtsvid lib os sv peer req w = fetch_jwtsvid lib os sv' peer req w"
  using assms by (rule fetch_silent_agree)

text \<open>
  C12: a named request is the consent to prove one identity. What a proof of any candidate
  with another path would do cannot matter to it, and when it succeeds it returns exactly one
  SVID, whose subject is the caller's pseudonym for the very identity that was named.
\<close>

theorem named_request_proves_one_identity:
  assumes "spiffe_id_from_str (rq_spiffe_id req) = Inr want"
    and "list_all2 (agree_on (\<lambda>c. cand_path c = sid_path want)) (sv_attestors sv) (sv_attestors sv')"
    and "sv_signer sv = sv_signer sv'"
  shows "fetch_jwtsvid lib os sv peer req w = fetch_jwtsvid lib os sv' peer req w
    \<and> (\<forall>svids w'. fetch_jwtsvid lib os sv peer req w = (Some (Inr svids), w') \<longrightarrow>
         (\<exists>svid consumer. svids = [svid] \<and> peer = Some consumer
            \<and> sv_spiffe_id svid = uri (pseudonymous_id lib (sv_signer sv) want consumer)))"
proof (intro conjI allI impI)
  have sel: "parse_selector (rq_spiffe_id req) = Inr (Some want)"
    using assms(1) spiffe_id_from_str_not_Nil by (simp add: parse_selector_Some)
  show "fetch_jwtsvid lib os sv peer req w = fetch_jwtsvid lib os sv' peer req w"
  proof (rule fetch_cong [OF assms(3)])
    fix requested challenge w
    assume "parse_selector (rq_spiffe_id req) = Inr requested"
    with sel have "requested = Some want" by simp
    moreover obtain cs w1 cs' where "enumerate_all (sv_attestors sv) w = (cs, w1)"
      "enumerate_all (sv_attestors sv') w = (cs', w1)"
      "list_all2 (agree_pair (\<lambda>c. cand_path c = sid_path want)) cs cs'"
      using enumerate_all_agree [OF assms(2), of w] by (metis prod.collapse)
    ultimately show "prove_requested sv challenge requested w = prove_requested sv' challenge requested w"
      by (simp add: prove_requested_def named_claims_agree)
  qed
  fix svids w'
  assume f: "fetch_jwtsvid lib os sv peer req w = (Some (Inr svids), w')"
  then obtain consumer exts requested challenge w1 claims w2 now w3 r where
    c: "check_request peer req = Inr (consumer, exts, requested)"
    and p: "prove_requested sv challenge requested w1 = (Inr claims, w2)"
    and i: "issue_all (\<lambda>cl. issue lib os (sv_signer sv) cl consumer (map audience exts)
           (strictest_presence exts) (tightest_age exts) now) claims [] None w3 = (Some (svids, r), w')"
    and ne: "svids \<noteq> []" by (rule fetch_Inr)
  from check_request_Inr [OF c] sel have peer: "peer = Some consumer" "requested = Some want" by auto
  with p obtain cl where cl: "claims = [cl]" "cl_spiffe_id cl = want"
    by (auto simp: prove_requested_def split: prod.splits dest: named_claims_Inr)
  from i ne cl(1) obtain svid w4 where "svids = [svid]"
    and iss: "issue lib os (sv_signer sv) cl consumer (map audience exts)
      (strictest_presence exts) (tightest_age exts) now w3 = (Some (Inr svid), w4)"
    by (auto split: prod.splits option.splits sum.splits)
  with issue_Inr [OF iss] cl(2) peer(1) show "\<exists>svid consumer. svids = [svid] \<and> peer = Some consumer
      \<and> sv_spiffe_id svid = uri (pseudonymous_id lib (sv_signer sv) want consumer)" by auto
qed

text \<open>
  C23: the list of claims is ordered best first and holds one claim per SPIFFE ID. Every
  proven identity is represented; the claim kept for it has the best assurance any source
  established for it and, among those, is the one proven first, in registration order; claims
  of equal assurance keep the order they were proven in.
\<close>

theorem claims_best_first_one_per_identity:
  "sorted_wrt (\<lambda>c d. cl_assurance d \<le> cl_assurance c) (best_first proven)
   \<and> distinct (map (\<lambda>c. uri (cl_spiffe_id c)) (best_first proven))
   \<and> (\<lambda>c. uri (cl_spiffe_id c)) ` set (best_first proven) = (\<lambda>c. uri (cl_spiffe_id c)) ` set proven
   \<and> (\<forall>cl\<in>set (best_first proven).
        find (\<lambda>c. cl_assurance c = cl_assurance cl \<and> uri (cl_spiffe_id c) = uri (cl_spiffe_id cl)) proven = Some cl
        \<and> (\<forall>c\<in>set proven. uri (cl_spiffe_id c) = uri (cl_spiffe_id cl) \<longrightarrow> cl_assurance c \<le> cl_assurance cl))
   \<and> (\<forall>a. subseq (filter (\<lambda>c. cl_assurance c = a) (best_first proven)) (filter (\<lambda>c. cl_assurance c = a) proven))"
proof (intro conjI ballI allI)
  let ?ys = "sort_key reverse_assurance proven"
  have sub: "subseq (best_first proven) ?ys" by (simp add: best_first_def retain_unseen_subseq)
  have "sorted_wrt (\<lambda>c d. cl_assurance d \<le> cl_assurance c) ?ys"
    using sorted_sort_key [of reverse_assurance proven]
    by (simp add: sorted_map reverse_assurance_le)
  with sub show "sorted_wrt (\<lambda>c d. cl_assurance d \<le> cl_assurance c) (best_first proven)"
    by (metis sorted_wrt_subseq)
  show "distinct (map (\<lambda>c. uri (cl_spiffe_id c)) (best_first proven))"
    using retain_unseen_distinct [of "[]" ?ys] by (simp add: best_first_def comp_def)
  have "set (best_first proven) \<subseteq> set ?ys" using sub by (rule subseq_set)
  then show "(\<lambda>c. uri (cl_spiffe_id c)) ` set (best_first proven) = (\<lambda>c. uri (cl_spiffe_id c)) ` set proven"
    using retain_unseen_covers [of _ ?ys "[]"] by (auto simp: best_first_def comp_def)
  show "subseq (filter (\<lambda>c. cl_assurance c = a) (best_first proven)) (filter (\<lambda>c. cl_assurance c = a) proven)" for a
    using subseq_filter [OF sub, of "\<lambda>c. cl_assurance c = a"] by (simp add: sort_assurance_filter)
  fix cl assume "cl \<in> set (best_first proven)"
  from best_first_survivor [OF this]
  show "find (\<lambda>c. cl_assurance c = cl_assurance cl \<and> uri (cl_spiffe_id c) = uri (cl_spiffe_id cl)) proven = Some cl"
    and "\<And>c. c \<in> set proven \<Longrightarrow> uri (cl_spiffe_id c) = uri (cl_spiffe_id cl) \<longrightarrow> cl_assurance c \<le> cl_assurance cl"
    by blast+
qed

end
