(* ===== verification/Service_Validate.thy ===== *)
theory Service_Validate
  imports Service_Choice
begin

text \<open>
  What \<open>ValidateJWTSVID\<close> guarantees, and that it accepts what \<open>FetchJWTSVID\<close> issued.
\<close>

section \<open>Laws of the token library\<close>

text \<open>
  What the daemon relies on of the token and key crates, for its own key: a token decodes to
  the header and payload it was encoded from; verification under the matching public key
  accepts it when the algorithm and an audience match and it has not expired; the published
  JWKS parses to the one key it names; base64url decodes what it encoded.
\<close>

definition token_accepted :: "validation \<Rightarrow> u64 \<Rightarrow> jwt_header \<Rightarrow> json \<Rightarrow> bool" where
  "token_accepted v now header payload \<longleftrightarrow>
     hdr_alg header = val_algorithm v
     \<and> (\<exists>auds. json_get ''aud'' payload = Some (JArr (map JStr auds)) \<and> (\<exists>a\<in>set (val_audience v). a \<in> set auds))
     \<and> (\<exists>e. json_get ''exp'' payload = Some (JNum (PosInt e)) \<and> now < e)"

definition token_law :: "crypto_lib \<Rightarrow> svid_signer \<Rightarrow> bool" where
  "token_law lib signer \<longleftrightarrow>
     (\<forall>header payload token. jwt_encode lib header payload (encoding_key signer) = Inr token \<longrightarrow>
        token \<noteq> [] \<and> jwt_insecure_decode lib token = Inr (header, payload)
        \<and> (\<forall>v now. token_accepted v now header payload \<longrightarrow>
             jwt_decode lib token (public_key_sec1 signer) v now = Inr (header, payload)))"

definition jwks_law :: "crypto_lib \<Rightarrow> svid_signer \<Rightarrow> bool" where
  "jwks_law lib signer \<longleftrightarrow>
     (\<exists>key. jwks_from_value lib (jwks lib signer) = Some [key]
        \<and> jwks_find lib [key] (kid lib signer) = Some key
        \<and> jwk_algorithm key = EllipticCurve ''P-256'' (fst (public_xy lib signer)) (snd (public_xy lib signer))
        \<and> decoding_key_from_jwk lib key = Some (public_key_sec1 signer))
     \<and> (\<forall>bs. b64url_decode lib (b64url_encode lib bs) = Some bs)"

section \<open>Lemmas\<close>

lemma payload_spiffe_id_Inl: "payload_spiffe_id payload = Inl e \<Longrightarrow> e = reject"
  by (cases "Option.bind (json_get ''spiffe_id'' payload) as_str") (auto simp: payload_spiffe_id_def)

lemma and_then_Inl: "and_then r f = Inl e \<longleftrightarrow> r = Inl e \<or> (\<exists>x. r = Inr x \<and> f x = Inl e)"
  by (cases r) auto

lemma ok_or_Inl: "ok_or e x = Inl e' \<longleftrightarrow> x = None \<and> e' = e"
  by (cases x) auto

lemma local_decoding_key:
  assumes "jwks_law lib signer" "wf_signer signer"
  shows "jwt_decoding_key lib (local_bundle lib td signer) (kid lib signer) = Some (public_key_sec1 signer)"
  using assms by (auto simp: jwks_law_def jwt_decoding_key_def local_bundle_def public_xy_def wf_signer_def)

lemma issue_signed:
  assumes "issue lib os signer cl consumer auds required bound now w = (Some (Inr svid), w')"
  shows "\<exists>hire_ext. sign_jwt_svid lib signer (fst (os_now os w)) (sv_spiffe_id svid) auds hire_ext
    = Some (Inr (sv_svid svid))"
  using assms by (auto simp: issue_def Let_def split: prod.splits if_splits option.splits sum.splits)

text \<open>What the token of an issued SVID decodes to.\<close>

lemma issued_token:
  assumes "fetch_jwtsvid lib os sv peer req w = (Some (Inr svids), w')" "svid \<in> set svids" "token_law lib (sv_signer sv)"
  obtains exts w1 d header payload where "list_all2 (\<lambda>a e. parse_audience a = Inr e) (rq_audience req) exts"
    and "duration_since (fst (os_now os w1)) unix_epoch = Some d" and "sv_svid svid \<noteq> []"
    and "header = \<lparr>hdr_alg = ''ES256'', hdr_kid = Some (kid lib (sv_signer sv))\<rparr>"
    and "\<exists>ext. payload = jwt_claims_value (svid_claims (as_secs d) (sv_spiffe_id svid) (map audience exts) ext)"
    and "jwt_insecure_decode lib (sv_svid svid) = Inr (header, payload)"
    and "\<forall>v now. token_accepted v now header payload \<longrightarrow>
      jwt_decode lib (sv_svid svid) (public_key_sec1 (sv_signer sv)) v now = Inr (header, payload)"
proof -
  let ?s = "sv_signer sv" and ?u = "sv_spiffe_id svid"
  from assms(1,2) obtain consumer exts cl now0 w1 w2 where
    all: "list_all2 (\<lambda>a e. parse_audience a = Inr e) (rq_audience req) exts"
    and i: "issue lib os ?s cl consumer (map audience exts)
           (strictest_presence exts) (tightest_age exts) now0 w1 = (Some (Inr svid), w2)"
    by (rule fetch_svid_from_claim)
  obtain hire_ext where sign: "sign_jwt_svid lib ?s (fst (os_now os w1)) ?u (map audience exts) hire_ext
      = Some (Inr (sv_svid svid))"
    using issue_signed [OF i] by blast
  then obtain d where d: "duration_since (fst (os_now os w1)) unix_epoch = Some d"
    and enc: "jwt_encode lib \<lparr>hdr_alg = ''ES256'', hdr_kid = Some (kid lib ?s)\<rparr>
      (jwt_claims_value (svid_claims (as_secs d) ?u (map audience exts) hire_ext)) (encoding_key ?s)
      = Inr (sv_svid svid)"
    by (auto simp: sign_jwt_svid_def Let_def split: option.splits)
  from assms(3) enc show thesis unfolding token_law_def by (intro that [OF all d]) blast+
qed

lemma issued_validates:
  assumes "fetch_jwtsvid lib os sv peer req w = (Some (Inr svids), w')" and "svid \<in> set svids"
    and "token_law lib (sv_signer sv)" and "jwks_law lib (sv_signer sv)" and "wf_signer (sv_signer sv)"
    and "\<And>w. clock_ok (fst (os_now os w))"
    and "spiffe_id_from_str (sv_spiffe_id svid) = Inr sid"
    and "get_bundle (sv_bundles sv) (sid_trust_domain sid)
      = Some (local_bundle lib (sid_trust_domain sid) (sv_signer sv))"
    and "a \<in> set (rq_audience req)" and "parse_audience a = Inr ext" and "audience ext \<noteq> []"
  shows "\<exists>w0 d. duration_since (fst (os_now os w0)) unix_epoch = Some d
    \<and> (\<forall>now. unat now < unat (as_secs d) + 300 \<longrightarrow>
         (\<exists>payload. validate_jwtsvid lib (sv_bundles sv) now
            \<lparr>vr_audience = audience ext, vr_svid = sv_svid svid\<rparr> = Inr (sid, payload)))"
proof -
  let ?s = "sv_signer sv"
  from assms(1-3) obtain exts w1 d header payload where
    all: "list_all2 (\<lambda>a e. parse_audience a = Inr e) (rq_audience req) exts"
    and d: "duration_since (fst (os_now os w1)) unix_epoch = Some d" and ne: "sv_svid svid \<noteq> []"
    and h: "header = \<lparr>hdr_alg = ''ES256'', hdr_kid = Some (kid lib ?s)\<rparr>"
    and p: "\<exists>ext. payload = jwt_claims_value (svid_claims (as_secs d) (sv_spiffe_id svid) (map audience exts) ext)"
    and dec: "jwt_insecure_decode lib (sv_svid svid) = Inr (header, payload)"
    and ok: "\<forall>v now. token_accepted v now header payload \<longrightarrow>
      jwt_decode lib (sv_svid svid) (public_key_sec1 ?s) v now = Inr (header, payload)"
    by (rule issued_token)
  have pid: "payload_spiffe_id payload = Inr sid" using assms(7) p by (auto simp: payload_spiffe_id_def)
  have aud: "audience ext \<in> set (map audience exts)" using parsed_audience_in [OF all assms(9,10)] by simp
  have "validate_jwtsvid lib (sv_bundles sv) now \<lparr>vr_audience = audience ext, vr_svid = sv_svid svid\<rparr> = Inr (sid, payload)"
    if "unat now < unat (as_secs d) + 300" for now
  proof -
    have "now < as_secs d + 300"
      using that clock_secs(2) [OF assms(6) d] by (simp add: word_less_nat_alt)
    with aud p h have "token_accepted (es256_validation (audience ext)) now header payload"
      by (auto simp: token_accepted_def es256_validation_def simp del: map_map
          intro!: exI [of _ "map audience exts"])
    from ok [rule_format, OF this] ne dec h assms(8,11) pid local_decoding_key [OF assms(4,5)]
    show ?thesis by (simp add: validate_jwtsvid_def)
  qed
  with d show ?thesis by blast
qed

text \<open>A token of a domain the daemon holds no bundle for is rejected.\<close>

lemma issued_rejected:
  assumes "fetch_jwtsvid lib os sv peer req w = (Some (Inr svids), w')" and "svid \<in> set svids"
    and "token_law lib (sv_signer sv)" and "spiffe_id_from_str (sv_spiffe_id svid) = Inr sid"
    and "get_bundle bundles (sid_trust_domain sid) = None" and "aud \<noteq> []"
  shows "validate_jwtsvid lib bundles now \<lparr>vr_audience = aud, vr_svid = sv_svid svid\<rparr> = Inl reject"
proof -
  from assms(1-3) obtain header payload d and exts :: "audience_extensions list" where ne: "sv_svid svid \<noteq> []"
    and h: "header = \<lparr>hdr_alg = ''ES256'', hdr_kid = Some (kid lib (sv_signer sv))\<rparr>"
    and p: "\<exists>ext. payload = jwt_claims_value (svid_claims (as_secs d) (sv_spiffe_id svid) (map audience exts) ext)"
    and dec: "jwt_insecure_decode lib (sv_svid svid) = Inr (header, payload)"
    by (rule issued_token) (rule that)
  from p assms(4) have "payload_spiffe_id payload = Inr sid" by (auto simp: payload_spiffe_id_def)
  with ne h dec assms(5,6) show ?thesis by (simp add: validate_jwtsvid_def)
qed

section \<open>Properties\<close>

text \<open>
  C9: a token is accepted only under a published key of the trust domain its verified claims
  name. The SPIFFE ID returned is the one in the verified payload; the key that verified the
  token is the one the bundle of that ID's trust domain publishes under the token's key
  identifier; the check was for ES256, for exactly the requested audience, with no leeway.
\<close>

theorem validated_under_key_of_named_domain:
  assumes "validate_jwtsvid lib bundles now req = Inr (sid, payload)"
  shows "\<exists>bundle k key header unverified header'.
      get_bundle bundles (sid_trust_domain sid) = Some bundle
    \<and> jwt_insecure_decode lib (vr_svid req) = Inr (header, unverified) \<and> hdr_kid header = Some k
    \<and> jwt_decoding_key lib bundle k = Some key
    \<and> jwt_decode lib (vr_svid req) key
        \<lparr>val_algorithm = ''ES256'', val_audience = [vr_audience req], val_leeway = 0\<rparr> now = Inr (header', payload)
    \<and> json_get ''spiffe_id'' payload = Some (JStr (uri sid)) \<and> wf_spiffe_id sid"
proof -
  from assms obtain header unverified k b key header' where
    "jwt_insecure_decode lib (vr_svid req) = Inr (header, unverified)" "hdr_kid header = Some k"
    "get_bundle bundles (sid_trust_domain sid) = Some b"
    "jwt_decoding_key lib b k = Some key"
    "jwt_decode lib (vr_svid req) key (es256_validation (vr_audience req)) now = Inr (header', payload)"
    and sid: "payload_spiffe_id payload = Inr sid"
    by (auto simp: validate_jwtsvid_def split: if_splits)
  moreover from sid have "json_get ''spiffe_id'' payload = Some (JStr (uri sid)) \<and> wf_spiffe_id sid"
    by (auto simp: payload_spiffe_id_def spiffe_id_text.from_str_iff bind_eq_Some_conv)
  ultimately show ?thesis unfolding es256_validation_def by auto
qed

text \<open>
  C29: every rejection of a non-empty token for a non-empty audience is the same reply, so it
  does not tell which trust domains or keys the daemon holds.
\<close>

theorem rejections_are_indistinguishable:
  assumes "vr_svid req \<noteq> []" and "vr_audience req \<noteq> []"
    and "validate_jwtsvid lib bundles now req = Inl st"
  shows "st = (InvalidArgument, ''JWT validation failed'')"
  using assms unfolding validate_jwtsvid_def
  by (auto simp: and_then_Inl ok_or_Inl reject_def [symmetric] split: if_splits
      dest: payload_spiffe_id_Inl)

text \<open>
  The daemon's two halves agree. An SVID that \<open>FetchJWTSVID\<close> issued under a trust domain
  whose bundle is the daemon's own is accepted by \<open>ValidateJWTSVID\<close>, for each audience of the
  request (stripped of its policy parameters), at every second before five minutes after the
  clock reading it was signed at, and the validated ID is the SVID's own.
\<close>

theorem issued_svid_validates:
  assumes "fetch_jwtsvid lib os sv peer req w = (Some (Inr svids), w')" and "svid \<in> set svids"
    and "token_law lib (sv_signer sv)" and "jwks_law lib (sv_signer sv)" and "wf_signer (sv_signer sv)"
    and "\<And>w. clock_ok (fst (os_now os w))"
    and "spiffe_id_from_str (sv_spiffe_id svid) = Inr sid"
    and "get_bundle (sv_bundles sv) (sid_trust_domain sid)
      = Some (local_bundle lib (sid_trust_domain sid) (sv_signer sv))"
    and "a \<in> set (rq_audience req)" and "parse_audience a = Inr ext" and "audience ext \<noteq> []"
  shows "\<exists>w0 d. duration_since (fst (os_now os w0)) unix_epoch = Some d
    \<and> (\<forall>now. unat now < unat (as_secs d) + 300 \<longrightarrow>
         (\<exists>payload. validate_jwtsvid lib (sv_bundles sv) now
            \<lparr>vr_audience = audience ext, vr_svid = sv_svid svid\<rparr> = Inr (sid, payload)))"
  using assms by (rule issued_validates)

end
