(* ===== verification/Daemon.thy ===== *)
theory Daemon
  imports Peer_Attest Registry Service_Validate Service_Choice
begin

text \<open>
  \<open>hired/src/main.rs\<close>: the service the daemon builds at start-up, and what a connection is
  answered. Here the service runs on the attestors that ship with it.
\<close>

section \<open>Start-up\<close>

definition hired_service ::
  "crypto_lib \<Rightarrow> attest_lib \<Rightarrow> (hid_param \<times> string) list option \<Rightarrow> host \<Rightarrow> svid_signer \<Rightarrow> world workload_service" where
  "hired_service lib alib devices h signer =
     new_workload_service signer (upsert new_store (local_bundle lib SshLocal signer)) (probe_sources alib devices h)"

definition start_hired ::
  "crypto_lib \<Rightarrow> attest_lib \<Rightarrow> (hid_param \<times> string) list option \<Rightarrow> host \<Rightarrow> byte list \<Rightarrow> string + byte list
    \<Rightarrow> signer_error + world workload_service" where
  "start_hired lib alib devices h sk random =
     and_then (new_signer lib sk random) (\<lambda>signer. Inr (hired_service lib alib devices h signer))"

text \<open>
  \<open>serve\<close>: the peer is attested when its connection is accepted, and each of its requests is
  answered with that identity.
\<close>

definition serve_connection ::
  "crypto_lib \<Rightarrow> 'w os \<Rightarrow> 'w workload_service \<Rightarrow> platform \<Rightarrow> kernel \<Rightarrow> string + ucred \<Rightarrow> jwtsvid_request \<Rightarrow> 'w
    \<Rightarrow> (status + jwtsvid list) option \<times> 'w" where
  "serve_connection lib os sv pf k cred req w =
     fetch_jwtsvid lib os sv (accept_peer (sha256 lib) pf k cred) req w"

section \<open>Where the claims come from\<close>

lemma enumerate_all_from:
  "(a, c) \<in> set (fst (enumerate_all as w)) \<Longrightarrow>
     a \<in> set as \<and> (\<exists>w1 cs w2. at_enumerate a w1 = (Inr cs, w2) \<and> c \<in> set cs)"
proof (induction as w rule: enumerate_all.induct)
  case (2 b bs w)
  obtain r w1 where r: "at_enumerate b w = (r, w1)" by fastforce
  obtain found w2 where f: "enumerate_all bs w1 = (found, w2)" by fastforce
  show ?case
  proof (cases r)
    case (Inl e)
    with 2 r f show ?thesis by auto
  next
    case (Inr cs)
    with 2 r f show ?thesis by fastforce
  qed
qed simp

lemma prove_silent_from:
  "cl \<in> set (fst (prove_silent challenge cs w)) \<Longrightarrow>
     \<exists>a c w1 ev w2. (a, c) \<in> set cs \<and> cand_proof_cost c = Silent
       \<and> at_prove a c challenge w1 = (Inr ev, w2) \<and> derive c challenge ev = Some cl"
proof (induction challenge cs w rule: prove_silent.induct)
  case (2 challenge a c rest w)
  show ?case
  proof (cases "cand_proof_cost c = Silent")
    case True
    obtain r w1 where r: "at_prove a c challenge w = (r, w1)" by fastforce
    obtain found w2 where f: "prove_silent challenge rest w1 = (found, w2)" by fastforce
    have IH: "cl \<in> set found \<Longrightarrow> ?thesis" using "2.IH"(2) [OF _ r [symmetric]] True f by force
    show ?thesis
    proof (cases r)
      case (Inl e)
      with "2.prems" True r f IH show ?thesis by auto
    next
      case (Inr ev)
      with "2.prems" True r f have "cl \<in> set found \<or> derive c challenge ev = Some cl" by (auto split: option.splits)
      with IH True r Inr show ?thesis by (metis list.set_intros(1))
    qed
  next
    case False
    with "2.prems" have "cl \<in> set (fst (prove_silent challenge rest w))" by simp
    from "2.IH"(1) [OF False this] show ?thesis by (meson list.set_intros(2))
  qed
qed simp

lemma prove_requested_from:
  assumes "prove_requested sv challenge requested w = (Inr claims, w')" "cl \<in> set claims"
  shows "\<exists>a c w1 ev w2. a \<in> set (sv_attestors sv) \<and> at_prove a c challenge w1 = (Inr ev, w2)
    \<and> derive c challenge ev = Some cl \<and> (\<exists>w3 cs w4. at_enumerate a w3 = (Inr cs, w4) \<and> c \<in> set cs)
    \<and> (requested = None \<longrightarrow> cand_proof_cost c = Silent)"
proof -
  obtain cands w1 where e: "enumerate_all (sv_attestors sv) w = (cands, w1)" by fastforce
  have from_all: "(a, c) \<in> set cands \<Longrightarrow> a \<in> set (sv_attestors sv)
      \<and> (\<exists>w1 cs w2. at_enumerate a w1 = (Inr cs, w2) \<and> c \<in> set cs)" for a c
    using enumerate_all_from [of a c "sv_attestors sv" w] e by simp
  show ?thesis
  proof (cases requested)
    case None
    obtain proven w2 where p: "prove_silent challenge cands w1 = (proven, w2)" by fastforce
    from assms e None p have "cl \<in> set proven"
      using best_first_set by (auto simp: prove_requested_def unnamed_claims_def)
    with prove_silent_from [of cl challenge cands w1] p from_all None show ?thesis by fastforce
  next
    case (Some want)
    from assms e Some obtain a c ev w2 where f: "find (\<lambda>(a, c). cand_path c = sid_path want) cands = Some (a, c)"
      and "at_prove a c challenge w1 = (Inr ev, w2)" "derive c challenge ev = Some cl"
      by (auto simp: prove_requested_def named_claims_def split: option.splits prod.splits sum.splits if_splits)
    with from_all [OF find_SomeD [OF f, THEN conjunct1]] Some show ?thesis by blast
  qed
qed

lemmas candidate_simps = candidate_spiffe_id_def with_proof_cost_def with_attainable_def new_candidate_def

section \<open>What the shipped sources enumerate\<close>

lemma shipped_silent_source:
  assumes "a \<in> set (probe_sources alib devices h0)" "at_enumerate a w = (Inr cs, w')" "c \<in> set cs"
    "cand_proof_cost c = Silent" "at_prove a c challenge w1 = (Inr ev, w2)"
  shows "(at_name a = ''tailscale'' \<or> at_name a = ''unix'') \<and> cand_source c = at_name a"
  using assms(1)
proof (cases rule: probe_sources_cases)
  case 1
  with assms(2,3) show ?thesis
    by (auto simp: tailscale_attestor_def at_call_def tailscale_enumerate_def with_proof_cost_def with_attainable_def
        new_candidate_def split: if_splits)
next
  case 3
  with assms(5) show ?thesis by (simp add: oidc_attestor_def default_prove_def)
next
  case 7
  with assms(2,3) show ?thesis
    by (auto simp: unix_source_def at_call_def unix_enumerate_def with_proof_cost_def with_attainable_def new_candidate_def)
qed (use silent_candidates [OF assms(1-4)] in \<open>simp_all add: shipped_defs\<close>)

text \<open>The shipped sources put what they find under one of two trust domains.\<close>

lemma shipped_domain:
  assumes "a \<in> set (probe_sources alib devices h0)" "at_enumerate a w = (Inr cs, w')" "c \<in> set cs"
    "at_prove a c challenge w1 = (Inr ev, w2)"
  shows "sid_trust_domain (candidate_spiffe_id c) = (if at_name a = ''tailscale'' then Tailscale else SshLocal)"
  using assms(1)
proof (cases rule: probe_sources_cases)
  case 1
  with assms show ?thesis
    by (auto simp: shipped_defs at_call_def tailscale_enumerate_def candidate_simps split: if_splits)
next
  case 2
  with assms show ?thesis by (auto simp: shipped_defs at_call_def ssh_enumerate_def candidate_simps)
next
  case 3
  with assms show ?thesis
    by (simp add: shipped_defs default_prove_def)
next
  case 4
  with assms show ?thesis by (auto simp: shipped_defs at_call_def did_enumerate_def candidate_simps)
next
  case 5
  with assms show ?thesis
    by (auto simp: shipped_defs at_call_def gpg_enumerate_def candidate_simps make_gpg_candidate_def
        split: if_splits dest!: gpg_listing_candidates)
next
  case 6
  with assms show ?thesis
    by (auto simp: shipped_defs at_call_def fido2_enumerate_def candidate_simps split: option.splits)
next
  case 7
  with assms show ?thesis by (auto simp: shipped_defs at_call_def unix_enumerate_def candidate_simps)
qed

section \<open>The world goes on\<close>

text \<open>No shipped source changes which moments the machine goes through.\<close>

definition steady :: "world attestor \<Rightarrow> bool" where
  "steady a \<longleftrightarrow> (\<forall>w. w_moments (snd (at_enumerate a w)) = w_moments w)
     \<and> (\<forall>c challenge w. w_moments (snd (at_prove a c challenge w)) = w_moments w)"

lemma shipped_steady: "a \<in> set (probe_sources alib devices h0) \<Longrightarrow> steady a"
  by (erule probe_sources_cases) (simp_all add: steady_def shipped_defs at_call_def default_prove_def)

lemma enumerate_all_steady:
  "\<forall>a\<in>set as. steady a \<Longrightarrow> w_moments (snd (enumerate_all as w)) = w_moments w"
  by (induction as w rule: enumerate_all.induct) (auto simp: steady_def split: prod.splits, metis snd_conv)

lemma prove_silent_steady:
  "\<forall>(a, c)\<in>set cs. steady a \<Longrightarrow> w_moments (snd (prove_silent challenge cs w)) = w_moments w"
proof (induction challenge cs w rule: prove_silent.induct)
  case (2 challenge a c rest w)
  obtain r w1 where r: "at_prove a c challenge w = (r, w1)" by fastforce
  with "2.prems" have "w_moments w1 = w_moments w" by (auto simp: steady_def) (metis snd_conv)
  with "2.IH"(1) "2.IH"(2) [OF _ r [symmetric]] "2.prems" r show ?case by (auto split: prod.splits)
qed simp

section \<open>An identity of last resort\<close>

lemma prove_silent_nonempty:
  assumes "(a, c) \<in> set cs" "cand_proof_cost c = Silent" "\<forall>(b, d)\<in>set cs. steady b"
    and "\<And>w'. w_moments w' = w_moments w \<Longrightarrow> \<exists>ev w''. at_prove a c challenge w' = (Inr ev, w'') \<and> derive c challenge ev \<noteq> None"
  shows "fst (prove_silent challenge cs w) \<noteq> []"
  using assms
proof (induction challenge cs w rule: prove_silent.induct)
  case (2 challenge b d rest w)
  obtain r w1 where r: "at_prove b d challenge w = (r, w1)" by fastforce
  have "steady b" using "2.prems"(3) by simp
  with r have moments: "w_moments w1 = w_moments w" unfolding steady_def by (metis snd_conv)
  show ?case
  proof (cases "(a, c) = (b, d)")
    case True
    from "2.prems"(4) [of w] r True obtain ev where "r = Inr ev" "derive d challenge ev \<noteq> None" by auto
    with True "2.prems"(2) r show ?thesis by (auto split: prod.splits)
  next
    case False
    with "2.prems" have rest: "(a, c) \<in> set rest" "\<forall>(b, d)\<in>set rest. steady b" by auto
    have later: "fst (prove_silent challenge rest w1) \<noteq> []" if "cand_proof_cost d = Silent"
      using "2.IH"(2) [OF _ r [symmetric] rest(1) "2.prems"(2) rest(2)] "2.prems"(4) that moments by simp
    show ?thesis
    proof (cases "cand_proof_cost d = Silent")
      case True
      from later [OF True] r True show ?thesis
        by (cases "prove_silent challenge rest w1") (auto split: sum.splits option.splits)
    next
      case no: False
      with "2.IH"(1) [OF no rest(1) "2.prems"(2) rest(2) "2.prems"(4)] show ?thesis by simp
    qed
  qed
qed simp

lemma best_first_nonempty: "proven \<noteq> [] \<Longrightarrow> best_first proven \<noteq> []"
proof -
  assume "proven \<noteq> []"
  then obtain cl where "cl \<in> set proven" by fastforce
  then have "uri (cl_spiffe_id cl) \<in> (uri \<circ> cl_spiffe_id) ` set (sort_key reverse_assurance proven)" by auto
  from retain_unseen_covers [OF this, of "[]"] show "best_first proven \<noteq> []" by (auto simp: best_first_def)
qed

lemma issue_all_all:
  assumes "\<And>cl w. cl \<in> set cls \<Longrightarrow> \<exists>svid w'. iss cl w = (Some (Inr svid), w')"
  shows "\<exists>svids w'. issue_all iss cls acc refusal w = (Some (acc @ svids, refusal), w') \<and> length svids = length cls"
  using assms
proof (induction cls arbitrary: acc w)
  case (Cons cl cls)
  then obtain svid w1 where i: "iss cl w = (Some (Inr svid), w1)" by fastforce
  from Cons.IH [of "acc @ [svid]" w1] Cons.prems obtain svids w' where
    "issue_all iss cls (acc @ [svid]) refusal w1 = (Some ((acc @ [svid]) @ svids, refusal), w')" "length svids = length cls"
    by auto
  with i show ?case by (intro exI [of _ "svid # svids"]) simp
qed simp

lemma policy_free:
  assumes "\<forall>e\<in>set exts. require_presence e = NoPresence \<and> max_age e = None"
  shows "strictest_presence exts = NoPresence" "tightest_age exts = None"
proof -
  have "strictest_presence exts = NoPresence \<and> List.map_filter max_age exts = []"
    using assms unfolding strictest_presence_def by (induction exts) (auto simp: map_filter_simps)
  then show "strictest_presence exts = NoPresence" "tightest_age exts = None" by (simp_all add: tightest_age_def)
qed

lemma issue_policy_free:
  assumes "\<And>h p k. \<exists>t. jwt_encode lib h p k = Inr t" "\<And>w. duration_since (fst (os_now os w)) unix_epoch \<noteq> None"
  shows "\<exists>svid w'. issue lib os signer cl consumer auds NoPresence None now w = (Some (Inr svid), w')"
proof -
  obtain clock w1 where now: "os_now os w = (clock, w1)" by fastforce
  with assms(2) [of w] obtain d where d: "duration_since clock unix_epoch = Some d" by auto
  have "\<not> p < NoPresence" for p by (cases p) (auto simp: presence_order)
  with now d assms(1) show ?thesis
    by (auto simp: issue_def Let_def within_max_age_def sign_jwt_svid_def split: sum.split) (metis sum.simps(4))
qed

lemma shipped_unnamed_claims:
  assumes "sv_attestors sv = probe_sources alib devices h0" "\<And>n. h_uid (w_moments w n) = h_uid h0"
  shows "\<exists>claims w'. prove_requested sv challenge None w = (Inr claims, w') \<and> claims \<noteq> []"
proof -
  let ?ua = "new_unix_attestor h0" let ?a = "unix_source ?ua"
  obtain cands w1 where e: "enumerate_all (sv_attestors sv) w = (cands, w1)" by fastforce
  have steady: "\<forall>a\<in>set (sv_attestors sv). steady a" using shipped_steady assms(1) by metis
  from enumerate_all_steady [OF this, of w] e have moments: "w_moments w1 = w_moments w" by simp
  obtain c where c: "unix_enumerate ?ua = Inr [c]" "cand_proof_cost c = Silent"
    "cand_path c = unix_spiffe_path (h_uid h0)"
    by (simp add: unix_enumerate_def with_proof_cost_def with_attainable_def new_candidate_def new_unix_attestor_def)
  have "\<exists>others. sv_attestors sv = others @ [?a]" using assms(1) by (simp add: probe_sources_def)
  moreover have "(?a, c) \<in> set (fst (enumerate_all (as @ [?a]) w))" for as w
    by (induction as w rule: enumerate_all.induct) (auto simp: unix_source_def at_call_def c(1) split: prod.splits sum.split)
  ultimately have "(?a, c) \<in> set cands" using e by (metis fst_conv)
  moreover have "\<forall>(b, d)\<in>set cands. steady b"
    using enumerate_all_from [of _ _ "sv_attestors sv" w] e steady by fastforce
  moreover have "\<exists>ev w''. at_prove ?a c challenge w' = (Inr ev, w'') \<and> derive c challenge ev \<noteq> None"
    if "w_moments w' = w_moments w1" for w'
  proof -
    have "unix_prove c challenge (current w') = Inr [PlatformAssertion (observe_platform (h_now (current w')) (cand_path c))]"
      using that moments assms(2) c(3) by (simp add: unix_prove_Inr current_def)
    with unix_prover.proof_gives_claim [OF this] show ?thesis by (auto simp: unix_source_def at_call_def)
  qed
  ultimately have "fst (prove_silent challenge cands w1) \<noteq> []" using c(2) by (intro prove_silent_nonempty)
  from best_first_nonempty [OF this] e show ?thesis
    by (auto simp: prove_requested_def unnamed_claims_def apfst_def map_prod_def split: prod.splits)
qed

lemma shipped_fetch_succeeds:
  assumes "sv_attestors sv = probe_sources alib devices h0" "\<And>n. h_uid (w_moments w n) = h_uid h0"
    and rnd: "\<And>w. \<exists>bs w'. os_random32 os w = (Some bs, w') \<and> w_moments w' = w_moments w"
    and clock: "\<And>w. duration_since (fst (os_now os w)) unix_epoch \<noteq> None"
    and enc: "\<And>h p k. \<exists>t. jwt_encode lib h p k = Inr t"
    and req: "rq_audience req \<noteq> []" "rq_spiffe_id req = []"
      "\<forall>a\<in>set (rq_audience req). \<exists>e. parse_audience a = Inr e \<and> require_presence e = NoPresence \<and> max_age e = None"
  shows "\<exists>svids w'. fetch_jwtsvid lib os sv (Some consumer) req w = (Some (Inr svids), w') \<and> svids \<noteq> []"
proof -
  obtain exts where ex: "collect_results parse_audience (rq_audience req) = Inr exts"
    and free: "\<forall>e\<in>set exts. require_presence e = NoPresence \<and> max_age e = None"
  proof (cases "collect_results parse_audience (rq_audience req)")
    case (Inl e)
    with collect_results_Inl req(3) show thesis by fastforce
  next
    case (Inr exts)
    have "require_presence e = NoPresence \<and> max_age e = None" if "e \<in> set exts" for e
      using Inr that req(3)
      by (auto simp: collect_results_Inr list_all2_conv_all_nth in_set_conv_nth) (metis nth_mem sum.inject(2))+
    with Inr that show thesis by blast
  qed
  have check: "check_request (Some consumer) req = Inr (consumer, exts, None)"
    using req ex by (simp add: check_request_def parse_selector_def)
  from rnd [of w] obtain bs w1 where r: "os_random32 os w = (Some bs, w1)" "w_moments w1 = w_moments w" by auto
  from shipped_unnamed_claims [OF assms(1), of w1 bs] assms(2) r(2) obtain claims w2 where
    p: "prove_requested sv bs None w1 = (Inr claims, w2)" "claims \<noteq> []" by auto
  obtain now w3 where n: "os_now os w2 = (now, w3)" by fastforce
  obtain svids w4 where "issue_all (\<lambda>cl. issue lib os (sv_signer sv) cl consumer (map audience exts)
      NoPresence None now) claims [] None w3 = (Some (svids, None), w4)" "length svids = length claims"
    using issue_all_all [of claims "\<lambda>cl. issue lib os (sv_signer sv) cl consumer (map audience exts) NoPresence None now" "[]" None w3]
      issue_policy_free [OF enc clock] by auto
  with p(2) show ?thesis
    by (auto simp: fetch_jwtsvid_def check r p n policy_free [OF free] finish_svids_def)
qed

end
