(* ===== verification/Socket.thy ===== *)
theory Socket
  imports Peer_Attest
begin

text \<open>
  \<open>hire-grpc/src/socket.rs\<close>: where the socket is. \<open>confstr\<close> is what \<open>confstr\<close> reports on macOS:
  the length it returns, which counts the final NUL, and the buffer.
\<close>

section \<open>Operations\<close>

definition socket_under :: "string option \<Rightarrow> u32 \<Rightarrow> string" where
  "socket_under runtime uid =
     (case runtime of
        Some dir \<Rightarrow> path_join (path_join dir ''hire'') ''workload.sock''
      | None \<Rightarrow> path_join (''/tmp/hire-'' @ show_nat (unat uid)) ''workload.sock'')"

text \<open>\<open>PATH_MAX\<close> is the size of the buffer.\<close>

definition darwin_runtime_dir :: "nat \<times> byte list \<Rightarrow> string option" where
  "darwin_runtime_dir confstr =
     (if fst confstr = 0 \<or> fst confstr > length (snd confstr) then None
      else Some (str_of_bytes (take (fst confstr - 1) (snd confstr))))"

definition xdg_runtime_dir :: "string option \<Rightarrow> string option" where
  "xdg_runtime_dir var = (case var of Some dir \<Rightarrow> if dir = [] then None else Some dir | None \<Rightarrow> None)"

definition runtime_dir :: "platform \<Rightarrow> string option \<Rightarrow> nat \<times> byte list \<Rightarrow> string option" where
  "runtime_dir pf var confstr = (if pf = MacOS then darwin_runtime_dir confstr else xdg_runtime_dir var)"

definition workload_socket_path :: "platform \<Rightarrow> string option \<Rightarrow> nat \<times> byte list \<Rightarrow> u32 \<Rightarrow> string" where
  "workload_socket_path pf var confstr uid = socket_under (runtime_dir pf var confstr) uid"

section \<open>Lemmas\<close>

lemma path_join_form: "a \<noteq> [] \<Longrightarrow> \<exists>d. path_join a b = d @ ''/'' @ b \<and> (a = d \<or> a = d @ ''/'')"
  by (cases a rule: rev_cases) (auto simp: path_join_def)

lemma last_show_nat: "last (show_nat n) \<noteq> CHR ''/''"
proof -
  have "CHR ''/'' \<notin> set (show_nat n)" by (rule show_nat_no_char) simp
  moreover have "last (show_nat n) \<in> set (show_nat n)" by simp
  ultimately show ?thesis by metis
qed

lemma path_join_ne: "b \<noteq> [] \<Longrightarrow> path_join a b \<noteq> []"
  by (simp add: path_join_def)

lemma last_path_join: "b \<noteq> [] \<Longrightarrow> last (path_join a b) = last b"
  by (simp add: path_join_def)

lemma socket_under_private:
  "\<exists>d. socket_under runtime uid = d @ ''/workload.sock'' \<and> d \<noteq> ''/tmp'' \<and> d \<noteq> []
     \<and> (runtime = None \<longrightarrow> d = ''/tmp/hire-'' @ show_nat (unat uid))"
proof (cases runtime)
  case None
  show ?thesis
    by (intro exI [of _ "''/tmp/hire-'' @ show_nat (unat uid)"])
      (simp add: socket_under_def None path_join_def last_show_nat)
next
  case (Some dir)
  let ?d = "path_join dir ''hire''"
  have "last ?d = CHR ''e''" by (simp add: last_path_join)
  moreover have "?d \<noteq> []" by (simp add: path_join_ne)
  ultimately show ?thesis
    by (intro exI [of _ ?d]) (auto simp: socket_under_def Some path_join_def [of ?d])
qed

lemma socket_under_uid_inj: "socket_under None a = socket_under None b \<longleftrightarrow> a = b"
  by (auto simp: socket_under_def path_join_def last_show_nat dest: show_nat_inj intro: unsigned_word_eqI)

end
