(* ===== verification/Server.thy ===== *)
theory Server
  imports Socket
begin

text \<open>
  \<open>hire-grpc/src/server.rs\<close>: taking the socket. The part of the file system and of the lock
  table that start-up touches is a \<open>machine\<close>; a system call reads and changes it, or fails with
  an error the process environment injects. Paths are in normal form, and a symbolic link is
  followed when it is the last component.
\<close>

unbundle bit_operations_syntax

section \<open>The machine\<close>

datatype io_error = ENoent | EExist | ENotdir | EIsdir | ENxio | ELoop | EAddrinuse | EAgain | EOther string

datatype node =
    Directory u32 u32
  | Regular nat u32 u32
  | SocketFile nat u32 u32
  | Symlink string

text \<open>
  A directory and a regular file have an owner and permission bits, a regular file its inode
  number, a socket the process that listens on it. \<open>m_lock\<close> holds the advisory locks by inode.
\<close>

record machine =
  m_node :: "string \<Rightarrow> node option"
  m_lock :: "nat \<Rightarrow> nat option"
  m_next :: nat

datatype syscall = SysStat | SysChmod | SysMkdir | SysOpen | SysFlock | SysUnlink | SysBind

record proc_env =
  pe_pid :: nat
  pe_uid :: u32
  pe_umask :: u32
  pe_fault :: "syscall \<Rightarrow> string option"

definition path_parent :: "string \<Rightarrow> string option" where
  "path_parent p =
     (if p = [] \<or> p = ''/'' then None
      else (let r = dropWhile (\<lambda>c. c \<noteq> CHR ''/'') (rev p) in
            Some (if r = ''/'' then ''/'' else rev (tl r))))"

fun follow :: "nat \<Rightarrow> machine \<Rightarrow> string \<Rightarrow> io_error + string" where
  "follow n m p =
     (case m_node m p of
        Some (Symlink t) \<Rightarrow> (case n of 0 \<Rightarrow> Inl ELoop | Suc n' \<Rightarrow> follow n' m t)
      | _ \<Rightarrow> Inr p)"

declare follow.simps [simp del]

text \<open>The kernel follows at most forty links.\<close>

definition max_links :: nat where
  "max_links = 40"

definition faulty :: "proc_env \<Rightarrow> syscall \<Rightarrow> io_error + 'a \<Rightarrow> io_error + 'a" where
  "faulty env call r = (case pe_fault env call of Some e \<Rightarrow> Inl (EOther e) | None \<Rightarrow> r)"

definition sys_stat :: "proc_env \<Rightarrow> machine \<Rightarrow> string \<Rightarrow> io_error + node" where
  "sys_stat env m p = faulty env SysStat
     (and_then (follow max_links m p) (\<lambda>q. ok_or ENoent (m_node m q)))"

definition is_dir :: "proc_env \<Rightarrow> machine \<Rightarrow> string \<Rightarrow> bool" where
  "is_dir env m p = (case sys_stat env m p of Inr (Directory _ _) \<Rightarrow> True | _ \<Rightarrow> False)"

text \<open>An entry can be made in a directory that exists; an empty parent is the current directory.\<close>

definition entry_allowed :: "machine \<Rightarrow> string \<Rightarrow> io_error + unit" where
  "entry_allowed m p =
     (case path_parent p of
        None \<Rightarrow> Inl EExist
      | Some d \<Rightarrow>
          if d = [] then Inr ()
          else and_then (follow max_links m d) (\<lambda>q.
            case m_node m q of
              None \<Rightarrow> Inl ENoent
            | Some (Directory _ _) \<Rightarrow> Inr ()
            | Some _ \<Rightarrow> Inl ENotdir))"

fun chmod_node :: "u32 \<Rightarrow> node \<Rightarrow> node" where
  "chmod_node md (Directory owner _) = Directory owner md"
| "chmod_node md (Regular ino owner _) = Regular ino owner md"
| "chmod_node md (SocketFile pid owner _) = SocketFile pid owner md"
| "chmod_node md (Symlink t) = Symlink t"

definition set_node :: "machine \<Rightarrow> string \<Rightarrow> node option \<Rightarrow> machine" where
  "set_node m p n = m\<lparr>m_node := (m_node m)(p := n)\<rparr>"

text \<open>A system call that may change the machine returns the machine after it.\<close>

type_synonym ('e, 'a) outcome = "('e + 'a) \<times> machine"

definition sys_chmod :: "proc_env \<Rightarrow> machine \<Rightarrow> string \<Rightarrow> u32 \<Rightarrow> (io_error, unit) outcome" where
  "sys_chmod env m p md =
     (case faulty env SysChmod (and_then (follow max_links m p) (\<lambda>q.
             ok_or ENoent (map_option (Pair q) (m_node m q)))) of
        Inl e \<Rightarrow> (Inl e, m)
      | Inr (q, n) \<Rightarrow> (Inr (), set_node m q (Some (chmod_node md n))))"

definition sys_mkdir :: "proc_env \<Rightarrow> machine \<Rightarrow> string \<Rightarrow> u32 \<Rightarrow> (io_error, unit) outcome" where
  "sys_mkdir env m p md =
     (case faulty env SysMkdir (if m_node m p \<noteq> None then Inl EExist else entry_allowed m p) of
        Inl e \<Rightarrow> (Inl e, m)
      | Inr _ \<Rightarrow> (Inr (), set_node m p (Some (Directory (pe_uid env) (md AND NOT (pe_umask env))))))"

text \<open>\<open>open\<close> for writing, with creation; the result is the inode.\<close>

definition sys_open :: "proc_env \<Rightarrow> machine \<Rightarrow> string \<Rightarrow> u32 \<Rightarrow> (io_error, nat) outcome" where
  "sys_open env m p md =
     (case faulty env SysOpen (follow max_links m p) of
        Inl e \<Rightarrow> (Inl e, m)
      | Inr q \<Rightarrow>
          (case m_node m q of
             Some (Regular ino _ _) \<Rightarrow> (Inr ino, m)
           | Some (Directory _ _) \<Rightarrow> (Inl EIsdir, m)
           | Some _ \<Rightarrow> (Inl ENxio, m)
           | None \<Rightarrow>
               (case entry_allowed m q of
                  Inl e \<Rightarrow> (Inl e, m)
                | Inr _ \<Rightarrow> (Inr (m_next m),
                    (set_node m q (Some (Regular (m_next m) (pe_uid env) (md AND NOT (pe_umask env)))))
                      \<lparr>m_next := Suc (m_next m)\<rparr>))))"

text \<open>\<open>flock\<close> with \<open>LOCK_EX | LOCK_NB\<close>.\<close>

definition sys_flock :: "proc_env \<Rightarrow> machine \<Rightarrow> nat \<Rightarrow> (io_error, unit) outcome" where
  "sys_flock env m ino =
     (case faulty env SysFlock (if m_lock m ino \<noteq> None then Inl EAgain else Inr ()) of
        Inl e \<Rightarrow> (Inl e, m)
      | Inr _ \<Rightarrow> (Inr (), m\<lparr>m_lock := (m_lock m)(ino \<mapsto> pe_pid env)\<rparr>))"

definition unlock :: "nat \<Rightarrow> machine \<Rightarrow> machine" where
  "unlock ino m = m\<lparr>m_lock := (m_lock m)(ino := None)\<rparr>"

definition sys_unlink :: "proc_env \<Rightarrow> machine \<Rightarrow> string \<Rightarrow> (io_error, unit) outcome" where
  "sys_unlink env m p =
     (case faulty env SysUnlink
            (case m_node m p of None \<Rightarrow> Inl ENoent | Some (Directory _ _) \<Rightarrow> Inl EIsdir | Some _ \<Rightarrow> Inr ()) of
        Inl e \<Rightarrow> (Inl e, m)
      | Inr _ \<Rightarrow> (Inr (), set_node m p None))"

text \<open>\<open>bind\<close> makes the socket under the umask; it fails on any entry, a dangling link too.\<close>

definition sys_bind :: "proc_env \<Rightarrow> machine \<Rightarrow> string \<Rightarrow> (io_error, unit) outcome" where
  "sys_bind env m p =
     (case faulty env SysBind (if m_node m p \<noteq> None then Inl EAddrinuse else entry_allowed m p) of
        Inl e \<Rightarrow> (Inl e, m)
      | Inr _ \<Rightarrow> (Inr (), set_node m p (Some (SocketFile (pe_pid env) (pe_uid env) (511 AND NOT (pe_umask env))))))"

section \<open>Errors of the server\<close>

datatype serve_error =
    SocketDirNotADirectory string
  | SocketDirNotOurs string u32 u32
  | SocketDir string io_error
  | StaleSocket string io_error
  | Bind string io_error
  | Permissions string io_error
  | AlreadyRunning string
  | Lock string io_error
  | Transport string

section \<open>The socket's directory\<close>

text \<open>\<open>DirBuilder\<close> with \<open>recursive(true)\<close>.\<close>

lemma path_parent_shorter:
  assumes "path_parent p = Some d"
  shows "length d < length p"
proof -
  let ?r = "dropWhile (\<lambda>c. c \<noteq> CHR ''/'') (rev p)"
  have p: "p \<noteq> []" "p \<noteq> ''/''" and d: "d = (if ?r = ''/'' then ''/'' else rev (tl ?r))"
    using assms by (auto simp: path_parent_def Let_def split: if_splits)
  have le: "length ?r \<le> length p" using length_dropWhile_le [of _ "rev p"] by simp
  show ?thesis
  proof (cases "?r = ''/''")
    case True
    have "length p \<noteq> 1"
    proof
      assume "length p = 1"
      then obtain c where "p = [c]" by (metis One_nat_def length_0_conv length_Suc_conv)
      with True p show False by (auto split: if_splits)
    qed
    with p d True show ?thesis by (cases p) auto
  next
    case False
    with d have "length d = length ?r - 1" by simp
    moreover have "length p \<noteq> 0" using p by simp
    ultimately show ?thesis using le by linarith
  qed
qed

function create_dir_all :: "proc_env \<Rightarrow> machine \<Rightarrow> string \<Rightarrow> (io_error, unit) outcome" where
  "create_dir_all env m p =
     (if p = [] then (Inr (), m)
      else case sys_mkdir env m p 448 of
        (Inr _, m1) \<Rightarrow> (Inr (), m1)
      | (Inl e, m1) \<Rightarrow>
          if e = ENoent then
            (case path_parent p of
               None \<Rightarrow> (Inl (EOther ''failed to create whole tree''), m)
             | Some d \<Rightarrow>
                 (case create_dir_all env m d of
                    (Inl e', m2) \<Rightarrow> (Inl e', m2)
                  | (Inr _, m2) \<Rightarrow>
                      (case sys_mkdir env m2 p 448 of
                         (Inr _, m3) \<Rightarrow> (Inr (), m3)
                       | (Inl e', m3) \<Rightarrow> (if is_dir env m3 p then Inr () else Inl e', m3))))
          else (if is_dir env m p then Inr () else Inl e, m))"
  by pat_completeness auto
termination
  by (relation "measure (\<lambda>(env, m, p). length p)") (auto dest: path_parent_shorter)

declare create_dir_all.simps [simp del]

text \<open>What \<open>prepare_socket_dir\<close> decides from the metadata, and then does.\<close>

datatype dir_action = Refuse serve_error | Accept | Tighten | Create

definition dir_verdict :: "proc_env \<Rightarrow> string \<Rightarrow> io_error + node \<Rightarrow> dir_action" where
  "dir_verdict env dir md =
     (case md of
        Inr (Directory owner perm) \<Rightarrow>
          if owner = pe_uid env then (if perm AND 63 \<noteq> 0 then Tighten else Accept)
          else if \<not> (owner = 0 \<and> perm AND 512 \<noteq> 0) then Refuse (SocketDirNotOurs dir owner (pe_uid env))
          else Accept
      | Inr _ \<Rightarrow> Refuse (SocketDirNotADirectory dir)
      | Inl e \<Rightarrow> if e = ENoent then Create else Refuse (SocketDir dir e))"

fun perform_action :: "proc_env \<Rightarrow> string \<Rightarrow> dir_action \<Rightarrow> machine \<Rightarrow> (serve_error, unit) outcome" where
  "perform_action env dir (Refuse e) m = (Inl e, m)"
| "perform_action env dir Accept m = (Inr (), m)"
| "perform_action env dir Tighten m = apfst (map_err (SocketDir dir)) (sys_chmod env m dir 448)"
| "perform_action env dir Create m = apfst (map_err (SocketDir dir)) (create_dir_all env m dir)"

definition prepare_socket_dir :: "proc_env \<Rightarrow> machine \<Rightarrow> string \<Rightarrow> (serve_error, unit) outcome" where
  "prepare_socket_dir env m dir = perform_action env dir (dir_verdict env dir (sys_stat env m dir)) m"

section \<open>The lock and the socket\<close>

definition lock_path :: "string \<Rightarrow> string" where
  "lock_path sock = sock @ ''.lock''"

definition open_lock :: "proc_env \<Rightarrow> machine \<Rightarrow> string \<Rightarrow> (serve_error, nat) outcome" where
  "open_lock env m sock = apfst (map_err (Lock (lock_path sock))) (sys_open env m (lock_path sock) 384)"

definition take_lock :: "proc_env \<Rightarrow> machine \<Rightarrow> string \<Rightarrow> nat \<Rightarrow> (serve_error, unit) outcome" where
  "take_lock env m sock ino =
     apfst (map_err (\<lambda>e. if e = EAgain then AlreadyRunning sock else Lock (lock_path sock) e))
       (sys_flock env m ino)"

definition acquire_lock :: "proc_env \<Rightarrow> machine \<Rightarrow> string \<Rightarrow> (serve_error, nat) outcome" where
  "acquire_lock env m sock =
     seq (open_lock env m sock) (\<lambda>ino m. seq (take_lock env m sock ino) (\<lambda>_ m. (Inr ino, m)))"

definition clear_stale :: "proc_env \<Rightarrow> machine \<Rightarrow> string \<Rightarrow> (serve_error, unit) outcome" where
  "clear_stale env m sock =
     (case sys_unlink env m sock of
        (Inr _, m') \<Rightarrow> (Inr (), m')
      | (Inl e, m') \<Rightarrow> (if e = ENoent then Inr () else Inl (StaleSocket sock e), m'))"

definition bind_socket :: "proc_env \<Rightarrow> machine \<Rightarrow> string \<Rightarrow> (serve_error, unit) outcome" where
  "bind_socket env m sock = apfst (map_err (Bind sock)) (sys_bind env m sock)"

definition restrict_socket :: "proc_env \<Rightarrow> machine \<Rightarrow> string \<Rightarrow> (serve_error, unit) outcome" where
  "restrict_socket env m sock = apfst (map_err (Permissions sock)) (sys_chmod env m sock 384)"

text \<open>The lock is a file handle: an early return drops it.\<close>

fun release_on_error :: "nat \<Rightarrow> ('e, 'a) outcome \<Rightarrow> ('e, 'a) outcome" where
  "release_on_error ino (Inl e, m) = (Inl e, unlock ino m)"
| "release_on_error ino (Inr x, m) = (Inr x, m)"

definition bind_listener :: "proc_env \<Rightarrow> machine \<Rightarrow> string \<Rightarrow> (serve_error, nat) outcome" where
  "bind_listener env m sock =
     seq (case path_parent sock of Some dir \<Rightarrow> prepare_socket_dir env m dir | None \<Rightarrow> (Inr (), m)) (\<lambda>_ m.
     seq (acquire_lock env m sock) (\<lambda>ino m.
       release_on_error ino
         (seq (clear_stale env m sock) (\<lambda>_ m.
          seq (bind_socket env m sock) (\<lambda>_ m.
          seq (restrict_socket env m sock) (\<lambda>_ m. (Inr ino, m)))))))"

section \<open>A daemon, one system call at a time\<close>

text \<open>
  Where a daemon is: about to look at the directory, to act on what it saw, to open the lock
  file, to lock it, to remove a stale socket, to bind, to restrict the socket; serving; closing
  down with the lock released; ended. The number is the inode of the lock file.
\<close>

datatype pc =
    Starting
  | Vetting dir_action
  | Opening
  | Locking nat
  | Clearing nat
  | Binding nat
  | Restricting nat
  | Serving nat
  | Closing
  | Ended "serve_error option"

text \<open>The clean-up of \<open>hired/src/main.rs\<close>: the socket file is removed if the path resolves.\<close>

definition cleanup :: "proc_env \<Rightarrow> machine \<Rightarrow> string \<Rightarrow> machine" where
  "cleanup env m sock =
     (case sys_stat env m sock of Inl _ \<Rightarrow> m | Inr _ \<Rightarrow> snd (sys_unlink env m sock))"

fun then_go :: "pc \<Rightarrow> (serve_error, unit) outcome \<Rightarrow> pc \<times> machine" where
  "then_go next (Inr _, m) = (next, m)"
| "then_go next (Inl e, m) = (Ended (Some e), m)"

fun advance :: "proc_env \<Rightarrow> string \<Rightarrow> pc \<times> machine \<Rightarrow> pc \<times> machine" where
  "advance env sock (Starting, m) =
     (case path_parent sock of
        Some dir \<Rightarrow> (Vetting (dir_verdict env dir (sys_stat env m dir)), m)
      | None \<Rightarrow> (Opening, m))"
| "advance env sock (Vetting act, m) =
     (case path_parent sock of
        Some dir \<Rightarrow> then_go Opening (perform_action env dir act m)
      | None \<Rightarrow> (Opening, m))"
| "advance env sock (Opening, m) =
     (case open_lock env m sock of (Inr ino, m') \<Rightarrow> (Locking ino, m') | (Inl e, m') \<Rightarrow> (Ended (Some e), m'))"
| "advance env sock (Locking ino, m) = then_go (Clearing ino) (take_lock env m sock ino)"
| "advance env sock (Clearing ino, m) =
     then_go (Binding ino) (release_on_error ino (clear_stale env m sock))"
| "advance env sock (Binding ino, m) =
     then_go (Restricting ino) (release_on_error ino (bind_socket env m sock))"
| "advance env sock (Restricting ino, m) =
     then_go (Serving ino) (release_on_error ino (restrict_socket env m sock))"
| "advance env sock (Closing, m) = (Ended None, cleanup env m sock)"
| "advance env sock (c, m) = (c, m)"

section \<open>Lemmas\<close>

text \<open>A daemon that is not interrupted does what \<open>bind_listener\<close> does.\<close>

fun start_outcome :: "(serve_error, nat) outcome \<Rightarrow> pc \<times> machine" where
  "start_outcome (Inr ino, m) = (Serving ino, m)"
| "start_outcome (Inl e, m) = (Ended (Some e), m)"

lemma release_seq:
  "release_on_error ino (seq r f) =
     (case r of (Inl e, m) \<Rightarrow> (Inl e, unlock ino m) | (Inr x, m) \<Rightarrow> release_on_error ino (f x m))"
  by (cases "(r, f)" rule: seq.cases) auto

lemma then_go_case: "then_go next r = (case r of (Inr _, m) \<Rightarrow> (next, m) | (Inl e, m) \<Rightarrow> (Ended (Some e), m))"
  by (cases "(next, r)" rule: then_go.cases) auto

lemma advance_ended: "(advance env sock ^^ n) (Ended e, m) = (Ended e, m)"
  "(advance env sock ^^ n) (Serving i, m) = (Serving i, m)"
  by (induction n) auto

lemma advance_from_Clearing:
  "(advance env sock ^^ (3 + n)) (Clearing ino, m) = start_outcome (release_on_error ino
     (seq (clear_stale env m sock) (\<lambda>_ m.
      seq (bind_socket env m sock) (\<lambda>_ m.
      seq (restrict_socket env m sock) (\<lambda>_ m. (Inr ino, m))))))"
  by (auto simp: eval_nat_numeral funpow_swap1 advance_ended release_seq split: prod.split sum.split)

lemma advance_from_Opening:
  "(advance env sock ^^ (5 + n)) (Opening, m) = start_outcome (seq (acquire_lock env m sock) (\<lambda>ino m.
     release_on_error ino
     (seq (clear_stale env m sock) (\<lambda>_ m.
      seq (bind_socket env m sock) (\<lambda>_ m.
      seq (restrict_socket env m sock) (\<lambda>_ m. (Inr ino, m)))))))"
proof -
  have "(advance env sock ^^ (5 + n)) (Opening, m)
      = (advance env sock ^^ (3 + n)) (advance env sock (advance env sock (Opening, m)))"
    by (simp add: eval_nat_numeral funpow_swap1)
  then show ?thesis
    by (auto simp: acquire_lock_def then_go_case seq_case [of "take_lock _ _ _ _"] seq_case [of "open_lock _ _ _"]
        advance_from_Clearing advance_ended split: prod.split sum.split)
qed

lemma advance_runs_bind_listener:
  "(advance env sock ^^ 7) (Starting, m) = start_outcome (bind_listener env m sock)"
proof (cases "path_parent sock")
  case None
  have "(advance env sock ^^ 7) (Starting, m) = (advance env sock ^^ (5 + 1)) (advance env sock (Starting, m))"
    by (simp add: eval_nat_numeral funpow_swap1)
  with None show ?thesis by (simp add: advance_from_Opening [where n = 1, simplified] bind_listener_def)
next
  case (Some dir)
  have "(advance env sock ^^ 7) (Starting, m)
      = (advance env sock ^^ (5 + 0)) (advance env sock (advance env sock (Starting, m)))"
    by (simp add: eval_nat_numeral funpow_swap1)
  with Some show ?thesis
    by (auto simp: then_go_case seq_case [of "perform_action _ _ _ _"] advance_from_Opening [where n = 0, simplified]
        advance_ended bind_listener_def prepare_socket_dir_def split: prod.split sum.split)
qed

section \<open>What the calls leave alone\<close>

definition plain :: "machine \<Rightarrow> string \<Rightarrow> bool" where
  "plain m p \<longleftrightarrow> (case m_node m p of Some (Symlink _) \<Rightarrow> False | _ \<Rightarrow> True)"

lemma plain_follow: "plain m p \<Longrightarrow> follow n m p = Inr p"
  by (subst follow.simps) (auto simp: plain_def split: option.splits node.splits)

lemma set_node_simps [simp]:
  "m_node (set_node m p n) q = (if q = p then n else m_node m q)"
  "m_lock (set_node m p n) = m_lock m" "m_next (set_node m p n) = m_next m"
  by (simp_all add: set_node_def)

lemma unlock_simps [simp]:
  "m_node (unlock ino m) = m_node m" "m_lock (unlock ino m) = (m_lock m)(ino := None)"
  by (simp_all add: unlock_def)

lemma faulty_Inr: "faulty env call r = Inr x \<longleftrightarrow> pe_fault env call = None \<and> r = Inr x"
  by (auto simp: faulty_def split: option.splits)

lemma faulty_ENoent: "faulty env call r = Inl e \<Longrightarrow> (\<exists>t. e = EOther t) \<or> r = Inl e"
  by (auto simp: faulty_def split: option.splits)

lemma sys_mkdir_cases:
  obtains (made) "sys_mkdir env m p md = (Inr (), set_node m p (Some (Directory (pe_uid env) (md AND NOT (pe_umask env)))))"
      "m_node m p = None"
  | (not_made) e where "sys_mkdir env m p md = (Inl e, m)" "e = ENoent \<Longrightarrow> m_node m p = None"
proof (cases "faulty env SysMkdir (if m_node m p \<noteq> None then Inl EExist else entry_allowed m p)")
  case (Inl e)
  then have "sys_mkdir env m p md = (Inl e, m)" by (simp add: sys_mkdir_def)
  moreover have "e = ENoent \<Longrightarrow> m_node m p = None" using faulty_ENoent [OF Inl] by (auto split: if_splits)
  ultimately show thesis by (rule not_made)
next
  case (Inr u)
  then have "m_node m p = None" by (auto simp: faulty_Inr split: if_splits)
  with Inr show thesis by (intro made) (simp_all add: sys_mkdir_def)
qed

lemma create_dir_all_frame:
  "m_lock (snd (create_dir_all env m p)) = m_lock m \<and>
   (\<forall>q. length p < length q \<longrightarrow> m_node (snd (create_dir_all env m p)) q = m_node m q)"
proof (induction env m p rule: create_dir_all.induct)
  case (1 env m p)
  show ?case
  proof (cases "p = []")
    case False
    note eq = create_dir_all.simps [of env m p]
    show ?thesis
    proof (cases rule: sys_mkdir_cases [where env = env and m = m and p = p and md = 448])
      case (not_made e)
      show ?thesis
      proof (cases "e = ENoent \<and> path_parent p \<noteq> None")
        case True
        then obtain d where d: "path_parent p = Some d" by auto
        note IH = "1.IH" [OF False not_made(1) [symmetric] refl _ d]
        have shorter: "length d < length p" using d by (rule path_parent_shorter)
        obtain r m2 where c: "create_dir_all env m d = (r, m2)" by fastforce
        show ?thesis
        proof (cases r)
          case (Inl e')
          with True IH c shorter show ?thesis by (auto simp: eq False not_made(1) d)
        next
          case (Inr u)
          from True IH c shorter have k: "m_lock m2 = m_lock m" "length p < length q \<Longrightarrow> m_node m2 q = m_node m q" for q
            by auto
          show ?thesis
            by (cases rule: sys_mkdir_cases [where env = env and m = m2 and p = p and md = 448])
              (use True c k Inr in \<open>auto simp: eq False not_made(1) d\<close>)
        qed
      qed (auto simp: eq False not_made(1))
    qed (auto simp: eq False)
  qed (simp add: create_dir_all.simps)
qed

definition fresh_dir :: "proc_env \<Rightarrow> node" where
  "fresh_dir env = Directory (pe_uid env) (448 AND NOT (pe_umask env))"

lemma is_dir_plain: "plain m p \<Longrightarrow> is_dir env m p \<Longrightarrow> \<exists>owner perm. m_node m p = Some (Directory owner perm)"
  by (auto simp: is_dir_def sys_stat_def plain_follow faulty_def split: option.splits sum.splits node.splits)

lemma create_dir_all_at:
  assumes c: "create_dir_all env m p = (r, m')" and pl: "plain m p"
  shows "m_node m' p = m_node m p \<and> (r = Inr () \<and> p \<noteq> [] \<longrightarrow> (\<exists>owner perm. m_node m p = Some (Directory owner perm)))
    \<or> m_node m p = None \<and> m_node m' p = Some (fresh_dir env)"
proof (cases "p = []")
  case False
  note eq = create_dir_all.simps [of env m p]
  show ?thesis
  proof (cases rule: sys_mkdir_cases [where env = env and m = m and p = p and md = 448])
    case made
    with c show ?thesis by (auto simp: eq False fresh_dir_def)
  next
    case (not_made e)
    show ?thesis
    proof (cases "e = ENoent \<and> path_parent p \<noteq> None")
      case True
      then obtain d where d: "path_parent p = Some d" by auto
      obtain r' m2 where c': "create_dir_all env m d = (r', m2)" by fastforce
      with create_dir_all_frame [of env m d] path_parent_shorter [OF d]
      have same: "m_node m2 p = m_node m p" by auto
      with pl have pl2: "plain m2 p" by (simp add: plain_def)
      show ?thesis
        by (cases rule: sys_mkdir_cases [where env = env and m = m2 and p = p and md = 448])
          (use c c' same True is_dir_plain [OF pl2, of env] in
            \<open>auto simp: eq False not_made(1) d fresh_dir_def split: sum.splits if_splits\<close>)
    next
      case Other: False
      with c not_made pl is_dir_plain [OF pl, of env] show ?thesis
        by (auto simp: eq False not_made(1) split: if_splits option.splits)
    qed
  qed
qed (use c in \<open>simp add: create_dir_all.simps\<close>)

section \<open>Properties\<close>

text \<open>
  The daemon that is followed one system call at a time, and interleaved with others in what
  follows, is \<open>bind_listener\<close>: left alone, it reaches in seven steps exactly the outcome of that
  function, on every path: serving with the lock held, or ended with its error, with the machine
  in the same state.
\<close>

theorem bind_listener_in_steps:
  "(advance env sock ^^ 7) (Starting, m) = start_outcome (bind_listener env m sock)"
  by (rule advance_runs_bind_listener)

end
