(* ===== verification/Server_Fleet.thy ===== *)
theory Server_Fleet
  imports Server
begin

text \<open>
  Any number of daemons of one user started for one socket path, interleaved one system call
  at a time, with signals, crashes and, where a theorem admits it, another local user who makes
  the socket's directory first.
\<close>

section \<open>The step relation\<close>

record fleet =
  ft_machine :: machine
  ft_pc :: "nat \<Rightarrow> pc"

text \<open>The lock file a daemon has opened, and the one it has locked.\<close>

fun holds :: "pc \<Rightarrow> nat option" where
  "holds (Clearing ino) = Some ino"
| "holds (Binding ino) = Some ino"
| "holds (Restricting ino) = Some ino"
| "holds (Serving ino) = Some ino"
| "holds _ = None"

fun opened :: "pc \<Rightarrow> nat option" where
  "opened (Locking ino) = Some ino"
| "opened c = holds c"

definition drop_locks :: "pc \<Rightarrow> machine \<Rightarrow> machine" where
  "drop_locks c m = (case holds c of Some ino \<Rightarrow> unlock ino m | None \<Rightarrow> m)"

text \<open>
  A signal ends a daemon that serves, or that has not yet begun to: \<open>select!\<close> may take the
  signal's branch first. The lock goes when the server's future is dropped, and the clean-up
  comes after. A transport error ends it without clean-up. A daemon may die at any point; the
  kernel drops its lock.
\<close>

inductive dstep :: "string \<Rightarrow> u32 \<Rightarrow> bool \<Rightarrow> bool \<Rightarrow> fleet \<Rightarrow> fleet \<Rightarrow> bool"
  for sock :: string and uid :: u32 and signals :: bool and intruders :: bool where
  advances: "pe_pid env = p \<Longrightarrow> pe_uid env = uid \<Longrightarrow> advance env sock (ft_pc f p, ft_machine f) = (c, m) \<Longrightarrow>
    dstep sock uid signals intruders f \<lparr>ft_machine = m, ft_pc = (ft_pc f)(p := c)\<rparr>"
| stops: "signals \<Longrightarrow> ft_pc f p = Starting \<or> (\<exists>ino. ft_pc f p = Serving ino) \<Longrightarrow>
    dstep sock uid signals intruders f
      \<lparr>ft_machine = drop_locks (ft_pc f p) (ft_machine f), ft_pc = (ft_pc f)(p := Closing)\<rparr>"
| fails: "ft_pc f p = Serving ino \<Longrightarrow>
    dstep sock uid signals intruders f
      \<lparr>ft_machine = drop_locks (ft_pc f p) (ft_machine f), ft_pc = (ft_pc f)(p := Ended (Some (Transport e)))\<rparr>"
| dies: "dstep sock uid signals intruders f
      \<lparr>ft_machine = drop_locks (ft_pc f p) (ft_machine f), ft_pc = (ft_pc f)(p := Ended None)\<rparr>"
| intrudes: "intruders \<Longrightarrow> path_parent sock = Some dir \<Longrightarrow> m_node (ft_machine f) dir = None \<Longrightarrow> owner \<noteq> uid \<Longrightarrow>
    dstep sock uid signals intruders f
      \<lparr>ft_machine = set_node (ft_machine f) dir (Some (Directory owner perm)), ft_pc = ft_pc f\<rparr>"

inductive_cases dstep_elim: "dstep sock uid signals intruders f f'"

text \<open>
  Before any daemon runs: no lock is held, and no link stands where the lock file or the
  socket's directory goes.
\<close>

definition initial_fleet :: "string \<Rightarrow> fleet \<Rightarrow> bool" where
  "initial_fleet sock f \<longleftrightarrow> ft_pc f = (\<lambda>_. Starting) \<and> m_lock (ft_machine f) = (\<lambda>_. None)
     \<and> plain (ft_machine f) (lock_path sock)
     \<and> (\<forall>dir. path_parent sock = Some dir \<longrightarrow> plain (ft_machine f) dir)"

definition reaches :: "string \<Rightarrow> u32 \<Rightarrow> bool \<Rightarrow> bool \<Rightarrow> fleet \<Rightarrow> fleet \<Rightarrow> bool" where
  "reaches sock uid signals intruders = (dstep sock uid signals intruders)\<^sup>*\<^sup>*"

section \<open>The lock file\<close>

definition lock_ino :: "machine \<Rightarrow> string \<Rightarrow> nat option" where
  "lock_ino m sock = (case m_node m (lock_path sock) of Some (Regular ino _ _) \<Rightarrow> Some ino | _ \<Rightarrow> None)"

text \<open>A change that keeps the lock file what it is.\<close>

definition keeps_lock :: "string \<Rightarrow> machine \<Rightarrow> machine \<Rightarrow> bool" where
  "keeps_lock sock m m' \<longleftrightarrow> (plain m (lock_path sock) \<longrightarrow> plain m' (lock_path sock))
     \<and> (\<forall>ino. lock_ino m sock = Some ino \<longrightarrow> lock_ino m' sock = Some ino)"

lemma keeps_lock_same: "m_node m' (lock_path sock) = m_node m (lock_path sock) \<Longrightarrow> keeps_lock sock m m'"
  by (simp add: keeps_lock_def plain_def lock_ino_def)

lemma keeps_lock_unlock [simp]: "keeps_lock sock m (unlock ino m') \<longleftrightarrow> keeps_lock sock m m'"
  by (simp add: keeps_lock_def plain_def lock_ino_def)

lemma lock_path_ne [simp]: "lock_path sock \<noteq> sock"
  by (simp add: lock_path_def)

lemma keeps_lock_chmod: "keeps_lock sock m (snd (sys_chmod env m p md))"
proof -
  have "keeps_lock sock m (set_node m q (Some (chmod_node md n)))" if "m_node m q = Some n" for q n
    using that by (cases n) (auto simp: keeps_lock_def plain_def lock_ino_def)
  then show ?thesis
    by (auto simp: sys_chmod_def faulty_Inr split: sum.splits prod.splits intro: keeps_lock_same)
qed

lemma keeps_lock_create: "length p < length (lock_path sock) \<Longrightarrow> keeps_lock sock m (snd (create_dir_all env m p))"
  using create_dir_all_frame [of env m p] by (intro keeps_lock_same) simp

lemma keeps_lock_unlink: "keeps_lock sock m (snd (sys_unlink env m sock))"
  by (auto simp: sys_unlink_def split: sum.splits intro: keeps_lock_same)

lemma keeps_lock_bind: "keeps_lock sock m (snd (sys_bind env m sock))"
  by (auto simp: sys_bind_def split: sum.splits intro: keeps_lock_same)

lemma keeps_lock_open: "plain m (lock_path sock) \<Longrightarrow> keeps_lock sock m (snd (sys_open env m (lock_path sock) md))"
  by (auto simp: sys_open_def plain_follow faulty_def keeps_lock_def plain_def lock_ino_def
      split: sum.splits option.splits node.splits)

lemma sys_open_lock_ino:
  "plain m (lock_path sock) \<Longrightarrow> sys_open env m (lock_path sock) md = (Inr ino, m') \<Longrightarrow>
     lock_ino m' sock = Some ino"
  by (auto simp: sys_open_def plain_follow faulty_def lock_ino_def split: sum.splits option.splits node.splits)

lemma keeps_lock_perform:
  assumes "path_parent sock = Some dir"
  shows "keeps_lock sock m (snd (perform_action env dir act m))"
proof -
  have "length dir < length (lock_path sock)"
    using path_parent_shorter [OF assms] by (simp add: lock_path_def)
  then show ?thesis
    by (cases act) (simp_all add: keeps_lock_same keeps_lock_chmod keeps_lock_create)
qed

lemma snd_then_go [simp]: "snd (then_go c r) = snd r"
  by (cases "(c, r)" rule: then_go.cases) auto

lemma snd_release: "snd (release_on_error ino r) = snd r \<or> snd (release_on_error ino r) = unlock ino (snd r)"
  by (cases "(ino, r)" rule: release_on_error.cases) auto

lemma keeps_lock_release: "keeps_lock sock m (snd r) \<Longrightarrow> keeps_lock sock m (snd (release_on_error ino r))"
  using snd_release [of ino r] by auto

lemma advance_keeps_lock:
  assumes "plain m (lock_path sock)"
  shows "keeps_lock sock m (snd (advance env sock (c, m)))"
proof (cases c)
  case (Vetting act)
  then show ?thesis by (auto simp: keeps_lock_same keeps_lock_perform split: option.split)
next
  case Opening
  then show ?thesis
    using keeps_lock_open [OF assms, of env 384]
    by (cases "sys_open env m (lock_path sock) 384") (auto simp: open_lock_def split: sum.splits)
next
  case (Locking ino)
  then show ?thesis
    by (auto simp: take_lock_def sys_flock_def split: sum.splits intro: keeps_lock_same)
next
  case (Clearing ino)
  have "snd (clear_stale env m sock) = snd (sys_unlink env m sock)"
    by (auto simp: clear_stale_def split: prod.splits sum.splits)
  then show ?thesis using Clearing keeps_lock_unlink by (auto intro!: keeps_lock_release)
next
  case (Binding ino)
  then show ?thesis by (auto simp: bind_socket_def intro!: keeps_lock_release keeps_lock_bind)
next
  case (Restricting ino)
  then show ?thesis by (auto simp: restrict_socket_def intro!: keeps_lock_release keeps_lock_chmod)
next
  case Closing
  then show ?thesis by (auto simp: cleanup_def keeps_lock_same keeps_lock_unlink split: sum.split)
qed (auto simp: keeps_lock_same split: option.split)

section \<open>Who holds the lock\<close>

lemma take_lock_cases:
  obtains (taken) "take_lock env m sock ino = (Inr (), m\<lparr>m_lock := (m_lock m)(ino \<mapsto> pe_pid env)\<rparr>)" "m_lock m ino = None"
  | (refused) e where "take_lock env m sock ino = (Inl e, m)"
proof (cases "faulty env SysFlock (if m_lock m ino \<noteq> None then Inl EAgain else Inr ())")
  case (Inl e)
  then show thesis by (intro refused) (simp add: take_lock_def sys_flock_def)
next
  case (Inr u)
  then show thesis
    by (intro taken) (auto simp: take_lock_def sys_flock_def faulty_def split: if_splits option.splits)
qed

lemma call_keeps_locks [simp]:
  "m_lock (snd (sys_chmod env m p md)) = m_lock m" "m_lock (snd (sys_unlink env m p)) = m_lock m"
  "m_lock (snd (sys_bind env m p)) = m_lock m" "m_lock (snd (sys_open env m p md)) = m_lock m"
  "m_lock (snd (create_dir_all env m p)) = m_lock m" "m_lock (cleanup env m p) = m_lock m"
  "m_lock (snd (clear_stale env m p)) = m_lock m"
proof -
  show unlink: "m_lock (snd (sys_unlink env m p)) = m_lock m" for m
    by (auto simp: sys_unlink_def split: sum.split)
  show "m_lock (cleanup env m p) = m_lock m" by (simp add: cleanup_def unlink split: sum.split)
  show "m_lock (snd (clear_stale env m p)) = m_lock m"
    using unlink [of m] by (auto simp: clear_stale_def split: prod.splits sum.splits)
qed (auto simp: sys_chmod_def sys_bind_def sys_open_def create_dir_all_frame
    split: sum.split prod.split option.split node.split)

lemma perform_keeps_locks [simp]: "m_lock (snd (perform_action env dir act m)) = m_lock m"
  by (cases act) simp_all

text \<open>What a step of a daemon does to the locks: nothing, or it takes one that is free, or it
  drops the one it held.\<close>

lemma advance_after_lock:
  assumes "then_go next (release_on_error ino r) = (c', m')" "holds next = Some ino"
  shows "holds c' = Some ino \<and> m_lock m' = m_lock (snd r)
    \<or> holds c' = None \<and> m_lock m' = (m_lock (snd r))(ino := None)"
  using assms by (cases "(ino, r)" rule: release_on_error.cases) auto

lemma advance_locks:
  assumes "advance env sock (c, m) = (c', m')"
  shows "holds c' = holds c \<and> m_lock m' = m_lock m
    \<or> (\<exists>ino. c = Locking ino \<and> holds c' = Some ino \<and> m_lock m ino = None \<and> m_lock m' = (m_lock m)(ino \<mapsto> pe_pid env))
    \<or> (\<exists>ino. holds c = Some ino \<and> holds c' = None \<and> m_lock m' = (m_lock m)(ino := None))"
proof (cases c)
  case Starting
  with assms show ?thesis by (auto split: option.splits)
next
  case (Vetting act)
  show ?thesis
  proof (cases "path_parent sock")
    case (Some dir)
    obtain r m1 where r: "perform_action env dir act m = (r, m1)" by fastforce
    with perform_keeps_locks [of env dir act m] have "m_lock m1 = m_lock m" by simp
    with Vetting assms Some r show ?thesis by (cases r) auto
  qed (use Vetting assms in auto)
next
  case Opening
  have "m_lock (snd (open_lock env m sock)) = m_lock m" by (simp add: open_lock_def)
  with Opening assms show ?thesis by (auto split: prod.splits sum.splits)
next
  case (Locking ino)
  with assms show ?thesis by (cases rule: take_lock_cases [where env = env and m = m and sock = sock and ino = ino]) auto
next
  case (Clearing ino)
  with assms advance_after_lock [of "Binding ino" ino "clear_stale env m sock" c' m'] show ?thesis by auto
next
  case (Binding ino)
  with assms advance_after_lock [of "Restricting ino" ino "bind_socket env m sock" c' m'] show ?thesis
    by (auto simp: bind_socket_def)
next
  case (Restricting ino)
  with assms advance_after_lock [of "Serving ino" ino "restrict_socket env m sock" c' m'] show ?thesis
    by (auto simp: restrict_socket_def)
qed (use assms in auto)

lemma advance_opened:
  assumes "advance env sock (c, m) = (c', m')" "plain m (lock_path sock)" "opened c' = Some ino"
  shows "opened c = Some ino \<or> lock_ino m' sock = Some ino"
proof (cases c)
  case (Vetting act)
  with assms show ?thesis
    by (cases "(Opening, perform_action env (the (path_parent sock)) act m)" rule: then_go.cases)
      (auto split: option.splits)
next
  case Opening
  with assms show ?thesis
    by (cases "sys_open env m (lock_path sock) 384")
      (auto simp: open_lock_def dest: sys_open_lock_ino split: sum.splits)
next
  case (Locking i)
  with assms show ?thesis by (cases "(Clearing i, take_lock env m sock i)" rule: then_go.cases) auto
next
  case (Clearing i)
  with assms show ?thesis
    by (cases "(Binding i, release_on_error i (clear_stale env m sock))" rule: then_go.cases) auto
next
  case (Binding i)
  with assms show ?thesis
    by (cases "(Restricting i, release_on_error i (bind_socket env m sock))" rule: then_go.cases) auto
next
  case (Restricting i)
  with assms show ?thesis
    by (cases "(Serving i, release_on_error i (restrict_socket env m sock))" rule: then_go.cases) auto
qed (use assms in \<open>auto split: option.splits\<close>)

section \<open>The lock invariant\<close>

definition lock_inv :: "string \<Rightarrow> fleet \<Rightarrow> bool" where
  "lock_inv sock f \<longleftrightarrow> plain (ft_machine f) (lock_path sock)
     \<and> (\<forall>p ino. opened (ft_pc f p) = Some ino \<longrightarrow> lock_ino (ft_machine f) sock = Some ino)
     \<and> (\<forall>p ino. m_lock (ft_machine f) ino = Some p \<longleftrightarrow> holds (ft_pc f p) = Some ino)"

lemma holds_opened: "holds c = Some ino \<Longrightarrow> opened c = Some ino"
  by (cases c) auto

lemma drop_locks_simps [simp]:
  "m_node (drop_locks c m) = m_node m"
  "m_lock (drop_locks c m) = (case holds c of Some ino \<Rightarrow> (m_lock m)(ino := None) | None \<Rightarrow> m_lock m)"
  by (auto simp: drop_locks_def split: option.split)

lemma lock_inv_same_node:
  "m_node m (lock_path sock) = m_node (ft_machine f) (lock_path sock) \<Longrightarrow>
     plain m (lock_path sock) = plain (ft_machine f) (lock_path sock) \<and> lock_ino m sock = lock_ino (ft_machine f) sock"
  by (simp add: plain_def lock_ino_def)

lemma lock_inv_drop:
  assumes "lock_inv sock f" "opened c = None"
  shows "lock_inv sock \<lparr>ft_machine = drop_locks (ft_pc f p) (ft_machine f), ft_pc = (ft_pc f)(p := c)\<rparr>"
proof -
  have "holds c = None" using assms(2) holds_opened by (metis not_None_eq)
  moreover from assms(1) have lk: "\<And>q ino. m_lock (ft_machine f) ino = Some q \<longleftrightarrow> holds (ft_pc f q) = Some ino"
    unfolding lock_inv_def by auto
  moreover have "holds (ft_pc f q) = Some ino \<Longrightarrow> holds (ft_pc f p) = Some ino \<Longrightarrow> q = p" for q ino
    using lk by (metis option.inject)
  ultimately have "m_lock (drop_locks (ft_pc f p) (ft_machine f)) ino = Some q
      \<longleftrightarrow> holds (((ft_pc f)(p := c)) q) = Some ino" for q ino
    by (auto split: option.splits)
  with assms lock_inv_same_node [of "drop_locks (ft_pc f p) (ft_machine f)" sock f] show ?thesis
    unfolding lock_inv_def by simp
qed

lemma lock_inv_advance:
  assumes inv: "lock_inv sock f" and step: "advance env sock (ft_pc f p, ft_machine f) = (c, m)" and "pe_pid env = p"
  shows "lock_inv sock \<lparr>ft_machine = m, ft_pc = (ft_pc f)(p := c)\<rparr>"
proof -
  let ?m = "ft_machine f"
  from inv have pl: "plain ?m (lock_path sock)"
    and op: "\<And>q ino. opened (ft_pc f q) = Some ino \<Longrightarrow> lock_ino ?m sock = Some ino"
    and lk: "\<And>q ino. m_lock ?m ino = Some q \<longleftrightarrow> holds (ft_pc f q) = Some ino"
    unfolding lock_inv_def by auto
  from advance_keeps_lock [OF pl, of env "ft_pc f p"] step have keep: "keeps_lock sock ?m m" by simp
  have "plain m (lock_path sock)" using keep pl by (simp add: keeps_lock_def)
  moreover have "lock_ino m sock = Some ino" if "opened (((ft_pc f)(p := c)) q) = Some ino" for q ino
    using that advance_opened [OF step pl, of ino] op keep by (auto simp: keeps_lock_def split: if_splits)
  moreover have "m_lock m ino = Some q \<longleftrightarrow> holds (((ft_pc f)(p := c)) q) = Some ino" for q ino
    using advance_locks [OF step] lk [of ino q] lk [of ino p] \<open>pe_pid env = p\<close>
    by (auto split: if_splits)
  ultimately show ?thesis unfolding lock_inv_def by simp
qed

lemma lock_inv_step:
  assumes "lock_inv sock f" "dstep sock uid signals intruders f f'"
  shows "lock_inv sock f'"
  using assms(2)
proof (cases rule: dstep.cases)
  case (intrudes dir owner perm)
  have "dir \<noteq> lock_path sock" using path_parent_shorter [OF intrudes(3)] by (auto simp: lock_path_def)
  with assms(1) show ?thesis
    using lock_inv_same_node [of "ft_machine f'" sock f] unfolding intrudes(1) lock_inv_def by simp
next
  case (advances env p c m)
  then show ?thesis using lock_inv_advance [OF assms(1)] by simp
next
  case (fails p ino e)
  show ?thesis unfolding fails(1) by (rule lock_inv_drop [OF assms(1)]) simp
next
  case (stops p)
  show ?thesis unfolding stops(1) by (rule lock_inv_drop [OF assms(1)]) simp
next
  case (dies p)
  show ?thesis unfolding dies(1) by (rule lock_inv_drop [OF assms(1)]) simp
qed

lemma lock_inv_initial: "initial_fleet sock f \<Longrightarrow> lock_inv sock f"
  by (simp add: initial_fleet_def lock_inv_def)

interpretation lock: inductive_invariant "initial_fleet sock" "dstep sock uid signals intruders" "lock_inv sock"
  for sock uid signals intruders
  by unfold_locales (auto intro: lock_inv_initial lock_inv_step)

lemma lock_inv_exclusive: "lock_inv sock f \<Longrightarrow> holds (ft_pc f p) = Some i \<Longrightarrow> holds (ft_pc f q) = Some j \<Longrightarrow> p = q"
proof -
  assume inv: "lock_inv sock f" and p: "holds (ft_pc f p) = Some i" and q: "holds (ft_pc f q) = Some j"
  from inv p q have "lock_ino (ft_machine f) sock = Some i" "lock_ino (ft_machine f) sock = Some j"
    unfolding lock_inv_def using holds_opened by blast+
  then have "i = j" by simp
  with inv p q show "p = q" unfolding lock_inv_def by (metis option.inject)
qed

section \<open>The socket and its directory\<close>

text \<open>A directory that only this user can change: theirs and closed to others, or a sticky one of root's.\<close>

fun dir_ok :: "u32 \<Rightarrow> node \<Rightarrow> bool" where
  "dir_ok uid (Directory owner perm) \<longleftrightarrow> owner = uid \<and> perm AND 63 = 0 \<or> owner = 0 \<and> perm AND 512 \<noteq> 0"
| "dir_ok uid _ \<longleftrightarrow> False"

definition ok_at :: "machine \<Rightarrow> u32 \<Rightarrow> string \<Rightarrow> bool" where
  "ok_at m uid dir \<longleftrightarrow> (\<exists>n. m_node m dir = Some n \<and> dir_ok uid n)"

definition ours_at :: "machine \<Rightarrow> u32 \<Rightarrow> string \<Rightarrow> bool" where
  "ours_at m uid dir \<longleftrightarrow> (\<exists>perm. m_node m dir = Some (Directory uid perm))"

lemma fresh_dir_ok: "pe_uid env = uid \<Longrightarrow> dir_ok uid (fresh_dir env)"
proof -
  have "(448 AND 63) AND NOT (pe_umask env) = 0" by simp
  then have "(448 AND NOT (pe_umask env)) AND 63 = 0" by (simp only: ac_simps)
  then show "pe_uid env = uid \<Longrightarrow> dir_ok uid (fresh_dir env)" by (simp add: fresh_dir_def)
qed

lemma dir_verdict_sound:
  assumes "plain m dir"
  shows "dir_verdict env dir (sys_stat env m dir) = Accept \<Longrightarrow> ok_at m (pe_uid env) dir"
    and "dir_verdict env dir (sys_stat env m dir) = Tighten \<Longrightarrow> ours_at m (pe_uid env) dir"
    and "dir_verdict env dir (sys_stat env m dir) = Create \<Longrightarrow> m_node m dir = None"
  using assms
  by (cases "m_node m dir"; auto simp: dir_verdict_def sys_stat_def plain_follow faulty_def ok_at_def ours_at_def
      split: option.splits sum.splits node.splits if_splits)+

text \<open>What daemons do to the directory: nothing, or they make or tighten their own.\<close>

definition dir_kept :: "u32 \<Rightarrow> string \<Rightarrow> machine \<Rightarrow> machine \<Rightarrow> bool" where
  "dir_kept uid dir m m' \<longleftrightarrow> m_node m' dir = m_node m dir
     \<or> (m_node m dir = None \<or> ours_at m uid dir) \<and> ok_at m' uid dir \<and> ours_at m' uid dir"

lemma dir_kept_mono:
  assumes "dir_kept uid dir m m'"
  shows "plain m dir \<Longrightarrow> plain m' dir" "ok_at m uid dir \<Longrightarrow> ok_at m' uid dir" "ours_at m uid dir \<Longrightarrow> ours_at m' uid dir"
    "m_node m dir = None \<or> ok_at m uid dir \<Longrightarrow> m_node m' dir = None \<or> ok_at m' uid dir"
  using assms by (auto simp: dir_kept_def ok_at_def ours_at_def plain_def)

lemma chmod_plain:
  assumes "plain m p" "sys_chmod env m p md = (r, m')"
  shows "q \<noteq> p \<Longrightarrow> m_node m' q = m_node m q"
    and "r = Inr () \<Longrightarrow> \<exists>n. m_node m p = Some n \<and> m_node m' p = Some (chmod_node md n)"
    and "r \<noteq> Inr () \<Longrightarrow> m' = m"
  using assms
  by (auto simp: sys_chmod_def plain_follow faulty_def split: option.splits sum.splits)

lemma perform_dir_kept:
  assumes "plain m dir" "act = Tighten \<Longrightarrow> ours_at m uid dir" "pe_uid env = uid"
  shows "dir_kept uid dir m (snd (perform_action env dir act m))"
proof (cases act)
  case Tighten
  obtain r m' where c: "sys_chmod env m dir 448 = (r, m')" by fastforce
  with chmod_plain(2,3) [OF assms(1) c] assms(2) Tighten show ?thesis
    by (cases "r = Inr ()") (auto simp: dir_kept_def ok_at_def ours_at_def)
next
  case Create
  obtain r m' where c: "create_dir_all env m dir = (r, m')" by fastforce
  from create_dir_all_at [OF c assms(1)] fresh_dir_ok [OF assms(3)] assms(3) Create c show ?thesis
    by (auto simp: dir_kept_def ok_at_def ours_at_def) (auto simp: fresh_dir_def)
qed (simp_all add: dir_kept_def)

lemma perform_ok:
  assumes "perform_action env dir act m = (Inr (), m')" "plain m dir" "pe_uid env = uid" "dir \<noteq> []"
    "act = Accept \<Longrightarrow> ok_at m uid dir" "act = Tighten \<Longrightarrow> ours_at m uid dir"
    "act = Create \<Longrightarrow> m_node m dir = None \<or> ok_at m uid dir"
  shows "ok_at m' uid dir"
proof (cases act)
  case Tighten
  obtain r where c: "sys_chmod env m dir 448 = (r, m')" "r = Inr ()"
    using assms(1) Tighten by (cases "sys_chmod env m dir 448") auto
  with chmod_plain(2) [OF assms(2) c(1)] assms(6) Tighten show ?thesis
    by (auto simp: ok_at_def ours_at_def)
next
  case Create
  obtain r where c: "create_dir_all env m dir = (r, m')" "r = Inr ()"
    using assms(1) Create by (cases "create_dir_all env m dir") auto
  from create_dir_all_at [OF c(1) assms(2)] c(2) fresh_dir_ok [OF assms(3)] assms(4,7) Create show ?thesis
    by (auto simp: ok_at_def)
qed (use assms(1,5) in auto)

lemma chmod_Symlink [simp]: "chmod_node md n = Symlink t \<longleftrightarrow> n = Symlink t" "Symlink t = chmod_node md n \<longleftrightarrow> n = Symlink t"
  by (cases n; auto)+

lemma plain_iff: "plain m p \<longleftrightarrow> (\<forall>t. m_node m p \<noteq> Some (Symlink t))"
  by (auto simp: plain_def split: option.split node.split)

lemma call_frames:
  "plain m p \<Longrightarrow> q \<noteq> p \<Longrightarrow> m_node (snd (sys_open env m p md)) q = m_node m q"
  "q \<noteq> p \<Longrightarrow> m_node (snd (sys_unlink env m p)) q = m_node m q"
  "q \<noteq> p \<Longrightarrow> m_node (snd (sys_bind env m p)) q = m_node m q"
  "plain m p \<Longrightarrow> q \<noteq> p \<Longrightarrow> m_node (snd (sys_chmod env m p md)) q = m_node m q"
  by (auto simp: sys_open_def sys_unlink_def sys_bind_def sys_chmod_def plain_follow faulty_def
      split: sum.splits option.splits node.splits)

lemma snd_steps [simp]:
  "snd (open_lock env m sock) = snd (sys_open env m (lock_path sock) 384)"
  "m_node (snd (take_lock env m sock ino)) = m_node m"
  "snd (clear_stale env m sock) = snd (sys_unlink env m sock)"
  "snd (bind_socket env m sock) = snd (sys_bind env m sock)"
  "snd (restrict_socket env m sock) = snd (sys_chmod env m sock 384)"
  by (auto simp: open_lock_def take_lock_def sys_flock_def clear_stale_def bind_socket_def restrict_socket_def
      split: sum.splits prod.splits)

lemma node_release [simp]: "m_node (snd (release_on_error ino r)) = m_node (snd r)"
  using snd_release [of ino r] by auto

lemma snd_advance:
  "m_node (snd (advance env sock (c, m))) =
     m_node (case c of
       Vetting act \<Rightarrow> (case path_parent sock of Some dir \<Rightarrow> snd (perform_action env dir act m) | None \<Rightarrow> m)
     | Opening \<Rightarrow> snd (sys_open env m (lock_path sock) 384)
     | Clearing _ \<Rightarrow> snd (sys_unlink env m sock)
     | Binding _ \<Rightarrow> snd (sys_bind env m sock)
     | Restricting _ \<Rightarrow> snd (sys_chmod env m sock 384)
     | Closing \<Rightarrow> cleanup env m sock
     | _ \<Rightarrow> m)"
proof (cases c)
  case Opening
  then show ?thesis
    using snd_steps(1) [of env m sock] by (auto split: prod.splits sum.splits simp del: snd_steps)
qed (auto split: option.split)

lemma cleanup_frame: "q \<noteq> sock \<Longrightarrow> m_node (cleanup env m sock) q = m_node m q"
  by (auto simp: cleanup_def call_frames split: sum.split)

lemma perform_frame:
  assumes "plain m dir" "length dir < length q"
  shows "m_node (snd (perform_action env dir act m)) q = m_node m q"
  using assms create_dir_all_frame [of env m dir] call_frames(4) [OF assms(1), of q env 448]
  by (cases act) auto

lemma advance_sock_frame:
  assumes "path_parent sock = Some dir" "plain m dir" "plain m (lock_path sock)" "holds c = None" "c \<noteq> Closing"
  shows "m_node (snd (advance env sock (c, m))) sock = m_node m sock"
  using assms path_parent_shorter [OF assms(1)] call_frames(1) [OF assms(3), of sock] lock_path_ne [of sock]
  by (cases c) (simp_all add: snd_advance perform_frame del: lock_path_ne advance.simps)

lemma advance_dir_frame:
  assumes "path_parent sock = Some dir" "plain m (lock_path sock)" "\<And>ino. c = Restricting ino \<Longrightarrow> plain m sock"
    "\<And>act. c \<noteq> Vetting act"
  shows "m_node (snd (advance env sock (c, m))) dir = m_node m dir"
proof -
  have "dir \<noteq> sock" "dir \<noteq> lock_path sock" using path_parent_shorter [OF assms(1)] by (auto simp: lock_path_def)
  with assms show ?thesis
    by (cases c) (simp_all add: snd_advance call_frames cleanup_frame del: advance.simps, blast)
qed

lemma advance_dir_kept:
  assumes "path_parent sock = Some dir" "plain m dir" "plain m (lock_path sock)"
    "\<And>ino. c = Restricting ino \<Longrightarrow> plain m sock" "c = Vetting Tighten \<Longrightarrow> ours_at m uid dir" "pe_uid env = uid"
  shows "dir_kept uid dir m (snd (advance env sock (c, m)))"
proof (cases "\<exists>act. c = Vetting act")
  case True
  then obtain act where "c = Vetting act" ..
  with assms perform_dir_kept [of m dir act uid env] snd_advance [of env sock c m]
  show ?thesis by (simp add: dir_kept_def ok_at_def ours_at_def)
next
  case False
  with advance_dir_frame [OF assms(1,3,4)] show ?thesis by (simp add: dir_kept_def)
qed

lemma advance_plain_sock:
  assumes "path_parent sock = Some dir" "plain m dir" "plain m (lock_path sock)" "plain m sock"
  shows "plain (snd (advance env sock (c, m))) sock"
proof (cases "holds c = None \<and> c \<noteq> Closing")
  case True
  with advance_sock_frame [OF assms(1,2,3), of c env] assms(4) show ?thesis by (simp add: plain_def)
next
  case False
  have "plain (snd (sys_unlink env m sock)) sock" "plain (snd (sys_bind env m sock)) sock"
    using assms(4) by (auto simp: sys_unlink_def sys_bind_def plain_def split: sum.splits)
  moreover have "plain (snd (sys_chmod env m sock 384)) sock"
  proof -
    obtain r m' where c: "sys_chmod env m sock 384 = (r, m')" by fastforce
    with chmod_plain(2,3) [OF assms(4) c] assms(4) show ?thesis
      by (cases "r = Inr ()") (auto simp: plain_iff)
  qed
  ultimately show ?thesis
    using False assms(4) snd_advance [of env sock c m]
    by (cases c) (auto simp: plain_def cleanup_def split: sum.splits)
qed

section \<open>No link appears\<close>

lemma plain_chmod: "plain m p \<Longrightarrow> plain (snd (sys_chmod env m q md)) p"
  by (auto simp: sys_chmod_def faulty_def plain_iff split: option.splits sum.splits)

lemma advance_plain_dir:
  assumes "path_parent sock = Some dir" "plain m dir" "plain m (lock_path sock)" "\<And>ino. c = Restricting ino \<Longrightarrow> plain m sock"
  shows "plain (snd (advance env sock (c, m))) dir"
proof (cases "\<exists>act. c = Vetting act")
  case True
  then obtain act where c: "c = Vetting act" ..
  obtain r m' where cr: "create_dir_all env m dir = (r, m')" by fastforce
  from create_dir_all_at [OF cr assms(2)] assms(2) have "plain m' dir"
    by (auto simp: plain_iff fresh_dir_def)
  with cr have "plain (snd (perform_action env dir act m)) dir"
    using assms(2) by (cases act) (auto intro: plain_chmod)
  with c assms(1) snd_advance [of env sock c m] show ?thesis by (simp add: plain_iff)
next
  case False
  with advance_dir_frame [OF assms(1,3,4)] assms(2) show ?thesis by (simp add: plain_iff)
qed

lemma then_go_Inr: "then_go next r = (c', m') \<Longrightarrow> c' = next \<and> r = (Inr (), m') \<or> (\<exists>e. c' = Ended (Some e))"
  by (cases "(next, r)" rule: then_go.cases) auto

lemma advance_to_Restricting:
  assumes "advance env sock (c, m) = (Restricting ino, m')"
  shows "c = Binding ino \<and> m_node m' sock = Some (SocketFile (pe_pid env) (pe_uid env) (511 AND NOT (pe_umask env)))"
proof (cases c)
  case (Vetting act)
  with assms show ?thesis by (auto split: option.splits dest: then_go_Inr)
next
  case (Binding i)
  with assms have "i = ino" "release_on_error i (bind_socket env m sock) = (Inr (), m')" by (auto dest: then_go_Inr)
  then have "sys_bind env m sock = (Inr (), m')"
    by (cases "sys_bind env m sock"; cases "fst (sys_bind env m sock)") (auto simp: bind_socket_def)
  with \<open>i = ino\<close> Binding show ?thesis by (auto simp: sys_bind_def split: sum.splits)
qed (use assms in \<open>auto split: option.splits prod.splits sum.splits dest: then_go_Inr\<close>)

lemma advance_to_Serving:
  assumes "advance env sock (c, m) = (Serving ino, m')" "c \<noteq> Serving ino"
  shows "c = Restricting ino \<and> sys_chmod env m sock 384 = (Inr (), m')"
proof (cases c)
  case (Vetting act)
  with assms show ?thesis by (auto split: option.splits dest: then_go_Inr)
next
  case (Restricting i)
  with assms have "i = ino" "release_on_error i (restrict_socket env m sock) = (Inr (), m')" by (auto dest: then_go_Inr)
  then have "sys_chmod env m sock 384 = (Inr (), m')"
    by (cases "sys_chmod env m sock 384"; cases "fst (sys_chmod env m sock 384)") (auto simp: restrict_socket_def)
  with \<open>i = ino\<close> Restricting show ?thesis by simp
qed (use assms in \<open>auto split: option.splits prod.splits sum.splits dest: then_go_Inr\<close>)

definition link_inv :: "string \<Rightarrow> fleet \<Rightarrow> bool" where
  "link_inv sock f \<longleftrightarrow> lock_inv sock f
     \<and> (\<forall>dir. path_parent sock = Some dir \<longrightarrow> plain (ft_machine f) dir
          \<and> (\<forall>p ino. ft_pc f p = Restricting ino \<longrightarrow> plain (ft_machine f) sock))"

lemma link_invD:
  assumes "link_inv sock f" "path_parent sock = Some dir"
  shows "plain (ft_machine f) (lock_path sock)" "plain (ft_machine f) dir"
    "ft_pc f p = Restricting ino \<Longrightarrow> plain (ft_machine f) sock"
  using assms by (auto simp: link_inv_def lock_inv_def)

lemma link_inv_advance:
  assumes inv: "link_inv sock f"
    and step: "advance env sock (ft_pc f p, ft_machine f) = (c, m)" and "pe_pid env = p"
  shows "link_inv sock \<lparr>ft_machine = m, ft_pc = (ft_pc f)(p := c)\<rparr>"
proof -
  let ?m = "ft_machine f"
  from inv have lock: "lock_inv sock f" by (simp add: link_inv_def)
  have "plain m dir" if dir: "path_parent sock = Some dir" for dir
  proof -
    have "plain (snd (advance env sock (ft_pc f p, ?m))) dir"
      by (rule advance_plain_dir [OF dir link_invD(2,1) [OF inv dir]]) (rule link_invD(3) [OF inv dir])
    then show ?thesis by (simp add: step)
  qed
  moreover have "plain m sock" if "path_parent sock = Some dir" "ft_pc f q = Restricting ino" for dir q ino
    using advance_plain_sock [OF that(1) link_invD(2,1,3) [OF inv that(1)] , OF that(2), of env "ft_pc f p"] step by simp
  moreover have "plain m sock" if "c = Restricting ino" for ino
    using advance_to_Restricting [OF step [unfolded that]] by (simp add: plain_iff)
  ultimately show ?thesis
    using lock_inv_advance [OF lock step \<open>pe_pid env = p\<close>] unfolding link_inv_def by (auto split: if_splits)
qed

lemma link_inv_drop:
  "link_inv sock f \<Longrightarrow> opened c = None \<Longrightarrow>
     link_inv sock \<lparr>ft_machine = drop_locks (ft_pc f p) (ft_machine f), ft_pc = (ft_pc f)(p := c)\<rparr>"
  by (auto simp: link_inv_def lock_inv_drop plain_iff)

lemma link_inv_step:
  assumes "link_inv sock f" "dstep sock uid signals intruders f f'"
  shows "link_inv sock f'"
  using assms(2)
proof (cases rule: dstep.cases)
  case (advances env p c m)
  then show ?thesis using link_inv_advance [OF assms(1)] by simp
next
  case (fails p ino e)
  show ?thesis unfolding fails(1) by (rule link_inv_drop [OF assms(1)]) simp
next
  case (stops p)
  show ?thesis unfolding stops(1) by (rule link_inv_drop [OF assms(1)]) simp
next
  case (dies p)
  show ?thesis unfolding dies(1) by (rule link_inv_drop [OF assms(1)]) simp
next
  case (intrudes dir owner perm)
  have "lock_inv sock f'" using lock_inv_step [OF _ assms(2)] assms(1) by (simp add: link_inv_def)
  with assms(1) show ?thesis
    unfolding intrudes(1) link_inv_def by (auto simp: plain_iff)
qed

interpretation link: inductive_invariant "initial_fleet sock" "dstep sock uid signals intruders" "link_inv sock"
  for sock uid signals intruders
  by unfold_locales (auto intro: link_inv_step, simp add: link_inv_def lock_inv_initial, simp add: initial_fleet_def)

end
