(* ===== verification/Server_Invariants.thy ===== *)
theory Server_Invariants
  imports Server_Fleet
begin

text \<open>
  What the interleaved daemons keep: one of them at a time has the socket, the one that serves
  is the one a client reaches, and its directory is one nobody else can change. The last two
  have a condition each, and the runs at the end show that neither can be left out.
\<close>

section \<open>The daemon that serves\<close>

definition served_inv :: "string \<Rightarrow> u32 \<Rightarrow> fleet \<Rightarrow> bool" where
  "served_inv sock uid f \<longleftrightarrow> (\<forall>p. ft_pc f p \<noteq> Closing)
     \<and> (\<forall>dir. path_parent sock = Some dir \<longrightarrow>
          (\<forall>p ino. ft_pc f p = Restricting ino \<longrightarrow> (\<exists>perm. m_node (ft_machine f) sock = Some (SocketFile p uid perm)))
        \<and> (\<forall>p ino. ft_pc f p = Serving ino \<longrightarrow> m_node (ft_machine f) sock = Some (SocketFile p uid 384)))"

lemma advance_not_Closing: "advance env sock (c, m) = (Closing, m') \<Longrightarrow> c = Closing"
  by (cases c) (auto split: option.splits prod.splits sum.splits dest: then_go_Inr)

text \<open>A daemon that serves after its step has its socket.\<close>

lemma served_inv_own:
  assumes inv: "served_inv sock uid f" and dir: "path_parent sock = Some dir"
    and step: "advance env sock (ft_pc f p, ft_machine f) = (Serving ino, m)"
  shows "m_node m sock = Some (SocketFile p uid 384)"
proof (cases "ft_pc f p = Serving ino")
  case True
  with inv dir have "m_node (ft_machine f) sock = Some (SocketFile p uid 384)" by (simp add: served_inv_def)
  with True step show ?thesis by simp
next
  case False
  with step have a: "ft_pc f p = Restricting ino" "sys_chmod env (ft_machine f) sock 384 = (Inr (), m)"
    using advance_to_Serving [of env sock "ft_pc f p" "ft_machine f" ino m] by auto
  with inv dir obtain perm where n: "m_node (ft_machine f) sock = Some (SocketFile p uid perm)" by (auto simp: served_inv_def)
  then have "plain (ft_machine f) sock" by (simp add: plain_iff)
  from chmod_plain(2) [OF this a(2)] n show ?thesis by simp
qed

lemma served_inv_advance:
  assumes link: "link_inv sock f" and inv: "served_inv sock uid f"
    and step: "advance env sock (ft_pc f p, ft_machine f) = (c, m)" and env: "pe_pid env = p" "pe_uid env = uid"
  shows "served_inv sock uid \<lparr>ft_machine = m, ft_pc = (ft_pc f)(p := c)\<rparr>"
proof -
  let ?m = "ft_machine f"
  have noclose: "ft_pc f q \<noteq> Closing" for q using inv by (simp add: served_inv_def)
  have excl: "holds (ft_pc f p) = None" if "q \<noteq> p" "holds (ft_pc f q) = Some ino" for q ino
    using lock_inv_exclusive [of sock f p _ q] link that by (metis link_inv_def not_None_eq)
  have frame: "m_node m sock = m_node ?m sock"
    if "path_parent sock = Some dir" "holds (ft_pc f p) = None" for dir
    using advance_sock_frame [OF that(1) link_invD(2,1) [OF link that(1)] that(2) noclose, of env] step by simp
  have "\<exists>perm. m_node m sock = Some (SocketFile q uid perm)"
    if dir: "path_parent sock = Some dir" and q: "((ft_pc f)(p := c)) q = Restricting ino" for dir q ino
  proof (cases "q = p")
    case True
    with q advance_to_Restricting [of env sock "ft_pc f p" ?m ino m] step env show ?thesis by auto
  next
    case False
    with q have "ft_pc f q = Restricting ino" by simp
    with excl [OF False] frame [OF dir] inv dir show ?thesis by (auto simp: served_inv_def)
  qed
  moreover have "m_node m sock = Some (SocketFile q uid 384)"
    if dir: "path_parent sock = Some dir" and q: "((ft_pc f)(p := c)) q = Serving ino" for dir q ino
  proof (cases "q = p")
    case True
    with q step have "advance env sock (ft_pc f p, ft_machine f) = (Serving ino, m)" by simp
    from served_inv_own [OF inv dir this] True show ?thesis by simp
  next
    case False
    with q have "ft_pc f q = Serving ino" by simp
    with excl [OF False] frame [OF dir] inv dir show ?thesis by (auto simp: served_inv_def)
  qed
  moreover have "c \<noteq> Closing" using advance_not_Closing step noclose by blast
  ultimately show ?thesis using noclose by (simp add: served_inv_def)
qed

lemma served_inv_step:
  assumes "link_inv sock f" "served_inv sock uid f" "dstep sock uid False intruders f f'"
  shows "served_inv sock uid f'"
  using assms(3)
proof (cases rule: dstep.cases)
  case (advances env p c m)
  then show ?thesis using served_inv_advance [OF assms(1,2)] by simp
next
  case (intrudes dir owner perm)
  have "dir \<noteq> sock" using path_parent_shorter [OF intrudes(3)] by auto
  with assms(2) show ?thesis unfolding intrudes(1) served_inv_def by auto
qed (use assms(2) in \<open>auto simp: served_inv_def\<close>)

interpretation served: derived_invariant "initial_fleet sock" "dstep sock uid False intruders" "link_inv sock"
  "served_inv sock uid" for sock uid intruders
proof
  show "served_inv sock uid f" if "initial_fleet sock f" for f
    using that by (simp add: initial_fleet_def served_inv_def)
qed (rule served_inv_step)

section \<open>Its directory\<close>

text \<open>What a daemon at a point of its start-up relies on.\<close>

fun dir_due :: "u32 \<Rightarrow> string \<Rightarrow> machine \<Rightarrow> pc \<Rightarrow> bool" where
  "dir_due uid dir m (Vetting Accept) \<longleftrightarrow> ok_at m uid dir"
| "dir_due uid dir m (Vetting Tighten) \<longleftrightarrow> ours_at m uid dir"
| "dir_due uid dir m (Vetting Create) \<longleftrightarrow> m_node m dir = None \<or> ok_at m uid dir"
| "dir_due uid dir m (Vetting (Refuse _)) \<longleftrightarrow> True"
| "dir_due uid dir m Starting \<longleftrightarrow> True"
| "dir_due uid dir m Closing \<longleftrightarrow> True"
| "dir_due uid dir m (Ended _) \<longleftrightarrow> True"
| "dir_due uid dir m c \<longleftrightarrow> ok_at m uid dir"

definition vetted_inv :: "string \<Rightarrow> u32 \<Rightarrow> fleet \<Rightarrow> bool" where
  "vetted_inv sock uid f \<longleftrightarrow> (\<forall>dir p. path_parent sock = Some dir \<and> dir \<noteq> [] \<longrightarrow>
     dir_due uid dir (ft_machine f) (ft_pc f p))"

lemma dir_due_mono: "dir_kept uid dir m m' \<Longrightarrow> dir_due uid dir m c \<Longrightarrow> dir_due uid dir m' c"
  using dir_kept_mono [of uid dir m m'] by (cases "(uid, dir, m, c)" rule: dir_due.cases) auto

lemma then_go_due:
  "then_go next r = (c', m') \<Longrightarrow> (fst r = Inr () \<Longrightarrow> dir_due uid dir m' next) \<Longrightarrow> dir_due uid dir m' c'"
  by (cases "(next, r)" rule: then_go.cases) auto

lemma advance_dir_due:
  assumes step: "advance env sock (c, m) = (c', m')" and dir: "path_parent sock = Some dir" "dir \<noteq> []"
    and plain: "plain m dir" and kept: "dir_kept uid dir m m'" and due: "dir_due uid dir m c" and uid: "pe_uid env = uid"
  shows "dir_due uid dir m' c'"
proof (cases c)
  case Starting
  with step dir have "c' = Vetting (dir_verdict env dir (sys_stat env m dir))" "m' = m" by auto
  with dir_verdict_sound [OF plain, of env] uid show ?thesis
    by (cases "dir_verdict env dir (sys_stat env m dir)") auto
next
  case (Vetting act)
  with step dir have t: "then_go Opening (perform_action env dir act m) = (c', m')" by simp
  then have m': "m' = snd (perform_action env dir act m)" by (metis snd_conv snd_then_go)
  show ?thesis
  proof (rule then_go_due [OF t])
    assume "fst (perform_action env dir act m) = Inr ()"
    with m' have "perform_action env dir act m = (Inr (), m')" by (metis prod.collapse)
    from perform_ok [OF this plain uid dir(2)] due [unfolded Vetting] show "dir_due uid dir m' Opening"
      by (cases act) auto
  qed
qed (use step dir due dir_kept_mono(2) [OF kept] in
    \<open>auto split: prod.splits sum.splits elim!: then_go_due\<close>)

lemma vetted_inv_step:
  assumes link: "link_inv sock f" and inv: "vetted_inv sock uid f" and step: "dstep sock uid signals False f f'"
  shows "vetted_inv sock uid f'"
  unfolding vetted_inv_def
proof (intro allI impI, elim conjE)
  fix dir q
  assume dir: "path_parent sock = Some dir" "dir \<noteq> []"
  from inv dir have due: "dir_due uid dir (ft_machine f) (ft_pc f p)" for p by (simp add: vetted_inv_def)
  note plains = link_invD [OF link dir(1)]
  from step show "dir_due uid dir (ft_machine f') (ft_pc f' q)"
  proof (cases rule: dstep.cases)
    case (advances env p c m)
    have "dir_kept uid dir (ft_machine f) (snd (advance env sock (ft_pc f p, ft_machine f)))"
      by (rule advance_dir_kept [OF dir(1) plains(2,1)])
        (use plains(3) due [of p] advances in auto)
    then have kept: "dir_kept uid dir (ft_machine f) m" using advances by simp
    from advance_dir_due [OF advances(4) dir plains(2) kept due advances(3)] dir_due_mono [OF kept due] advances(1)
    show ?thesis by simp
  next
    case (intrudes d owner perm)
    then show ?thesis by simp
  qed (use due dir_due_mono [of uid dir "ft_machine f" "ft_machine f'"] in \<open>auto simp: dir_kept_def\<close>)
qed

interpretation vetted: derived_invariant "initial_fleet sock" "dstep sock uid signals False" "link_inv sock"
  "vetted_inv sock uid" for sock uid signals
proof
  show "vetted_inv sock uid f" if "initial_fleet sock f" for f
    using that by (simp add: initial_fleet_def vetted_inv_def)
qed (rule vetted_inv_step)

section \<open>Taking a free socket\<close>

lemma lock_path_parent:
  assumes "path_parent sock = Some dir"
  shows "path_parent (lock_path sock) = Some dir"
proof -
  have "dropWhile (\<lambda>c. c \<noteq> CHR ''/'') (rev (lock_path sock)) = dropWhile (\<lambda>c. c \<noteq> CHR ''/'') (rev sock)"
    by (simp add: lock_path_def)
  moreover have "lock_path sock \<noteq> ''/''" "lock_path sock \<noteq> []"
    by (auto simp: lock_path_def append_eq_Cons_conv)
  ultimately show ?thesis using assms by (auto simp: path_parent_def Let_def split: if_splits)
qed

definition no_faults :: "proc_env \<Rightarrow> bool" where
  "no_faults env \<longleftrightarrow> pe_fault env = (\<lambda>_. None)"

lemma no_faults_faulty [simp]: "no_faults env \<Longrightarrow> faulty env call r = r"
  by (simp add: no_faults_def faulty_def)

definition has_dir :: "machine \<Rightarrow> string \<Rightarrow> bool" where
  "has_dir m dir \<longleftrightarrow> (\<exists>owner perm. m_node m dir = Some (Directory owner perm))"

lemma entry_allowed_has_dir: "path_parent p = Some dir \<Longrightarrow> has_dir m dir \<Longrightarrow> entry_allowed m p = Inr ()"
  by (auto simp: entry_allowed_def has_dir_def plain_follow plain_def)

lemma open_lock_free:
  assumes "no_faults env" "plain m (lock_path sock)" "path_parent sock = Some dir" "has_dir m dir"
    and "m_node m (lock_path sock) = None \<or> lock_ino m sock \<noteq> None"
  shows "\<exists>ino m'. sys_open env m (lock_path sock) md = (Inr ino, m') \<and> has_dir m' dir
    \<and> m_lock m' = m_lock m \<and> m_node m' sock = m_node m sock \<and> plain m' (lock_path sock)"
proof -
  have "dir \<noteq> lock_path sock" using path_parent_shorter [OF assms(3)] by (auto simp: lock_path_def)
  note allowed = entry_allowed_has_dir [OF lock_path_parent [OF assms(3)] assms(4)]
  show ?thesis
  proof (cases "m_node m (lock_path sock)")
    case None
    with assms \<open>dir \<noteq> lock_path sock\<close> allowed lock_path_ne [of sock] show ?thesis
      by (simp add: sys_open_def plain_follow has_dir_def plain_def del: lock_path_ne)
  next
    case (Some n)
    with assms(5) obtain ino owner perm where "n = Regular ino owner perm"
      by (auto simp: lock_ino_def split: node.splits)
    with Some assms show ?thesis by (auto simp: sys_open_def plain_follow)
  qed
qed

lemma prepare_acceptable:
  assumes "no_faults env" "m_node m dir = Some (Directory owner perm)"
    and "owner = pe_uid env \<or> owner = 0 \<and> perm AND 512 \<noteq> 0"
  shows "\<exists>m'. prepare_socket_dir env m dir = (Inr (), m') \<and> has_dir m' dir \<and> m_lock m' = m_lock m
    \<and> (\<forall>q. q \<noteq> dir \<longrightarrow> m_node m' q = m_node m q)"
proof -
  have "follow max_links m dir = Inr dir" using assms(2) by (simp add: plain_follow plain_def)
  with assms show ?thesis
    by (auto simp: prepare_socket_dir_def dir_verdict_def sys_stat_def sys_chmod_def has_dir_def)
qed

lemma bind_after_lock:
  assumes "no_faults env" "path_parent sock = Some dir" "has_dir m dir"
    and "\<And>owner perm. m_node m sock \<noteq> Some (Directory owner perm)"
  shows "\<exists>m'. seq (clear_stale env m sock) (\<lambda>_ m. seq (bind_socket env m sock) (\<lambda>_ m.
      seq (restrict_socket env m sock) (\<lambda>_ m. (Inr ino, m)))) = (Inr ino, m')"
proof -
  have ne: "dir \<noteq> sock" using path_parent_shorter [OF assms(2)] by auto
  let ?m1 = "set_node m sock None"
  have same: "m_node m sock = None \<Longrightarrow> ?m1 = m" by (simp add: set_node_def fun_upd_idem)
  have "clear_stale env m sock = (Inr (), ?m1)"
    using assms(1,4) same by (cases "m_node m sock") (auto simp: clear_stale_def sys_unlink_def split: node.split)
  moreover have "has_dir ?m1 dir" using assms(3) ne by (auto simp: has_dir_def)
  then have "bind_socket env ?m1 sock
      = (Inr (), set_node ?m1 sock (Some (SocketFile (pe_pid env) (pe_uid env) (511 AND NOT (pe_umask env)))))"
    using assms(1) entry_allowed_has_dir [OF assms(2)] by (simp add: bind_socket_def sys_bind_def)
  ultimately show ?thesis
    using assms(1) by (simp add: restrict_socket_def sys_chmod_def plain_follow plain_def)
qed

lemma bind_listener_free:
  assumes env: "no_faults env" and dir: "path_parent sock = Some dir"
    and vet: "m_node m dir = Some (Directory owner perm)" "owner = pe_uid env \<or> owner = 0 \<and> perm AND 512 \<noteq> 0"
    and free: "m_lock m = (\<lambda>_. None)" and lock: "m_node m (lock_path sock) = None \<or> lock_ino m sock \<noteq> None"
    and sock: "\<And>owner perm. m_node m sock \<noteq> Some (Directory owner perm)"
  shows "\<exists>ino m'. bind_listener env m sock = (Inr ino, m')"
proof -
  from prepare_acceptable [OF env vet] obtain m0 where prep: "prepare_socket_dir env m dir = (Inr (), m0)"
    and m0: "has_dir m0 dir" "m_lock m0 = m_lock m" "\<And>q. q \<noteq> dir \<Longrightarrow> m_node m0 q = m_node m q" by auto
  have ne: "lock_path sock \<noteq> dir" "sock \<noteq> dir" using path_parent_shorter [OF dir] by (auto simp: lock_path_def)
  with m0(3) lock have lock0: "m_node m0 (lock_path sock) = None \<or> lock_ino m0 sock \<noteq> None" by (simp add: lock_ino_def)
  then have plain0: "plain m0 (lock_path sock)" by (auto simp: plain_iff lock_ino_def)
  from open_lock_free [OF env plain0 dir m0(1) lock0, of 384] obtain ino m1 where
    o: "sys_open env m0 (lock_path sock) 384 = (Inr ino, m1)" and m1: "has_dir m1 dir" "m_lock m1 = m_lock m"
    "m_node m1 sock = m_node m sock" using m0(2,3) ne(2) by auto
  let ?m2 = "m1\<lparr>m_lock := (m_lock m1)(ino \<mapsto> pe_pid env)\<rparr>"
  have acq: "acquire_lock env m0 sock = (Inr ino, ?m2)"
    using o env m1(2) free by (simp add: acquire_lock_def open_lock_def take_lock_def sys_flock_def)
  have "has_dir ?m2 dir" using m1(1) by (simp add: has_dir_def)
  from bind_after_lock [OF env dir this, of ino] m1(3) sock obtain m3 where
    "seq (clear_stale env ?m2 sock) (\<lambda>_ m. seq (bind_socket env m sock) (\<lambda>_ m.
      seq (restrict_socket env m sock) (\<lambda>_ m. (Inr ino, m)))) = (Inr ino, m3)" by auto
  then show ?thesis by (simp add: bind_listener_def dir prep acq)
qed

lemma lock_inv_free:
  assumes "lock_inv sock f" "\<forall>q. holds (ft_pc f q) = None"
  shows "m_lock (ft_machine f) = (\<lambda>_. None)"
proof
  fix ino
  show "m_lock (ft_machine f) ino = None"
    using assms unfolding lock_inv_def by (cases "m_lock (ft_machine f) ino") auto
qed

section \<open>Runs\<close>

text \<open>A run of some system calls of one daemon.\<close>

lemma reaches_refl: "reaches sock uid signals intruders f f"
  by (simp add: reaches_def)

lemma reaches_step:
  "reaches sock uid signals intruders f f' \<Longrightarrow> dstep sock uid signals intruders f' f'' \<Longrightarrow>
     reaches sock uid signals intruders f f''"
  by (simp add: reaches_def)

definition advance_in :: "proc_env \<Rightarrow> string \<Rightarrow> fleet \<Rightarrow> fleet" where
  "advance_in env sock f =
     (case advance env sock (ft_pc f (pe_pid env), ft_machine f) of
        (c, m) \<Rightarrow> \<lparr>ft_machine = m, ft_pc = (ft_pc f)(pe_pid env := c)\<rparr>)"

lemma reaches_advance_in:
  assumes "reaches sock uid signals intruders f f'" "pe_uid env = uid"
  shows "reaches sock uid signals intruders f ((advance_in env sock ^^ n) f')"
proof (induction n)
  case (Suc n)
  let ?g = "(advance_in env sock ^^ n) f'"
  have "dstep sock uid signals intruders ?g (advance_in env sock ?g)"
    using assms(2) by (auto simp: advance_in_def intro: dstep.advances split: prod.split)
  with Suc show ?case by (auto intro: reaches_step)
qed (use assms in simp)

definition sample_sock :: string where
  "sample_sock = ''/r/h/w''"

definition sample_env :: "nat \<Rightarrow> proc_env" where
  "sample_env p = \<lparr>pe_pid = p, pe_uid = 1000, pe_umask = 0, pe_fault = (\<lambda>_. None)\<rparr>"

text \<open>The runtime directory exists; the daemon's own directory in it does not.\<close>

definition sample_fleet :: fleet where
  "sample_fleet = \<lparr>ft_machine = \<lparr>m_node = [''/r'' \<mapsto> Directory 1000 448], m_lock = (\<lambda>_. None), m_next = 0\<rparr>,
     ft_pc = (\<lambda>_. Starting)\<rparr>"

lemma sample_parent: "path_parent sample_sock = Some ''/r/h''"
  by code_simp

lemma sample_initial: "initial_fleet sample_sock sample_fleet"
  by (simp add: initial_fleet_def sample_fleet_def sample_sock_def plain_def lock_path_def path_parent_def)

lemma sample_uid: "pe_uid (sample_env p) = 1000"
  by (simp add: sample_env_def)

definition sample_serving :: fleet where
  "sample_serving = (advance_in (sample_env 5) sample_sock ^^ 7) sample_fleet"

lemma sample_serving_reached: "reaches sample_sock 1000 signals intruders sample_fleet sample_serving"
  unfolding sample_serving_def by (intro reaches_advance_in reaches_refl sample_uid)

lemma sample_serving_simps:
  "ft_pc sample_serving 5 = Serving 0" "ft_pc sample_serving 6 = Starting"
  "m_node (ft_machine sample_serving) sample_sock = Some (SocketFile 5 1000 384)"
  "m_node (ft_machine sample_serving) ''/r/h'' = Some (Directory 1000 448)"
  by code_simp+

lemma sample_only_holder: "q \<noteq> 5 \<Longrightarrow> holds (ft_pc sample_serving q) = None"
proof -
  have "lock_inv sample_sock sample_serving"
    using lock.reached [OF sample_initial] sample_serving_reached [of False False] unfolding reaches_def by blast
  moreover have "holds (ft_pc sample_serving 5) = Some 0" by (simp add: sample_serving_simps)
  ultimately show "q \<noteq> 5 \<Longrightarrow> holds (ft_pc sample_serving q) = None"
    using lock_inv_exclusive by (metis not_None_eq)
qed

definition sample_stopped :: fleet where
  "sample_stopped = \<lparr>ft_machine = ft_machine sample_serving, ft_pc = (ft_pc sample_serving)(6 := Closing)\<rparr>"

lemma sample_stopped_reached: "reaches sample_sock 1000 True False sample_fleet sample_stopped"
proof (rule reaches_step [OF sample_serving_reached])
  have "dstep sample_sock 1000 True False sample_serving
      \<lparr>ft_machine = drop_locks (ft_pc sample_serving 6) (ft_machine sample_serving),
       ft_pc = (ft_pc sample_serving)(6 := Closing)\<rparr>"
    by (rule dstep.stops) (simp_all add: sample_serving_simps)
  then show "dstep sample_sock 1000 True False sample_serving sample_stopped"
    by (simp add: sample_stopped_def sample_serving_simps drop_locks_def)
qed

definition sample_intruded :: fleet where
  "sample_intruded =
     (let f = advance_in (sample_env 5) sample_sock sample_fleet in
      \<lparr>ft_machine = set_node (ft_machine f) ''/r/h'' (Some (Directory 1001 511)), ft_pc = ft_pc f\<rparr>)"

lemma sample_intruded_reached: "reaches sample_sock 1000 False True sample_fleet sample_intruded"
proof -
  let ?f = "(advance_in (sample_env 5) sample_sock ^^ 1) sample_fleet"
  have free: "m_node (ft_machine ?f) ''/r/h'' = None" by code_simp
  have "reaches sample_sock 1000 False True sample_fleet ?f"
    by (intro reaches_advance_in reaches_refl sample_uid)
  moreover have "dstep sample_sock 1000 False True ?f
      \<lparr>ft_machine = set_node (ft_machine ?f) ''/r/h'' (Some (Directory 1001 511)), ft_pc = ft_pc ?f\<rparr>"
    by (rule dstep.intrudes [OF _ sample_parent free]) simp_all
  ultimately have "reaches sample_sock 1000 False True sample_fleet
      \<lparr>ft_machine = set_node (ft_machine ?f) ''/r/h'' (Some (Directory 1001 511)), ft_pc = ft_pc ?f\<rparr>"
    by (rule reaches_step)
  then show ?thesis by (simp add: sample_intruded_def Let_def)
qed

section \<open>Properties\<close>

text \<open>
  One daemon per socket. However many daemons of a user start for one socket path, in
  whatever interleaving of their system calls, with faults, signals, crashes and another user's
  directory in the way, at most one of them is past taking the lock: removing a stale socket,
  binding, restricting or serving.
\<close>

theorem one_daemon_per_socket:
  assumes "initial_fleet sock f0" and "reaches sock uid signals intruders f0 f"
    and "holds (ft_pc f p) = Some i" and "holds (ft_pc f q) = Some j"
  shows "p = q \<and> i = j"
proof -
  have "p = q"
    using lock_inv_exclusive [OF lock.reached [OF assms(1) assms(2) [unfolded reaches_def]]] assms(3,4) by blast
  with assms(3,4) show ?thesis by simp
qed

theorem one_daemon_per_socket_witness:
  "{q. holds (ft_pc sample_serving q) \<noteq> None} = {5}"
proof -
  have five: "holds (ft_pc sample_serving 5) = Some 0" by (simp add: sample_serving_simps)
  have only: "q = 5" if "holds (ft_pc sample_serving q) \<noteq> None" for q
  proof -
    from that obtain j where j: "holds (ft_pc sample_serving q) = Some j" by blast
    from one_daemon_per_socket [OF sample_initial sample_serving_reached [of False False] five j] show ?thesis by simp
  qed
  have "holds (ft_pc sample_serving 5) \<noteq> None" by (simp add: five)
  with only show ?thesis by blast
qed

text \<open>
  C17: a client that connects reaches the daemon that serves. As long as no daemon is stopped by
  a signal, the entry at the socket path of a serving daemon is the socket this daemon bound,
  owned by the user and with mode 0600; no other daemon has replaced or removed it.
\<close>

theorem serving_daemon_has_its_socket:
  assumes "initial_fleet sock f0" and "reaches sock uid False intruders f0 f"
    and "path_parent sock = Some dir" and "ft_pc f p = Serving ino"
  shows "m_node (ft_machine f) sock = Some (SocketFile p uid 384)"
  using served.both.reached [OF assms(1) assms(2) [unfolded reaches_def]] assms(3,4)
  by (auto simp: served_inv_def)

theorem serving_daemon_has_its_socket_witness:
  "m_node (ft_machine sample_serving) sample_sock = Some (SocketFile 5 1000 384)"
  by (rule serving_daemon_has_its_socket [OF sample_initial sample_serving_reached sample_parent sample_serving_simps(1)])


text \<open>
  C18: the directory of the socket is private. If no other user makes the directory during
  start-up, then whenever a daemon holds the lock, before and after its socket exists, the
  directory is this user's and closed to group and others, or a sticky directory of root's.
\<close>

theorem socket_directory_is_private:
  assumes "initial_fleet sock f0" and "reaches sock uid signals False f0 f"
    and "path_parent sock = Some dir" and "dir \<noteq> []" and "holds (ft_pc f p) = Some ino"
  shows "\<exists>owner perm. m_node (ft_machine f) dir = Some (Directory owner perm)
    \<and> (owner = uid \<and> perm AND 63 = 0 \<or> owner = 0 \<and> perm AND 512 \<noteq> 0)"
proof -
  from vetted.both.reached [OF assms(1) assms(2) [unfolded reaches_def]] assms(3,4)
  have "dir_due uid dir (ft_machine f) (ft_pc f p)" by (simp add: vetted_inv_def)
  with assms(5) have "ok_at (ft_machine f) uid dir" by (cases "ft_pc f p") auto
  then show ?thesis by (auto simp: ok_at_def elim: dir_ok.elims)
qed

theorem socket_directory_is_private_witness:
  "\<exists>owner perm. m_node (ft_machine sample_serving) ''/r/h'' = Some (Directory owner perm)
     \<and> (owner = 1000 \<and> perm AND 63 = 0 \<or> owner = 0 \<and> perm AND 512 \<noteq> 0)"
  by (rule socket_directory_is_private [OF sample_initial sample_serving_reached sample_parent, where p = 5 and ino = 0])
    (simp_all add: sample_serving_simps)


text \<open>
  A socket nobody holds can be taken. Wherever the daemons are, once none of them holds the
  lock, crashed daemons included, a daemon whose system calls do not fail starts: it needs a
  directory of its own or a sticky one of root's, a lock file that is absent or regular, and
  anything but a directory at the socket path.
\<close>

theorem free_socket_can_be_taken:
  assumes "initial_fleet sock f0" and "reaches sock uid signals intruders f0 f"
    and "\<forall>q. holds (ft_pc f q) = None" and "no_faults env" and "path_parent sock = Some dir"
    and "m_node (ft_machine f) dir = Some (Directory owner perm)"
    and "owner = pe_uid env \<or> owner = 0 \<and> perm AND 512 \<noteq> 0"
    and "m_node (ft_machine f) (lock_path sock) = None \<or> lock_ino (ft_machine f) sock \<noteq> None"
    and "\<forall>o' p'. m_node (ft_machine f) sock \<noteq> Some (Directory o' p')"
  shows "\<exists>ino m'. bind_listener env (ft_machine f) sock = (Inr ino, m')"
  using bind_listener_free [OF assms(4-7) lock_inv_free [OF lock.reached assms(3)] assms(8)] assms(1,2,9)
  by (auto simp: reaches_def)

definition sample_crashed :: fleet where
  "sample_crashed = \<lparr>ft_machine = drop_locks (ft_pc sample_serving 5) (ft_machine sample_serving),
     ft_pc = (ft_pc sample_serving)(5 := Ended None)\<rparr>"

theorem free_socket_can_be_taken_witness:
  "\<exists>ino m'. bind_listener (sample_env 6) (ft_machine sample_crashed) sample_sock = (Inr ino, m')"
proof (rule free_socket_can_be_taken [OF sample_initial _ _ _ sample_parent])
  show "reaches sample_sock 1000 False False sample_fleet sample_crashed"
    unfolding sample_crashed_def by (rule reaches_step [OF sample_serving_reached]) (rule dstep.dies)
  show "\<forall>q. holds (ft_pc sample_crashed q) = None"
    using sample_only_holder by (simp add: sample_crashed_def)
  show "m_node (ft_machine sample_crashed) ''/r/h'' = Some (Directory 1000 448)" by code_simp
  show "\<forall>o' p'. m_node (ft_machine sample_crashed) sample_sock \<noteq> Some (Directory o' p')"
    by (simp add: sample_crashed_def sample_serving_simps)
  have "lock_ino (ft_machine sample_crashed) sample_sock = Some 0" by code_simp
  then show "m_node (ft_machine sample_crashed) (lock_path sample_sock) = None
      \<or> lock_ino (ft_machine sample_crashed) sample_sock \<noteq> None" by simp
qed (simp_all add: sample_env_def no_faults_def)

end
