(* ===== verification/Hired.thy ===== *)
theory Hired
  imports Daemon Server_Invariants
begin

text \<open>
  \<open>hired/src/main.rs\<close> as a whole run: start-up, the socket, the connections and their calls, and
  the end. What arrives at the daemon is a list of events; the calls are handled one after the
  other. Between a run and the next the file system is all that stays.
\<close>

section \<open>A call\<close>

datatype rpc =
    FetchX509SVID
  | FetchX509Bundles
  | FetchJWTSVID jwtsvid_request
  | FetchJWTBundles
  | ValidateJWTSVID validate_request u64
  | FetchWITSVID
  | FetchWITBundles

datatype rpc_reply =
    SvidReply "status + jwtsvid list"
  | BundleReply "status + (string \<times> byte list) list"
  | ValidReply "status + string \<times> (string \<times> pb_value) list option"

text \<open>What the service uses of \<open>serde_json\<close>. A call that panics has no reply.\<close>

record wire_lib =
  wl_to_vec :: "json \<Rightarrow> byte list option"
  wl_as_f64 :: "json_number \<Rightarrow> u64 option"
  wl_number :: "json_number \<Rightarrow> string"

fun handle_rpc ::
  "crypto_lib \<Rightarrow> wire_lib \<Rightarrow> 'w os \<Rightarrow> 'w workload_service \<Rightarrow> consumer_identity option \<Rightarrow> rpc \<Rightarrow> 'w
    \<Rightarrow> rpc_reply option \<times> 'w" where
  "handle_rpc lib wl os sv peer FetchX509SVID w = (Some (SvidReply fetch_x509svid), w)"
| "handle_rpc lib wl os sv peer FetchX509Bundles w = (Some (BundleReply (Inr (fetch_x509_bundles sv))), w)"
| "handle_rpc lib wl os sv peer (FetchJWTSVID req) w = apfst (map_option SvidReply) (fetch_jwtsvid lib os sv peer req w)"
| "handle_rpc lib wl os sv peer FetchJWTBundles w = (Some (BundleReply (fetch_jwt_bundles (wl_to_vec wl) sv)), w)"
| "handle_rpc lib wl os sv peer (ValidateJWTSVID req now) w =
     (Some (ValidReply (and_then (validate_jwtsvid lib (sv_bundles sv) now req) (\<lambda>r.
        Inr (validate_reply (wl_as_f64 wl) (wl_number wl) r)))), w)"
| "handle_rpc lib wl os sv peer FetchWITSVID w = (Some (SvidReply fetch_witsvid), w)"
| "handle_rpc lib wl os sv peer FetchWITBundles w = (Some (BundleReply fetch_wit_bundles), w)"

section \<open>Serving\<close>

text \<open>
  A connection is accepted, with what the kernel says of its peer at that moment; a call arrives
  on a connection; a signal arrives; or the transport stops, with an error or not.
\<close>

datatype event =
    Accepted nat kernel "string + ucred"
  | Called nat rpc
  | Signalled
  | TransportStopped "string option"

datatype ending = BySignal | ByServer "serve_error + unit"

fun serve_events ::
  "crypto_lib \<Rightarrow> wire_lib \<Rightarrow> 'w os \<Rightarrow> 'w workload_service \<Rightarrow> platform \<Rightarrow> event list
    \<Rightarrow> (nat \<rightharpoonup> consumer_identity option) \<Rightarrow> 'w \<Rightarrow> (nat \<times> rpc_reply option) list \<times> ending option \<times> 'w" where
  "serve_events lib wl os sv pf [] peers w = ([], None, w)"
| "serve_events lib wl os sv pf (Accepted c k cred # evs) peers w =
     serve_events lib wl os sv pf evs (peers(c \<mapsto> accept_peer (sha256 lib) pf k cred)) w"
| "serve_events lib wl os sv pf (Called c rpc # evs) peers w =
     (case peers c of
        None \<Rightarrow> serve_events lib wl os sv pf evs peers w
      | Some peer \<Rightarrow>
          (case handle_rpc lib wl os sv peer rpc w of (r, w1) \<Rightarrow>
             apfst ((#) (c, r)) (serve_events lib wl os sv pf evs peers w1)))"
| "serve_events lib wl os sv pf (Signalled # evs) peers w = ([], Some BySignal, w)"
| "serve_events lib wl os sv pf (TransportStopped err # evs) peers w =
     ([], Some (ByServer (case err of None \<Rightarrow> Inr () | Some e \<Rightarrow> Inl (Transport e))), w)"

section \<open>The run\<close>

datatype main_error =
    SignerFailed signer_error
  | HandlerFailed string
  | ServerFailed serve_error

text \<open>
  The \<open>select!\<close> and what follows it. \<open>early\<close>: a signal is pending and its branch is taken before
  the server's is first polled. The lock is dropped with the server's future; the clean-up is
  skipped when the server returns an error. No result means the daemon still serves.
\<close>

definition hired_run ::
  "crypto_lib \<Rightarrow> wire_lib \<Rightarrow> 'w os \<Rightarrow> 'w workload_service \<Rightarrow> platform \<Rightarrow> proc_env \<Rightarrow> string \<Rightarrow> bool \<Rightarrow> event list
    \<Rightarrow> machine \<Rightarrow> 'w \<Rightarrow> (main_error + unit) option \<times> (nat \<times> rpc_reply option) list \<times> machine \<times> 'w" where
  "hired_run lib wl os sv pf env sock early evs m w =
     (if early then (Some (Inr ()), [], cleanup env m sock, w)
      else case bind_listener env m sock of
        (Inl e, m1) \<Rightarrow> (Some (Inl (ServerFailed e)), [], m1, w)
      | (Inr ino, m1) \<Rightarrow>
          (case serve_events lib wl os sv pf evs Map.empty w of
             (rs, None, w1) \<Rightarrow> (None, rs, m1, w1)
           | (rs, Some (ByServer (Inl e)), w1) \<Rightarrow> (Some (Inl (ServerFailed e)), rs, unlock ino m1, w1)
           | (rs, Some _, w1) \<Rightarrow> (Some (Inr ()), rs, cleanup env (unlock ino m1) sock, w1)))"

text \<open>\<open>handlers\<close> is what registering the two signal handlers returns.\<close>

definition hired_main ::
  "crypto_lib \<Rightarrow> wire_lib \<Rightarrow> attest_lib \<Rightarrow> world os \<Rightarrow> (hid_param \<times> string) list option \<Rightarrow> host
    \<Rightarrow> byte list \<Rightarrow> string + byte list \<Rightarrow> platform \<Rightarrow> string option \<Rightarrow> nat \<times> byte list \<Rightarrow> string + unit
    \<Rightarrow> proc_env \<Rightarrow> bool \<Rightarrow> event list \<Rightarrow> machine \<Rightarrow> world
    \<Rightarrow> (main_error + unit) option \<times> (nat \<times> rpc_reply option) list \<times> machine \<times> world" where
  "hired_main lib wl alib os devices h sk random pf var confstr handlers env early evs m w =
     (case start_hired lib alib devices h sk random of
        Inl e \<Rightarrow> (Some (Inl (SignerFailed e)), [], m, w)
      | Inr sv \<Rightarrow>
          (case handlers of
             Inl e \<Rightarrow> (Some (Inl (HandlerFailed e)), [], m, w)
           | Inr _ \<Rightarrow>
               hired_run lib wl os sv pf env (workload_socket_path pf var confstr (pe_uid env)) early evs m w))"

section \<open>Whose identity a call has\<close>

text \<open>The connections after some events, and the identity each has.\<close>

fun peers_after ::
  "crypto_lib \<Rightarrow> platform \<Rightarrow> event list \<Rightarrow> (nat \<rightharpoonup> consumer_identity option) \<Rightarrow> nat \<rightharpoonup> consumer_identity option" where
  "peers_after lib pf [] peers = peers"
| "peers_after lib pf (Accepted c k cred # evs) peers =
     peers_after lib pf evs (peers(c \<mapsto> accept_peer (sha256 lib) pf k cred))"
| "peers_after lib pf (_ # evs) peers = peers_after lib pf evs peers"

text \<open>It is the identity attested when the connection was last accepted.\<close>

lemma peers_after_attested:
  assumes "peers_after lib pf evs peers c = Some peer"
  shows "peers c = Some peer \<and> (\<forall>k cred. Accepted c k cred \<notin> set evs)
    \<or> (\<exists>pre k cred post. evs = pre @ Accepted c k cred # post \<and> (\<forall>k' cred'. Accepted c k' cred' \<notin> set post)
         \<and> peer = accept_peer (sha256 lib) pf k cred)"
  using assms
proof (induction lib pf evs peers rule: peers_after.induct)
  case (2 lib pf d k cred evs peers)
  from 2(2) have "peers_after lib pf evs (peers(d \<mapsto> accept_peer (sha256 lib) pf k cred)) c = Some peer" by simp
  from "2.IH" [OF this] show ?case
  proof (elim disjE conjE exE)
    assume "(peers(d \<mapsto> accept_peer (sha256 lib) pf k cred)) c = Some peer" "\<forall>k cred. Accepted c k cred \<notin> set evs"
    then show ?thesis by (cases "c = d") (auto intro: exI [of _ "[]"])
  next
    fix pre k' cred' post
    assume "evs = pre @ Accepted c k' cred' # post" "\<forall>k' cred'. Accepted c k' cred' \<notin> set post"
      "peer = accept_peer (sha256 lib) pf k' cred'"
    then show ?thesis
      by (intro disjI2 exI [of _ "Accepted d k cred # pre"] exI [of _ k'] exI [of _ cred'] exI [of _ post]) simp
  qed
qed (auto, (metis append_Cons)+)

text \<open>Every reply is the handler's, to a call of that connection, for the identity it has.\<close>

lemma serve_events_reply:
  assumes "(c, r) \<in> set (fst (serve_events lib wl os sv pf evs peers w))"
  shows "\<exists>pre rpc post peer w1. evs = pre @ Called c rpc # post \<and> peers_after lib pf pre peers c = Some peer
    \<and> r = fst (handle_rpc lib wl os sv peer rpc w1)"
  using assms
proof (induction lib wl os sv pf evs peers w rule: serve_events.induct)
  case (2 lib wl os sv pf d k cred evs peers w)
  let ?peers = "peers(d \<mapsto> accept_peer (sha256 lib) pf k cred)"
  from 2(2) have "(c, r) \<in> set (fst (serve_events lib wl os sv pf evs ?peers w))" by (simp only: serve_events.simps)
  from "2.IH" [OF this] obtain pre rpc post peer w1 where "evs = pre @ Called c rpc # post"
    "peers_after lib pf pre ?peers c = Some peer" "r = fst (handle_rpc lib wl os sv peer rpc w1)" by blast
  then show ?case
    by (intro exI [of _ "Accepted d k cred # pre"] exI [of _ rpc] exI [of _ post] exI [of _ peer] exI [of _ w1]) simp
next
  case (3 lib wl os sv pf d rpc evs peers w)
  have later: "?case" if "(c, r) \<in> set (fst (serve_events lib wl os sv pf evs peers w1))"
    and IH: "(c, r) \<in> set (fst (serve_events lib wl os sv pf evs peers w1)) \<Longrightarrow>
      \<exists>pre rpc post peer w'. evs = pre @ Called c rpc # post \<and> peers_after lib pf pre peers c = Some peer
        \<and> r = fst (handle_rpc lib wl os sv peer rpc w')" for w1
  proof -
    from IH [OF that(1)] obtain pre rpc' post peer w' where "evs = pre @ Called c rpc' # post"
      "peers_after lib pf pre peers c = Some peer" "r = fst (handle_rpc lib wl os sv peer rpc' w')" by blast
    then show ?thesis
      by (intro exI [of _ "Called d rpc # pre"] exI [of _ rpc'] exI [of _ post] exI [of _ peer] exI [of _ w']) simp
  qed
  show ?case
  proof (cases "peers d")
    case None
    with 3(3) have "(c, r) \<in> set (fst (serve_events lib wl os sv pf evs peers w))" by simp
    with later [OF _ "3.IH"(1) [OF None]] show ?thesis by blast
  next
    case (Some peer)
    obtain r1 w1 where h: "handle_rpc lib wl os sv peer rpc w = (r1, w1)" by fastforce
    from 3(3) Some h consider "c = d" "r = r1" | "(c, r) \<in> set (fst (serve_events lib wl os sv pf evs peers w1))" by auto
    then show ?thesis
    proof cases
      case 1
      with Some h show ?thesis by (intro exI [of _ "[]"] exI [of _ rpc] exI [of _ evs] exI [of _ peer] exI [of _ w]) simp
    next
      case 2
      with later [OF _ "3.IH"(2) [OF Some h [symmetric]]] show ?thesis by blast
    qed
  qed
qed simp_all

lemma handle_svids:
  assumes "Some (SvidReply (Inr svids)) = fst (handle_rpc lib wl os sv peer rpc w)"
  obtains req w' where "rpc = FetchJWTSVID req" and "fetch_jwtsvid lib os sv peer req w = (Some (Inr svids), w')"
proof (cases rpc)
  case (FetchJWTSVID req)
  obtain x w' where f: "fetch_jwtsvid lib os sv peer req w = (x, w')" by fastforce
  with assms FetchJWTSVID have "x = Some (Inr svids)" by (cases x) auto
  with f FetchJWTSVID that show thesis by blast
qed (use assms in \<open>simp_all add: fetch_x509svid_def fetch_witsvid_def\<close>)

lemma hired_run_replies:
  assumes "hired_run lib wl os sv pf env sock early evs m w = (out, rs, m', w')" "rep \<in> set rs"
  shows "rep \<in> set (fst (serve_events lib wl os sv pf evs Map.empty w))"
  using assms by (auto simp: hired_run_def split: if_splits prod.splits sum.splits option.splits ending.splits)

section \<open>What a run leaves behind\<close>

lemma advance_in_funpow:
  "ft_pc f = (\<lambda>_. Starting) \<Longrightarrow>
     (advance_in env sock ^^ n) f =
       (case (advance env sock ^^ n) (Starting, ft_machine f) of
          (c, m) \<Rightarrow> \<lparr>ft_machine = m, ft_pc = (\<lambda>_. Starting)(pe_pid env := c)\<rparr>)"
proof (induction n)
  case (Suc n)
  obtain c m where "(advance env sock ^^ n) (Starting, ft_machine f) = (c, m)" by fastforce
  with Suc show ?case by (simp add: advance_in_def fun_upd_def split: prod.split) (auto simp: fun_eq_iff)
qed (simp add: fun_upd_idem)

text \<open>The state of the machine once the socket has been taken.\<close>

lemma bound_machine:
  assumes bind: "bind_listener env m sock = (Inr ino, m1)" and dir: "path_parent sock = Some dir" "dir \<noteq> []"
    and idle: "m_lock m = (\<lambda>_. None)" "plain m (lock_path sock)" "plain m dir"
  shows "m_lock m1 = [ino \<mapsto> pe_pid env]" "lock_ino m1 sock = Some ino"
    "m_node m1 sock = Some (SocketFile (pe_pid env) (pe_uid env) 384)" "ok_at m1 (pe_uid env) dir"
proof -
  let ?f = "\<lparr>ft_machine = m, ft_pc = (\<lambda>_. Starting)\<rparr>"
  let ?g = "\<lparr>ft_machine = m1, ft_pc = (\<lambda>_. Starting)(pe_pid env := Serving ino)\<rparr>"
  have init: "initial_fleet sock ?f" using idle dir by (simp add: initial_fleet_def)
  have "(advance_in env sock ^^ 7) ?f = ?g"
    by (simp add: advance_in_funpow advance_runs_bind_listener bind)
  with reaches_advance_in [where n = 7 and env = env, OF reaches_refl refl, of sock False False ?f]
  have reach: "(dstep sock (pe_uid env) False False)\<^sup>*\<^sup>* ?f ?g" by (simp add: reaches_def)
  have lock: "lock_inv sock ?g" by (rule lock.reached [OF init reach])
  then show "lock_ino m1 sock = Some ino" by (auto simp: lock_inv_def)
  from lock have "m_lock m1 i = Some p \<longleftrightarrow> p = pe_pid env \<and> i = ino" for i p
    by (auto simp: lock_inv_def split: if_splits)
  then show "m_lock m1 = [ino \<mapsto> pe_pid env]" by (auto simp: fun_eq_iff) (metis not_None_eq)
  from served.both.reached [OF init reach] dir show "m_node m1 sock = Some (SocketFile (pe_pid env) (pe_uid env) 384)"
    by (simp add: served_inv_def)
  from vetted.both.reached [OF init reach] dir show "ok_at m1 (pe_uid env) dir"
    by (auto simp: vetted_inv_def dest: spec [of _ "pe_pid env"])
qed

text \<open>The clean-up changes the socket path alone, and only to remove what is there.\<close>

lemma cleanup_at: "m_node (cleanup env m sock) sock = None \<or> m_node (cleanup env m sock) sock = m_node m sock"
  by (auto simp: cleanup_def sys_unlink_def split: sum.split)

lemma cleanup_removes:
  assumes "no_faults env" "m_node m sock = Some (SocketFile p u md)"
  shows "m_node (cleanup env m sock) sock = None"
  using assms by (simp add: cleanup_def sys_stat_def sys_unlink_def plain_follow plain_def)

lemma hired_run_ended:
  assumes "hired_run lib wl os sv pf env sock False evs m w = (Some out, rs, m', w')"
    and "bind_listener env m sock = (Inr ino, m1)"
  shows "m' = unlock ino m1 \<and> out \<noteq> Inr () \<or> m' = cleanup env (unlock ino m1) sock \<and> out = Inr ()"
  using assms by (auto simp: hired_run_def split: prod.splits option.splits ending.splits sum.splits)

lemma ok_at_dir: "ok_at m uid dir \<Longrightarrow> \<exists>owner perm. m_node m dir = Some (Directory owner perm)
    \<and> (owner = uid \<or> owner = 0 \<and> perm AND 512 \<noteq> 0)"
  by (auto simp: ok_at_def elim: dir_ok.elims)

lemma workload_socket_parent:
  obtains dir where "path_parent (workload_socket_path pf var confstr uid) = Some dir" and "dir \<noteq> []"
proof -
  obtain d where d: "workload_socket_path pf var confstr uid = d @ ''/workload.sock''" "d \<noteq> []"
    using socket_under_private [of "runtime_dir pf var confstr" uid] by (auto simp: workload_socket_path_def)
  have "path_parent (d @ ''/workload.sock'') = Some d"
    using d(2) by (auto simp: path_parent_def Let_def)
  with d that show thesis by simp
qed

text \<open>A machine no daemon has touched yet, as far as this socket goes.\<close>

definition idle_machine :: "string \<Rightarrow> machine \<Rightarrow> bool" where
  "idle_machine sock m \<longleftrightarrow> initial_fleet sock \<lparr>ft_machine = m, ft_pc = (\<lambda>_. Starting)\<rparr>"

section \<open>Properties\<close>

text \<open>
  C2: an SVID goes to the executable its connection was attested as. Whatever arrives in a run
  of the daemon, in whatever order, over however many connections, every SVID in a reply has as
  its subject the pseudonym, under the key of this run, of the executable whose hash was taken
  when that connection was last accepted; a program that replaces its executable later, or
  another connection, changes nothing.
\<close>

theorem svid_goes_to_the_attested_executable:
  assumes "hired_main lib wl alib os devices h sk random pf var confstr handlers env early evs m w = (out, rs, m', w')"
    and "(c, Some (SvidReply (Inr svids))) \<in> set rs" and "svid \<in> set svids"
  shows "\<exists>signer pre k u mid req post content root. new_signer lib sk random = Inr signer
    \<and> evs = pre @ Accepted c k (Inr u) # mid @ Called c (FetchJWTSVID req) # post
    \<and> (\<forall>k' cred'. Accepted c k' cred' \<notin> set mid)
    \<and> accept_peer (sha256 lib) pf k (Inr u) = Some (BinarySha256 (sha256 lib content))
    \<and> sv_spiffe_id svid = uri (pseudonymous_id lib signer root (BinarySha256 (sha256 lib content)))"
proof -
  from assms(1,2) obtain signer where signer: "new_signer lib sk random = Inr signer"
    and run: "hired_run lib wl os (hired_service lib alib devices h signer) pf env
      (workload_socket_path pf var confstr (pe_uid env)) early evs m w = (out, rs, m', w')"
    by (cases "new_signer lib sk random") (auto simp: hired_main_def start_hired_def split: sum.splits)
  let ?sv = "hired_service lib alib devices h signer"
  from serve_events_reply [OF hired_run_replies [OF run assms(2)]] obtain before rpc post peer w1 where
    evs: "evs = before @ Called c rpc # post" and peer: "peers_after lib pf before Map.empty c = Some peer"
    and rep: "Some (SvidReply (Inr svids)) = fst (handle_rpc lib wl os ?sv peer rpc w1)" by blast
  from rep obtain req w2 where req: "rpc = FetchJWTSVID req"
    and f: "fetch_jwtsvid lib os ?sv peer req w1 = (Some (Inr svids), w2)" by (rule handle_svids)
  from peers_after_attested [OF peer] obtain pre k cred mid where
    b: "before = pre @ Accepted c k cred # mid" "\<forall>k' cred'. Accepted c k' cred' \<notin> set mid"
    and p: "peer = accept_peer (sha256 lib) pf k cred" by auto
  from f assms(3) obtain consumer and cl :: claim and exts :: "audience_extensions list" and now w3 w4 where
    cons: "peer = Some consumer" and i: "issue lib os (sv_signer ?sv) cl consumer (map audience exts)
      (strictest_presence exts) (tightest_age exts) now w3 = (Some (Inr svid), w4)"
    by (rule fetch_svid_from_claim) (rule that)
  have "sv_signer ?sv = signer" by (simp add: hired_service_def)
  with issue_Inr [OF i] have sid: "sv_spiffe_id svid = uri (pseudonymous_id lib signer (cl_spiffe_id cl) consumer)" by auto
  from p cons have "accept_peer (sha256 lib) pf k cred = Some consumer" by simp
  then obtain u content where "cred = Inr u" "consumer = BinarySha256 (sha256 lib content)"
    by (auto simp: accept_peer_Some attest_peer_Inr)
  with signer evs req b p cons sid show ?thesis
    by (intro exI [of _ signer] exI [of _ pre] exI [of _ k] exI [of _ u] exI [of _ mid] exI [of _ req] exI [of _ post]
        exI [of _ content] exI [of _ "cl_spiffe_id cl"] conjI) simp_all
qed

text \<open>
  C19: the daemon can be started again. On a machine where no daemon runs and no link stands in
  the way, a run that took its socket and then ended, by a signal or by a failure of the
  transport, leaves a machine on which a daemon of the same user whose system calls do not fail
  takes the socket; and when the run ended without an error and its own calls did not fail, no
  socket is left.
\<close>

theorem daemon_can_be_started_again:
  assumes "hired_main lib wl alib os devices h sk random pf var confstr (Inr ()) env False evs m w = (Some out, rs, m', w')"
    and "new_signer lib sk random = Inr signer"
    and "bind_listener env m (workload_socket_path pf var confstr (pe_uid env)) = (Inr ino, m1)"
    and "idle_machine (workload_socket_path pf var confstr (pe_uid env)) m"
    and "no_faults env'" and "pe_uid env' = pe_uid env"
  shows "(\<exists>ino' m2. bind_listener env' m' (workload_socket_path pf var confstr (pe_uid env)) = (Inr ino', m2))
    \<and> (out = Inr () \<and> no_faults env \<longrightarrow> m_node m' (workload_socket_path pf var confstr (pe_uid env)) = None)"
proof -
  let ?sock = "workload_socket_path pf var confstr (pe_uid env)"
  obtain dir where dir: "path_parent ?sock = Some dir" "dir \<noteq> []" by (rule workload_socket_parent)
  from assms(4) dir have idle: "m_lock m = (\<lambda>_. None)" "plain m (lock_path ?sock)" "plain m dir"
    by (auto simp: idle_machine_def initial_fleet_def)
  note b = bound_machine [OF assms(3) dir idle]
  from assms(1,2) have "m' = unlock ino m1 \<and> out \<noteq> Inr () \<or> m' = cleanup env (unlock ino m1) ?sock \<and> out = Inr ()"
    by (intro hired_run_ended [OF _ assms(3)]) (simp add: hired_main_def start_hired_def)
  then have m': "m' = unlock ino m1 \<or> m' = cleanup env (unlock ino m1) ?sock"
    and ok: "out = Inr () \<Longrightarrow> m' = cleanup env (unlock ino m1) ?sock" by auto
  have frame: "m_node m' q = m_node m1 q" if "q \<noteq> ?sock" for q using m' that by (auto simp: cleanup_frame)
  have ne: "dir \<noteq> ?sock" using path_parent_shorter [OF dir(1)] by auto
  obtain owner perm where d: "m_node m' dir = Some (Directory owner perm)" "owner = pe_uid env' \<or> owner = 0 \<and> perm AND 512 \<noteq> 0"
    using ok_at_dir [OF b(4)] frame [OF ne] assms(6) by auto
  have free: "m_lock m' = (\<lambda>_. None)" using m' b(1) by auto
  have "lock_ino m' ?sock = Some ino" using b(2) frame [of "lock_path ?sock"] by (simp add: lock_ino_def)
  then have lk: "m_node m' (lock_path ?sock) = None \<or> lock_ino m' ?sock \<noteq> None" by simp
  have "m_node m' ?sock \<noteq> Some (Directory o' p')" for o' p'
    using m' b(3) cleanup_at [of env "unlock ino m1" ?sock] by auto
  from bind_listener_free [OF assms(5) dir(1) d free lk this] ok b(3) cleanup_removes [of env "unlock ino m1" ?sock]
  show ?thesis by auto
qed

end
