(* ===== verification/Cli.thy ===== *)
theory Cli
  imports Daemon
begin

text \<open>
  \<open>hire/src/main.rs\<close>: the command-line client. A command writes lines to standard output and
  standard error and ends with an exit code, or with an error that \<open>main\<close> returns, which is
  printed and exits 1. The connection to the daemon, base64, JSON and the clock are what the
  client is given.
\<close>

section \<open>Data\<close>

datatype cli_line = Out string | Err string | RawOut string

datatype cli_exit = Exit nat | Failed string

fun exit_code :: "cli_exit \<Rightarrow> nat" where
  "exit_code (Exit n) = n"
| "exit_code (Failed e) = 1"

type_synonym 'w command = "'w \<Rightarrow> cli_line list \<times> cli_exit \<times> 'w"

fun is_out :: "cli_line \<Rightarrow> bool" where
  "is_out (Out _) \<longleftrightarrow> True"
| "is_out (RawOut _) \<longleftrightarrow> True"
| "is_out (Err _) \<longleftrightarrow> False"

record 'w client =
  ct_path :: string
  ct_exists :: "'w \<Rightarrow> bool"
  ct_connect :: "'w \<Rightarrow> bool \<times> 'w"
  ct_fetch :: "jwtsvid_request \<Rightarrow> 'w \<Rightarrow> (status + jwtsvid list) \<times> 'w"
  ct_bundles :: "'w \<Rightarrow> (string + (string + (string \<times> byte list) list) list) \<times> 'w"
  ct_now :: "'w \<Rightarrow> sys_time \<times> 'w"
  ct_b64url_decode :: "string \<Rightarrow> byte list option"
  ct_json :: "byte list \<Rightarrow> string + json"
  ct_pretty :: "json \<Rightarrow> string + string"

section \<open>Connecting\<close>

definition connect_to_daemon :: "'w client \<Rightarrow> 'w \<Rightarrow> (string + unit) \<times> 'w" where
  "connect_to_daemon ct w =
     (if \<not> ct_exists ct w then
        (Inl (''hired socket not found at '' @ ct_path ct @ newline #
           ''Is hired running? Try: systemctl --user start hired''), w)
      else case ct_connect ct w of
        (True, w') \<Rightarrow> (Inr (), w')
      | (False, w') \<Rightarrow> (Inl (''cannot connect to hired at '' @ ct_path ct), w'))"

text \<open>Connect, send one \<open>FetchJWTSVID\<close>, and go on with its answer.\<close>

definition call_daemon ::
  "'w client \<Rightarrow> jwtsvid_request \<Rightarrow> (status + jwtsvid list \<Rightarrow> cli_line list \<times> cli_exit) \<Rightarrow> 'w command" where
  "call_daemon ct req k w =
     (case connect_to_daemon ct w of
        (Inl e, w') \<Rightarrow> ([], Failed e, w')
      | (Inr _, w') \<Rightarrow> (case ct_fetch ct req w' of (r, w'') \<Rightarrow> (fst (k r), snd (k r), w'')))"

section \<open>Asking who one is\<close>

text \<open>The slice of the token is by bytes; a token is ASCII, so a slice never splits a character.\<close>

definition whoami_line :: "jwtsvid \<Rightarrow> cli_line list" where
  "whoami_line s = [Out (''spiffe_id: '' @ sv_spiffe_id s),
     Out (''token:     '' @ take 40 (sv_svid s) @ '' (truncated)'')]"

definition whoami_answer :: "status + jwtsvid list \<Rightarrow> cli_line list \<times> cli_exit" where
  "whoami_answer r =
     (case r of
        Inr svids \<Rightarrow>
          if svids = [] then ([Err ''error: no identity''], Exit 1) else (concat (map whoami_line svids), Exit 0)
      | Inl st \<Rightarrow> ([Err (''hired: '' @ snd st)], Exit 1))"

definition whoami :: "'w client \<Rightarrow> 'w command" where
  "whoami ct = call_daemon ct \<lparr>rq_audience = [''hire:whoami''], rq_spiffe_id = []\<rparr> whoami_answer"

section \<open>Listing candidates\<close>

fun attestor_error_message :: "attestor_error \<Rightarrow> string" where
  "attestor_error_message (Unavailable e) = ''source unavailable: '' @ e"
| "attestor_error_message (ChallengeFailed e) = ''challenge failed: '' @ e"
| "attestor_error_message (Io e) = ''IO error: '' @ e"

definition enumerate_summary :: "nat \<Rightarrow> nat \<Rightarrow> string" where
  "enumerate_summary sources candidates =
     show_nat sources @ '' identity '' @ (if sources = 1 then ''source'' else ''sources'') @ '' active, ''
     @ show_nat candidates @ '' '' @ (if candidates = 1 then ''candidate'' else ''candidates'') @ '' found''"

definition candidate_line :: "candidate \<Rightarrow> cli_line" where
  "candidate_line c = Out (cand_source c @ '' | '' @ uri (candidate_spiffe_id c) @ '' | '' @ cand_display_name c)"

fun enumerate_sources :: "'w attestor list \<Rightarrow> 'w \<Rightarrow> cli_line list \<times> nat \<times> 'w" where
  "enumerate_sources [] w = ([], 0, w)"
| "enumerate_sources (a # as) w =
     (case at_enumerate a w of (r, w') \<Rightarrow>
        (case enumerate_sources as w' of (rest, n, w'') \<Rightarrow>
           (case r of
              Inr found \<Rightarrow> (map candidate_line found @ rest, length found + n, w'')
            | Inl e \<Rightarrow> (Err (''warning: '' @ at_name a @ '' enumerate failed: '' @ attestor_error_message e) # rest, n, w''))))"

definition enumerate_cmd :: "'w attestor list \<Rightarrow> 'w command" where
  "enumerate_cmd sources w =
     (case enumerate_sources sources w of (found, n, w') \<Rightarrow>
        (found @ [Err (enumerate_summary (length sources) n),
           Err ''This list is what this shell can see. hired probes its own environment,'',
           Err ''which this command does not read and cannot report: the daemon can hold'',
           Err ''identities missing from this list and miss ones this list shows. Ask hired'',
           Err ''directly with 'hire whoami'.''], Exit 0, w'))"

section \<open>Fetching a token\<close>

record fetch_flags =
  ff_audience :: "string option"
  ff_spiffe_id :: string
  ff_decode :: bool

text \<open>A flag that is given last, without its value, resets what it names.\<close>

fun fetch_jwt_flags :: "string list \<Rightarrow> fetch_flags \<Rightarrow> string + fetch_flags" where
  "fetch_jwt_flags [] ff = Inr ff"
| "fetch_jwt_flags (x # xs) ff =
     (if x = ''--audience'' then
        (case xs of [] \<Rightarrow> Inr (ff\<lparr>ff_audience := None\<rparr>) | v # ys \<Rightarrow> fetch_jwt_flags ys (ff\<lparr>ff_audience := Some v\<rparr>))
      else if x = ''--spiffe-id'' then
        (case xs of [] \<Rightarrow> Inr (ff\<lparr>ff_spiffe_id := []\<rparr>) | v # ys \<Rightarrow> fetch_jwt_flags ys (ff\<lparr>ff_spiffe_id := v\<rparr>))
      else if x = ''--decode'' then fetch_jwt_flags xs (ff\<lparr>ff_decode := True\<rparr>)
      else Inl x)"

definition no_flags :: fetch_flags where
  "no_flags = \<lparr>ff_audience = None, ff_spiffe_id = [], ff_decode = False\<rparr>"

definition unknown_flag :: "string \<Rightarrow> cli_line list" where
  "unknown_flag f = [Err (''unknown flag: '' @ f)]"

text \<open>The first two parts of \<open>splitn(3, '.')\<close>.\<close>

definition jwt_parts :: "string \<Rightarrow> (string \<times> string) option" where
  "jwt_parts jwt =
     (case split_once CHR ''.'' jwt of
        None \<Rightarrow> None
      | Some (a, rest) \<Rightarrow> Some (a, case split_once CHR ''.'' rest of None \<Rightarrow> rest | Some (b, _) \<Rightarrow> b))"

definition decode_part :: "'w client \<Rightarrow> string \<Rightarrow> string \<Rightarrow> string + json" where
  "decode_part ct what part =
     and_then (ok_or (''base64 decode JWT '' @ what) (ct_b64url_decode ct part)) (\<lambda>bs.
     map_err (\<lambda>_. ''parse JWT '' @ what) (ct_json ct bs))"

definition show_decoded :: "'w client \<Rightarrow> string \<Rightarrow> cli_line list \<times> cli_exit" where
  "show_decoded ct jwt =
     (case jwt_parts jwt of
        None \<Rightarrow> ([Err ''error: malformed JWT''], Exit 1)
      | Some (h, c) \<Rightarrow>
          (case decode_part ct ''header'' h of
             Inl e \<Rightarrow> ([], Failed e)
           | Inr header \<Rightarrow>
               (case decode_part ct ''claims'' c of
                  Inl e \<Rightarrow> ([], Failed e)
                | Inr claims \<Rightarrow>
                    (case ct_pretty ct header of
                       Inl e \<Rightarrow> ([], Failed e)
                     | Inr ph \<Rightarrow>
                         (case ct_pretty ct claims of
                            Inl e \<Rightarrow> ([Out (''header: '' @ ph)], Failed e)
                          | Inr pc \<Rightarrow> ([Out (''header: '' @ ph), Out (''claims: '' @ pc)], Exit 0))))))"

definition token_answer :: "(string \<Rightarrow> cli_line list \<times> cli_exit) \<Rightarrow> status + jwtsvid list \<Rightarrow> cli_line list \<times> cli_exit" where
  "token_answer present r =
     (case r of
        Inr [] \<Rightarrow> ([Err ''error: no SVIDs returned''], Exit 1)
      | Inr (s # _) \<Rightarrow> present (sv_svid s)
      | Inl st \<Rightarrow> ([Err (''error: hired: '' @ snd st)], Exit 1))"

definition print_token :: "string \<Rightarrow> cli_line list \<times> cli_exit" where
  "print_token jwt = ([Out jwt], Exit 0)"

definition fetch_jwt_cmd :: "'w client \<Rightarrow> string list \<Rightarrow> 'w command" where
  "fetch_jwt_cmd ct args w =
     (case fetch_jwt_flags args no_flags of
        Inl f \<Rightarrow> (unknown_flag f, Exit 1, w)
      | Inr ff \<Rightarrow>
          (case ff_audience ff of
             None \<Rightarrow> ([Err ''error: --audience is required'',
                Err ''usage: hire fetch-jwt --audience <url> [--spiffe-id <id>] [--decode]''], Exit 1, w)
           | Some a \<Rightarrow>
               call_daemon ct \<lparr>rq_audience = [a], rq_spiffe_id = ff_spiffe_id ff\<rparr>
                 (token_answer (if ff_decode ff then show_decoded ct else print_token)) w))"

section \<open>Proving to a peer\<close>

fun prove_flags :: "string list \<Rightarrow> string option \<times> string option \<Rightarrow> string + string option \<times> string option" where
  "prove_flags [] acc = Inr acc"
| "prove_flags (x # xs) (aud, ch) =
     (if x = ''--audience'' then
        (case xs of [] \<Rightarrow> Inr (None, ch) | v # ys \<Rightarrow> prove_flags ys (Some v, ch))
      else if x = ''--challenge'' then
        (case xs of [] \<Rightarrow> Inr (aud, None) | v # ys \<Rightarrow> prove_flags ys (aud, Some v))
      else Inl x)"

definition prove_usage :: string where
  "prove_usage = ''usage: hire prove --audience <url> --challenge <nonce>''"

definition audience_with_challenge :: "string \<Rightarrow> string \<Rightarrow> string" where
  "audience_with_challenge aud ch = aud @ ''?challenge='' @ ch"

definition prove_cmd :: "'w client \<Rightarrow> string list \<Rightarrow> 'w command" where
  "prove_cmd ct args w =
     (case prove_flags args (None, None) of
        Inl f \<Rightarrow> (unknown_flag f, Exit 1, w)
      | Inr (None, _) \<Rightarrow> ([Err ''error: --audience is required'', Err prove_usage], Exit 1, w)
      | Inr (Some a, None) \<Rightarrow> ([Err ''error: --challenge is required'', Err prove_usage], Exit 1, w)
      | Inr (Some a, Some ch) \<Rightarrow>
          call_daemon ct \<lparr>rq_audience = [audience_with_challenge a ch], rq_spiffe_id = []\<rparr>
            (token_answer print_token) w)"

section \<open>What is not implemented\<close>

definition fetch_x509_cmd :: "'w command" where
  "fetch_x509_cmd w = ([Err ''error: X.509-SVID issuance not yet implemented (hire-4qm)''], Exit 1, w)"

definition sub_command :: "string list \<Rightarrow> string" where
  "sub_command args = (case args of [] \<Rightarrow> ''--help'' | x # _ \<Rightarrow> x)"

definition enroll_usage :: string where
  "enroll_usage = ''usage: hire enroll app | origin <url>''"

definition enroll_cmd :: "string list \<Rightarrow> 'w command" where
  "enroll_cmd args w =
     (let sub = sub_command args in
      if sub = ''app'' \<or> sub = ''origin'' then
        ([Err (''error: enroll '' @ sub @ '' is not implemented''),
          Err ''There is no enrollment store. The CLI records nothing and hired keeps'',
          Err ''no enrollment state, so this command grants no origin or application any'',
          Err ''scope, and un-enrolled callers are not denied anything.''], Exit 1, w)
      else if sub = ''--help'' \<or> sub = ''-h'' then ([Out enroll_usage], Exit 0, w)
      else ([Err (''unknown enroll subcommand: '' @ sub), Err enroll_usage], Exit 1, w))"

section \<open>Trust bundles\<close>

definition bundle_line :: "string \<times> byte list \<Rightarrow> cli_line" where
  "bundle_line b = Out (''  domain: '' @ fst b @ ''  (jwks: '' @ show_nat (length (snd b)) @ '' bytes)'')"

text \<open>The responses are read until the stream ends or fails.\<close>

fun list_bundles :: "(string + (string \<times> byte list) list) list \<Rightarrow> cli_line list \<times> cli_exit" where
  "list_bundles [] = ([], Exit 0)"
| "list_bundles (Inl e # rs) = ([], Failed ''stream error'')"
| "list_bundles (Inr bs # rs) = apfst ((@) (map bundle_line bs)) (list_bundles rs)"

definition trust_bundle_usage :: string where
  "trust_bundle_usage = ''usage: hire trust-bundle <list|add <url>|remove <domain>>''"

definition trust_bundle_cmd :: "'w client \<Rightarrow> string list \<Rightarrow> 'w command" where
  "trust_bundle_cmd ct args w =
     (let sub = sub_command args in
      if sub = ''list'' then
        (case connect_to_daemon ct w of
           (Inl e, w') \<Rightarrow> ([], Failed e, w')
         | (Inr _, w') \<Rightarrow>
             (case ct_bundles ct w' of
                (Inl e, w'') \<Rightarrow> ([], Failed ''fetch_jwt_bundles'', w'')
              | (Inr rs, w'') \<Rightarrow> (fst (list_bundles rs), snd (list_bundles rs), w'')))
      else if sub = ''add'' then
        ([Err ''error: trust-bundle add is not implemented (requires hired support)'',
          Err ''No trust anchor was added. hired was not contacted.''], Exit 1, w)
      else if sub = ''remove'' then
        ([Err ''error: trust-bundle remove is not implemented'',
          Err ''No trust anchor was removed. hired was not contacted, so any anchor'',
          Err ''for that domain is still live and tokens from it still validate.''], Exit 1, w)
      else if sub = ''--help'' \<or> sub = ''-h'' then ([Out trust_bundle_usage], Exit 0, w)
      else ([Err (''unknown trust-bundle subcommand: '' @ sub), Err trust_bundle_usage], Exit 1, w))"

section \<open>Watching\<close>

definition unix_timestamp :: "sys_time \<Rightarrow> u64" where
  "unix_timestamp now = (case duration_since now unix_epoch of Some d \<Rightarrow> as_secs d | None \<Rightarrow> 0)"

definition stamped :: "u64 \<Rightarrow> string \<Rightarrow> string" where
  "stamped now text = ''['' @ show_nat (unat now) @ ''] '' @ text"

definition watch_tick :: "'w client \<Rightarrow> 'w \<Rightarrow> cli_line list \<times> 'w" where
  "watch_tick ct w =
     (case ct_now ct w of (clock, w1) \<Rightarrow>
        (let now = unix_timestamp clock in
         case connect_to_daemon ct w1 of
           (Inl e, w2) \<Rightarrow> ([Err (stamped now (''error: '' @ e))], w2)
         | (Inr _, w2) \<Rightarrow>
             (case ct_fetch ct \<lparr>rq_audience = [''hire:watch''], rq_spiffe_id = []\<rparr> w2 of
                (Inr svids, w3) \<Rightarrow>
                  (map (\<lambda>s. Out (stamped now (sv_spiffe_id s))) svids
                   @ (if svids = [] then [Out (stamped now ''no identity'')] else []), w3)
              | (Inl st, w3) \<Rightarrow> ([Err (stamped now (''error: '' @ snd st))], w3))))"

text \<open>
  The loop over the events it waits for; without an exit it is still running after them.
\<close>

datatype watch_event = Tick | CtrlC

fun watch_loop :: "'w client \<Rightarrow> watch_event list \<Rightarrow> 'w \<Rightarrow> cli_line list \<times> cli_exit option \<times> 'w" where
  "watch_loop ct [] w = ([], None, w)"
| "watch_loop ct (CtrlC # es) w = ([], Some (Exit 0), w)"
| "watch_loop ct (Tick # es) w =
     (case watch_tick ct w of (lines, w') \<Rightarrow> apfst ((@) lines) (watch_loop ct es w'))"

section \<open>Logs and installation\<close>

definition show_log :: "platform \<Rightarrow> bool \<Rightarrow> 'w command" where
  "show_log pf systemd w =
     (Out ''hired writes structured audit events to its stderr.'' #
      (if pf = MacOS then
         [Out ''launchd routes that to a file; the unified log never sees it.'',
          Out ''To follow it: tail -f ~/Library/Logs/hired.log'']
       else if systemd then
         [Out ''systemd routes that to the journal.'', Out ''To follow it: journalctl --user -u hired -f'']
       else
         [Out ''systemd is not running here, so there is no journal to read.'',
          Out ''Read the stderr of however hired was started.'']), Exit 0, w)"

text \<open>\<open>str::replace\<close> with a pattern that is not empty.\<close>

function str_replace :: "string \<Rightarrow> string \<Rightarrow> string \<Rightarrow> string" where
  "str_replace pat new s =
     (if pat = [] \<or> s = [] then s
      else if take (length pat) s = pat then new @ str_replace pat new (drop (length pat) s)
      else hd s # str_replace pat new (tl s))"
  by pat_completeness auto
termination
  by (relation "measure (\<lambda>(pat, new, s). length s)") (auto simp: diff_less)

declare str_replace.simps [simp del]

text \<open>
  What installation sees of the machine and the texts it ships. The result has the files it
  wrote; a directory or a file that cannot be made is an error.
\<close>

record install_env =
  ie_home :: "string option"
  ie_systemd :: bool
  ie_mkdir :: "string \<Rightarrow> string option"
  ie_write :: "string \<Rightarrow> string option"
  ie_plist :: string
  ie_unit :: string

type_synonym installed = "cli_line list \<times> cli_exit \<times> (string \<times> string) list"

definition install_launchd :: "install_env \<Rightarrow> string \<Rightarrow> installed" where
  "install_launchd ie home =
     (let dir = path_join home ''Library/LaunchAgents''; dest = path_join dir ''hired.plist'';
          plist = str_replace ''__HOME__'' home (ie_plist ie)
      in case ie_mkdir ie dir of
           Some e \<Rightarrow> ([], Failed e, [])
         | None \<Rightarrow>
             (case ie_write ie dest of
                Some e \<Rightarrow> ([], Failed e, [])
              | None \<Rightarrow>
                  (case ie_mkdir ie (path_join home ''Library/Logs'') of
                     Some e \<Rightarrow> ([Out ''installed hired.plist''], Failed e, [(dest, plist)])
                   | None \<Rightarrow> ([Out ''installed hired.plist'', Out ''logs: ~/Library/Logs/hired.log'',
                        Out ''run: launchctl load ~/Library/LaunchAgents/hired.plist''], Exit 0, [(dest, plist)]))))"

definition install_systemd :: "install_env \<Rightarrow> string \<Rightarrow> installed" where
  "install_systemd ie home =
     (let dir = path_join home ''.config/systemd/user''; dest = path_join dir ''hired.service'' in
      if \<not> ie_systemd ie then
        ([Err ''error: systemd is not running here, so nothing was installed.'',
          Err ''The unit is on stdout. Install it by hand at'',
          Err (dir @ ''/hired.service''), RawOut (ie_unit ie)], Exit 1, [])
      else case ie_mkdir ie dir of
        Some e \<Rightarrow> ([], Failed (''create '' @ dir), [])
      | None \<Rightarrow>
          (case ie_write ie dest of
             Some e \<Rightarrow> ([], Failed (''write '' @ dest), [])
           | None \<Rightarrow> ([Out ''installed hired.service, run: systemctl --user enable --now hired''], Exit 0,
                [(dest, ie_unit ie)])))"

definition install_service :: "platform \<Rightarrow> install_env \<Rightarrow> installed" where
  "install_service pf ie =
     (case ie_home ie of
        None \<Rightarrow> ([], Failed ''HOME not set'', [])
      | Some home \<Rightarrow> if pf = MacOS then install_launchd ie home else install_systemd ie home)"

section \<open>Dispatch\<close>

datatype cli_command =
    CWhoami
  | CEnumerate
  | CFetchJwt "string list"
  | CFetchX509
  | CProve "string list"
  | CEnroll "string list"
  | CInstallService
  | CTrustBundle "string list"
  | CWatch
  | CLog
  | CHelp
  | CUnknown string

text \<open>\<open>main\<close> on the arguments, the program's own name first.\<close>

definition hire_dispatch :: "string list \<Rightarrow> cli_command" where
  "hire_dispatch args =
     (let subcmd = (case tl args of [] \<Rightarrow> ''--help'' | x # _ \<Rightarrow> x); rest = drop 2 args in
      if subcmd = ''whoami'' then CWhoami
      else if subcmd = ''enumerate'' then CEnumerate
      else if subcmd = ''fetch-jwt'' then CFetchJwt rest
      else if subcmd = ''fetch-x509'' then CFetchX509
      else if subcmd = ''prove'' then CProve rest
      else if subcmd = ''enroll'' then CEnroll rest
      else if subcmd = ''install-service'' then CInstallService
      else if subcmd = ''trust-bundle'' then CTrustBundle rest
      else if subcmd = ''watch'' then CWatch
      else if subcmd = ''log'' then CLog
      else if subcmd = ''--help'' \<or> subcmd = ''-h'' then CHelp
      else CUnknown subcmd)"

text \<open>
  What the command finds on the machine it runs on, with the events a watch will see. A command
  ends with an exit, unless it is a watch that was not interrupted; it may have written files.
\<close>

record 'w cli_env =
  ce_client :: "'w client"
  ce_sources :: "'w attestor list"
  ce_platform :: platform
  ce_install :: install_env
  ce_events :: "watch_event list"

type_synonym 'w run = "cli_line list \<times> cli_exit option \<times> (string \<times> string) list \<times> 'w"

definition ran :: "cli_line list \<times> cli_exit \<times> 'w \<Rightarrow> 'w run" where
  "ran r = (case r of (out, e, w) \<Rightarrow> (out, Some e, [], w))"

definition help_lines :: "cli_line list" where
  "help_lines = map Out [''usage: hire <command>'', [], ''commands:'',
     ''  whoami           print current SPIFFE identity'',
     ''  enumerate        list locally-detected identity sources'',
     ''  fetch-jwt        fetch a JWT-SVID from the daemon'',
     ''  fetch-x509       (not implemented) fetch an X.509-SVID from the daemon'',
     ''  prove            prove identity to a peer (JWT with challenge)'',
     ''  enroll           (not implemented) enroll an application or origin'',
     ''  install-service  write hired service file (systemd or launchd)'',
     ''  trust-bundle     list trust bundles (add and remove not implemented)'',
     ''  watch            poll for JWT-SVID changes every 30 seconds'',
     ''  log              show how to view hired logs'']"

fun run_command :: "'w cli_env \<Rightarrow> cli_command \<Rightarrow> 'w \<Rightarrow> 'w run" where
  "run_command ce CWhoami w = ran (whoami (ce_client ce) w)"
| "run_command ce CEnumerate w = ran (enumerate_cmd (ce_sources ce) w)"
| "run_command ce (CFetchJwt args) w = ran (fetch_jwt_cmd (ce_client ce) args w)"
| "run_command ce CFetchX509 w = ran (fetch_x509_cmd w)"
| "run_command ce (CProve args) w = ran (prove_cmd (ce_client ce) args w)"
| "run_command ce (CEnroll args) w = ran (enroll_cmd args w)"
| "run_command ce CInstallService w =
     (case install_service (ce_platform ce) (ce_install ce) of (out, e, files) \<Rightarrow> (out, Some e, files, w))"
| "run_command ce (CTrustBundle args) w = ran (trust_bundle_cmd (ce_client ce) args w)"
| "run_command ce CWatch w =
     (case watch_loop (ce_client ce) (ce_events ce) w of (out, e, w') \<Rightarrow> (out, e, [], w'))"
| "run_command ce CLog w = ran (show_log (ce_platform ce) (ie_systemd (ce_install ce)) w)"
| "run_command ce CHelp w = (help_lines, Some (Exit 0), [], w)"
| "run_command ce (CUnknown other) w =
     ([Err (''unknown command: '' @ other), Err ''run 'hire --help' for usage''], Some (Exit 1), [], w)"

definition hire_main :: "'w cli_env \<Rightarrow> string list \<Rightarrow> 'w \<Rightarrow> 'w run" where
  "hire_main ce args = run_command ce (hire_dispatch args)"

section \<open>Lemmas\<close>

text \<open>
  The commands that are not implemented say so to scripts: they exit 1, print nothing to
  standard output, and touch neither the daemon nor a file.
\<close>

lemma unimplemented_commands_fail:
  assumes "hire_dispatch args = CFetchX509
    \<or> (\<exists>rest. hire_dispatch args \<in> {CEnroll (''app'' # rest), CEnroll (''origin'' # rest),
         CTrustBundle (''add'' # rest), CTrustBundle (''remove'' # rest)})"
  shows "\<exists>out. hire_main ce args w = (out, Some (Exit 1), [], w) \<and> list_all (\<lambda>l. \<not> is_out l) out"
  using assms
  by (auto simp: hire_main_def ran_def fetch_x509_cmd_def enroll_cmd_def trust_bundle_cmd_def sub_command_def)

lemma call_daemon_code:
  "exit_code (fst (snd (call_daemon ct req k w))) = 0 \<longleftrightarrow>
     (\<exists>w1 r w2. connect_to_daemon ct w = (Inr (), w1) \<and> ct_fetch ct req w1 = (r, w2) \<and> exit_code (snd (k r)) = 0
        \<and> call_daemon ct req k w = (fst (k r), snd (k r), w2))"
  by (auto simp: call_daemon_def split: prod.splits sum.splits)

lemma call_daemon_lines:
  assumes "\<And>r. exit_code (snd (k r)) \<noteq> 0 \<Longrightarrow> list_all (\<lambda>l. \<not> is_out l) (fst (k r))"
    and "exit_code (fst (snd (call_daemon ct req k w))) \<noteq> 0"
  shows "list_all (\<lambda>l. \<not> is_out l) (fst (call_daemon ct req k w))"
  using assms by (auto simp: call_daemon_def split: prod.splits sum.splits)

lemma token_answer_printed:
  "exit_code (snd (token_answer print_token r)) = 0 \<longleftrightarrow> (\<exists>s ss. r = Inr (s # ss))"
  "exit_code (snd (token_answer print_token r)) \<noteq> 0 \<Longrightarrow> list_all (\<lambda>l. \<not> is_out l) (fst (token_answer print_token r))"
  "token_answer print_token (Inr (s # ss)) = ([Out (sv_svid s)], Exit 0)"
  by (auto simp: token_answer_def print_token_def split: sum.splits list.splits)

lemma whoami_answer_code: "exit_code (snd (whoami_answer r)) = 0 \<longleftrightarrow> (\<exists>svids. r = Inr svids \<and> svids \<noteq> [])"
  by (cases r) (auto simp: whoami_answer_def)

text \<open>The daemon as a client sees it; a panic in a handler is an error of the transport.\<close>

definition daemon_fetch ::
  "crypto_lib \<Rightarrow> 'w os \<Rightarrow> 'w workload_service \<Rightarrow> consumer_identity option \<Rightarrow> jwtsvid_request \<Rightarrow> 'w
    \<Rightarrow> (status + jwtsvid list) \<times> 'w" where
  "daemon_fetch lib os sv peer req w =
     (case fetch_jwtsvid lib os sv peer req w of
        (Some r, w') \<Rightarrow> (r, w')
      | (None, w') \<Rightarrow> (Inl (Internal, ''transport error''), w'))"

lemma daemon_fetch_Inr:
  "daemon_fetch lib os sv peer req w = (Inr svids, w') \<longleftrightarrow> fetch_jwtsvid lib os sv peer req w = (Some (Inr svids), w')"
  by (auto simp: daemon_fetch_def split: prod.splits option.splits)

lemma challenge_audience_kept:
  assumes "CHR ''?'' \<notin> set aud" "CHR ''&'' \<notin> set ch"
  shows "parse_audience (audience_with_challenge aud ch)
    = Inr \<lparr>audience = audience_with_challenge aud ch, require_presence = NoPresence, max_age = None\<rparr>"
proof -
  have "split_on CHR ''&'' (''challenge='' @ ch) = [''challenge='' @ ch]"
    by (rule split_on_single) (use assms(2) in simp)
  then show ?thesis
    using assms(1)
    by (simp add: parse_audience_def split_query_def audience_with_challenge_def query_params_def parse_param_def
        strip_prefix_def is_unprefixed_policy_name_def param_name_def join_audience_def)
qed

text \<open>
  The challenge is not quoted. One with an ampersand adds a parameter of its own, here an age
  bound nobody asked for; after an audience that has a query already, it is no parameter at all
  but the tail of the last one.
\<close>

lemma challenge_is_not_quoted:
  "\<exists>e. parse_audience (audience_with_challenge ''svc'' ''n&hire_max_age=0'') = Inr e
     \<and> audience e = ''svc?challenge=n'' \<and> max_age e = Some 0"
  "\<exists>e. parse_audience (audience_with_challenge ''svc?a=1'' ''n'') = Inr e \<and> audience e = ''svc?a=1?challenge=n''"
proof -
  have "parse_u64 ''0'' = Some 0" "from_secs 0 = 0"
    by (simp_all add: parse_u64_def parse_uint_def to_digit_def from_secs_def)
  then show "\<exists>e. parse_audience (audience_with_challenge ''svc'' ''n&hire_max_age=0'') = Inr e
     \<and> audience e = ''svc?challenge=n'' \<and> max_age e = Some 0"
    by (simp add: audience_with_challenge_def parse_audience_def split_query_def query_params_def parse_param_def
        strip_prefix_def join_audience_def is_unprefixed_policy_name_def param_name_def)
  show "\<exists>e. parse_audience (audience_with_challenge ''svc?a=1'' ''n'') = Inr e \<and> audience e = ''svc?a=1?challenge=n''"
    by (simp add: audience_with_challenge_def parse_audience_def split_query_def query_params_def parse_param_def
        strip_prefix_def join_audience_def is_unprefixed_policy_name_def param_name_def)
qed

section \<open>Properties\<close>

text \<open>
  \<open>hire whoami && ...\<close> is a sound gate. The command exits 0 exactly when the daemon was
  reached and returned at least one SVID, and then it has printed exactly the returned ones.
\<close>

theorem whoami_succeeds_iff_identity:
  "exit_code (fst (snd (whoami ct w))) = 0 \<longleftrightarrow>
     (\<exists>w1 svids w2. connect_to_daemon ct w = (Inr (), w1)
        \<and> ct_fetch ct \<lparr>rq_audience = [''hire:whoami''], rq_spiffe_id = []\<rparr> w1 = (Inr svids, w2) \<and> svids \<noteq> []
        \<and> whoami ct w = (concat (map whoami_line svids), Exit 0, w2))"
  unfolding whoami_def call_daemon_code by (auto simp: whoami_answer_code) (simp_all add: whoami_answer_def)

text \<open>
  C34: \<open>hire prove\<close> binds the peer's challenge. When it exits 0 against the daemon, what it
  prints is one token that the daemon signed for exactly one audience, the given audience with
  the challenge in its query, for an audience without a query and a challenge without \<open>&\<close>; when
  it exits with another code it has printed nothing to standard output.
\<close>

theorem prove_binds_the_challenge:
  assumes "ct_fetch ct = daemon_fetch lib os sv peer" and "prove_flags args (None, None) = Inr (Some aud, Some ch)"
    and "CHR ''?'' \<notin> set aud" and "CHR ''&'' \<notin> set ch"
  shows "if exit_code (fst (snd (prove_cmd ct args w))) = 0
     then \<exists>token clock sid ext. fst (prove_cmd ct args w) = [Out token]
       \<and> sign_jwt_svid lib (sv_signer sv) clock sid [aud @ ''?challenge='' @ ch] ext = Some (Inr token)
     else list_all (\<lambda>l. \<not> is_out l) (fst (prove_cmd ct args w))"
proof -
  let ?req = "\<lparr>rq_audience = [audience_with_challenge aud ch], rq_spiffe_id = []\<rparr>"
  have cmd: "prove_cmd ct args w = call_daemon ct ?req (token_answer print_token) w"
    by (simp add: prove_cmd_def assms(2))
  show ?thesis
  proof (cases "exit_code (fst (snd (prove_cmd ct args w))) = 0")
    case True
    then obtain w1 s ss w2 where f: "ct_fetch ct ?req w1 = (Inr (s # ss), w2)"
      and out: "fst (prove_cmd ct args w) = [Out (sv_svid s)]"
      unfolding cmd call_daemon_code by (auto simp: token_answer_printed)
    from f have "fetch_jwtsvid lib os sv peer ?req w1 = (Some (Inr (s # ss)), w2)"
      by (simp add: assms(1) daemon_fetch_Inr)
    then obtain consumer exts cl now w3 w4 where
      all: "list_all2 (\<lambda>a e. parse_audience a = Inr e) (rq_audience ?req) exts"
      and i: "issue lib os (sv_signer sv) cl consumer (map audience exts)
           (strictest_presence exts) (tightest_age exts) now w3 = (Some (Inr s), w4)"
      by (rule fetch_svid_from_claim [where svid = s]) auto
    from all challenge_audience_kept [OF assms(3,4)] have "map audience exts = [aud @ ''?challenge='' @ ch]"
      by (auto simp: list_all2_Cons1 audience_with_challenge_def)
    with issue_Inr [OF i] out True show ?thesis by auto
  next
    case False
    then show ?thesis
      using call_daemon_lines [of "token_answer print_token" ct ?req w] token_answer_printed(2) unfolding cmd by simp
  qed
qed

end
