(* ===== verification/Nmh.thy ===== *)
theory Nmh
  imports Service_Choice
begin

text \<open>
  \<open>hire-nmh/src/main.rs\<close>: the native messaging host between a browser extension and the
  daemon. Standard input is the bytes the browser sends and then either the end of the stream
  or a read error; for standard output, \<open>out_fails\<close> says of what has been written and of the bytes
  to write whether the write fails, and after how many bytes. Reading a request from JSON and
  writing a response as JSON is code that \<open>serde\<close> derives, and a parameter.
\<close>

section \<open>Data\<close>

datatype browser_request = FetchJwt "string list" | StatusRequest

datatype browser_response =
    Jwt string string
  | StatusResponse bool string
  | ErrorResponse string

datatype nmh_error =
    UnexpectedEof
  | ReadFailed string
  | RequestTooLarge nat
  | ResponseTooLarge nat
  | WriteFailed
  | EncodeFailed string

record nmh_input =
  in_bytes :: "byte list"
  in_error :: "string option"

record nmh_output =
  out_bytes :: "byte list"
  out_fails :: "byte list \<Rightarrow> byte list \<Rightarrow> nat option"

text \<open>What a call of the daemon comes to, for a client.\<close>

datatype daemon_reply = NoConnection | RpcFailed | Svids "jwtsvid list"

record 'w nmh_env =
  ne_parse :: "byte list \<Rightarrow> string + browser_request"
  ne_encode :: "browser_response \<Rightarrow> string + byte list"
  ne_socket_exists :: "'w \<Rightarrow> bool"
  ne_version :: string
  ne_call :: "jwtsvid_request \<Rightarrow> 'w \<Rightarrow> daemon_reply \<times> 'w"

section \<open>Framing\<close>

definition max_request :: nat where
  "max_request = 64 * 1024"

definition max_response :: nat where
  "max_response = 1024 * 1024"

definition input_exact :: "nmh_input \<Rightarrow> nat \<Rightarrow> nmh_error + byte list \<times> nmh_input" where
  "input_exact i n =
     (if n \<le> length (in_bytes i) then Inr (take n (in_bytes i), i\<lparr>in_bytes := drop n (in_bytes i)\<rparr>)
      else case in_error i of None \<Rightarrow> Inl UnexpectedEof | Some e \<Rightarrow> Inl (ReadFailed e))"

definition read_message :: "nmh_input \<Rightarrow> nmh_error + (byte list \<times> nmh_input) option" where
  "read_message i =
     (case input_exact i 4 of
        Inl e \<Rightarrow> if e = UnexpectedEof then Inr None else Inl e
      | Inr (len_buf, i') \<Rightarrow>
          (let len = unat (from_le_bytes len_buf) in
           if len > max_request then Inl (RequestTooLarge len)
           else and_then (input_exact i' len) (\<lambda>r. Inr (Some r))))"

definition output_all :: "nmh_output \<Rightarrow> byte list \<Rightarrow> (nmh_error + unit) \<times> nmh_output" where
  "output_all out bs =
     (case out_fails out (out_bytes out) bs of
        None \<Rightarrow> (Inr (), out\<lparr>out_bytes := out_bytes out @ bs\<rparr>)
      | Some n \<Rightarrow> (Inl WriteFailed, out\<lparr>out_bytes := out_bytes out @ take n bs\<rparr>))"

text \<open>The length is cast to \<open>u32\<close>; the flush can fail like a write of nothing.\<close>

definition write_message :: "nmh_output \<Rightarrow> byte list \<Rightarrow> (nmh_error + unit) \<times> nmh_output" where
  "write_message out msg =
     (if length msg > max_response then (Inl (ResponseTooLarge (length msg)), out)
      else seq (output_all out (to_le_bytes (of_nat (length msg)))) (\<lambda>_ out.
           seq (output_all out msg) (\<lambda>_ out. output_all out [])))"

definition send_response :: "'w nmh_env \<Rightarrow> nmh_output \<Rightarrow> browser_response \<Rightarrow> (nmh_error + unit) \<times> nmh_output" where
  "send_response env out resp = seq (map_err EncodeFailed (ne_encode env resp), out) (\<lambda>json out. write_message out json)"

section \<open>Requests\<close>

definition nmh_fetch_jwt :: "'w nmh_env \<Rightarrow> string list \<Rightarrow> 'w \<Rightarrow> (string + string \<times> string) \<times> 'w" where
  "nmh_fetch_jwt env auds w =
     (case ne_call env \<lparr>rq_audience = auds, rq_spiffe_id = []\<rparr> w of
        (NoConnection, w') \<Rightarrow> (Inl ''connect to hired'', w')
      | (RpcFailed, w') \<Rightarrow> (Inl ''FetchJWTSVID failed'', w')
      | (Svids svids, w') \<Rightarrow>
          (case svids of [] \<Rightarrow> Inl ''no SVIDs returned'' | s # _ \<Rightarrow> Inr (sv_svid s, sv_spiffe_id s), w'))"

fun handle_request :: "'w nmh_env \<Rightarrow> browser_request \<Rightarrow> 'w \<Rightarrow> browser_response \<times> 'w" where
  "handle_request env StatusRequest w = (StatusResponse (ne_socket_exists env w) (ne_version env), w)"
| "handle_request env (FetchJwt auds) w =
     (case nmh_fetch_jwt env auds w of
        (Inr (svid, sid), w') \<Rightarrow> (Jwt svid sid, w')
      | (Inl e, w') \<Rightarrow> (ErrorResponse e, w'))"

text \<open>The response to one message, and the loop.\<close>

definition nmh_reply :: "'w nmh_env \<Rightarrow> byte list \<Rightarrow> 'w \<Rightarrow> browser_response \<times> 'w" where
  "nmh_reply env msg w =
     (case ne_parse env msg of
        Inl e \<Rightarrow> (ErrorResponse (''invalid request: '' @ e), w)
      | Inr r \<Rightarrow> handle_request env r w)"

lemma input_exact_Inr:
  "input_exact i n = Inr (bs, i') \<longleftrightarrow>
     n \<le> length (in_bytes i) \<and> bs = take n (in_bytes i) \<and> i' = i\<lparr>in_bytes := drop n (in_bytes i)\<rparr>"
  by (auto simp: input_exact_def split: option.splits)

lemma read_message_shorter:
  "read_message i = Inr (Some (msg, i')) \<Longrightarrow> length (in_bytes i') < length (in_bytes i)"
  by (auto simp: read_message_def Let_def input_exact_Inr split: sum.splits if_splits)

function nmh_loop :: "'w nmh_env \<Rightarrow> nmh_input \<Rightarrow> nmh_output \<Rightarrow> 'w \<Rightarrow> (nmh_error + unit) \<times> nmh_output \<times> 'w" where
  "nmh_loop env i out w =
     (case read_message i of
        Inl e \<Rightarrow> (Inl e, out, w)
      | Inr None \<Rightarrow> (Inr (), out, w)
      | Inr (Some (msg, i')) \<Rightarrow>
          (case nmh_reply env msg w of (resp, w') \<Rightarrow>
             (case send_response env out resp of
                (Inl e, out') \<Rightarrow> (Inl e, out', w')
              | (Inr _, out') \<Rightarrow> nmh_loop env i' out' w')))"
  by pat_completeness auto
termination
  by (relation "measure (\<lambda>(env, i, out, w). length (in_bytes i))") (auto dest: read_message_shorter)

declare nmh_loop.simps [simp del]

section \<open>The frames\<close>

definition nmh_frame :: "byte list \<Rightarrow> byte list" where
  "nmh_frame msg = to_le_bytes (of_nat (length msg)) @ msg"

text \<open>One frame off the front of the input, when it is whole and small enough.\<close>

definition nmh_unframe :: "byte list \<Rightarrow> (byte list \<times> byte list) option" where
  "nmh_unframe bs =
     (case read_message \<lparr>in_bytes = bs, in_error = None\<rparr> of
        Inr (Some (msg, i)) \<Rightarrow> Some (msg, in_bytes i)
      | _ \<Rightarrow> None)"

definition small_request :: "byte list \<Rightarrow> bool" where
  "small_request msg \<longleftrightarrow> length msg \<le> max_request"

lemma read_message_frame:
  assumes "small_request msg"
  shows "read_message \<lparr>in_bytes = nmh_frame msg @ rest, in_error = e\<rparr> = Inr (Some (msg, \<lparr>in_bytes = rest, in_error = e\<rparr>))"
proof -
  have "unat (of_nat (length msg) :: u32) = length msg"
    using assms by (simp add: small_request_def max_request_def unat_of_nat)
  with assms show ?thesis
    by (simp add: read_message_def input_exact_def nmh_frame_def small_request_def Let_def)
qed

lemma read_message_sound:
  assumes "read_message i = Inr (Some (msg, i'))"
  shows "small_request msg \<and> in_bytes i = nmh_frame msg @ in_bytes i' \<and> in_error i' = in_error i"
proof -
  let ?w = "from_le_bytes (take 4 (in_bytes i))"
  from assms have len: "4 \<le> length (in_bytes i)" "unat ?w \<le> max_request" "unat ?w \<le> length (drop 4 (in_bytes i))"
    and m: "msg = take (unat ?w) (drop 4 (in_bytes i))"
    and i': "in_bytes i' = drop (unat ?w) (drop 4 (in_bytes i))" "in_error i' = in_error i"
    by (auto simp: read_message_def Let_def input_exact_Inr split: sum.splits if_splits)
  from len(3) m have l: "length msg = unat ?w" by simp
  then have "to_le_bytes (of_nat (length msg)) = take 4 (in_bytes i)" using len(1) by (simp add: to_from_le_bytes)
  moreover have "msg @ in_bytes i' = drop 4 (in_bytes i)" by (simp only: m i' append_take_drop_id)
  ultimately show ?thesis using l len(2) i'(2) by (simp add: nmh_frame_def small_request_def)
qed

interpretation nmh_framing: framing nmh_frame nmh_unframe small_request
proof
  show "nmh_unframe (nmh_frame m @ rest) = Some (m, rest)" if "small_request m" for m rest
    using read_message_frame [OF that] by (simp add: nmh_unframe_def)
  show "small_request m \<and> bs = nmh_frame m @ rest" if "nmh_unframe bs = Some (m, rest)" for bs m rest
    using that read_message_sound [of "\<lparr>in_bytes = bs, in_error = None\<rparr>" m]
    by (auto simp: nmh_unframe_def split: sum.splits option.splits)
qed

section \<open>Sessions\<close>

fun nmh_replies :: "'w nmh_env \<Rightarrow> byte list list \<Rightarrow> 'w \<Rightarrow> browser_response list \<times> 'w" where
  "nmh_replies env [] w = ([], w)"
| "nmh_replies env (msg # msgs) w =
     (case nmh_reply env msg w of (resp, w') \<Rightarrow> apfst ((#) resp) (nmh_replies env msgs w'))"

definition encoded :: "'w nmh_env \<Rightarrow> browser_response \<Rightarrow> byte list" where
  "encoded env resp = (case ne_encode env resp of Inr bs \<Rightarrow> bs | Inl _ \<Rightarrow> [])"

definition sendable :: "'w nmh_env \<Rightarrow> browser_response \<Rightarrow> bool" where
  "sendable env resp \<longleftrightarrow> (\<exists>bs. ne_encode env resp = Inr bs \<and> length bs \<le> max_response)"

lemma send_response_case:
  "send_response env out resp =
     (case ne_encode env resp of Inl e \<Rightarrow> (Inl (EncodeFailed e), out) | Inr json \<Rightarrow> write_message out json)"
  by (cases "ne_encode env resp") (simp_all add: send_response_def)

lemma send_response_Inr:
  assumes "send_response env out resp = (Inr u, out')"
  shows "out' = out\<lparr>out_bytes := out_bytes out @ nmh_frame (encoded env resp)\<rparr> \<and> length (encoded env resp) \<le> max_response"
  using assms
  by (auto simp: send_response_case write_message_def output_all_def nmh_frame_def encoded_def seq_Inr
      split: sum.splits if_splits option.splits)

lemma send_response_Inl:
  assumes "send_response env out resp = (Inl e, out')"
  shows "\<exists>part. out_bytes out' = out_bytes out @ part \<and> prefix part (nmh_frame (encoded env resp))
    \<and> (part \<noteq> [] \<longrightarrow> e = WriteFailed)"
proof -
  have "prefix (take n xs) (xs @ ys)" for n and xs ys :: "byte list" by (metis prefixI append_assoc append_take_drop_id)
  with assms show ?thesis
    by (auto simp: send_response_case write_message_def output_all_def nmh_frame_def encoded_def seq_case take_is_prefix
        split: sum.splits if_splits option.splits prod.splits)
qed

lemma send_response_ok:
  assumes "sendable env resp" "\<And>bs cs. out_fails out bs cs = None"
  shows "send_response env out resp = (Inr (), out\<lparr>out_bytes := out_bytes out @ nmh_frame (encoded env resp)\<rparr>)"
proof -
  from assms(1) obtain bs where "ne_encode env resp = Inr bs" "length bs \<le> max_response" by (auto simp: sendable_def)
  with assms(2) show ?thesis
    by (simp add: send_response_case write_message_def output_all_def nmh_frame_def encoded_def)
qed

lemma nmh_loop_end: "nmh_loop env \<lparr>in_bytes = [], in_error = None\<rparr> out w = (Inr (), out, w)"
  by (subst nmh_loop.simps) (simp add: read_message_def input_exact_def)

lemma nmh_loop_frame:
  assumes "small_request msg" "nmh_reply env msg w = (resp, w')" "send_response env out resp = (Inr (), out')"
  shows "nmh_loop env \<lparr>in_bytes = nmh_frame msg @ rest, in_error = e\<rparr> out w
    = nmh_loop env \<lparr>in_bytes = rest, in_error = e\<rparr> out' w'"
  by (subst nmh_loop.simps) (simp add: read_message_frame assms)

lemma nmh_loop_frames:
  assumes "list_all small_request msgs" "nmh_replies env msgs w = (resps, w')" "list_all (sendable env) resps"
    "\<And>bs cs. out_fails out bs cs = None"
  shows "nmh_loop env \<lparr>in_bytes = concat (map nmh_frame msgs), in_error = None\<rparr> out w
    = (Inr (), out\<lparr>out_bytes := out_bytes out @ concat (map (\<lambda>r. nmh_frame (encoded env r)) resps)\<rparr>, w')"
  using assms
proof (induction msgs arbitrary: w resps out)
  case Nil
  then show ?case by (simp add: nmh_loop_end)
next
  case (Cons msg msgs)
  obtain resp w1 where r: "nmh_reply env msg w = (resp, w1)" by fastforce
  with Cons.prems(2) obtain resps' where rs: "nmh_replies env msgs w1 = (resps', w')" "resps = resp # resps'"
    by (cases "nmh_replies env msgs w1") auto
  let ?out = "out\<lparr>out_bytes := out_bytes out @ nmh_frame (encoded env resp)\<rparr>"
  have send: "send_response env out resp = (Inr (), ?out)"
    using Cons.prems(3,4) rs(2) by (intro send_response_ok) auto
  have "nmh_loop env \<lparr>in_bytes = concat (map nmh_frame (msg # msgs)), in_error = None\<rparr> out w
      = nmh_loop env \<lparr>in_bytes = concat (map nmh_frame msgs), in_error = None\<rparr> ?out w1"
    using nmh_loop_frame [OF _ r send] Cons.prems(1) by simp
  also have "\<dots> = (Inr (), ?out\<lparr>out_bytes := out_bytes ?out @ concat (map (\<lambda>r. nmh_frame (encoded env r)) resps')\<rparr>, w')"
    using Cons.prems rs by (intro Cons.IH) auto
  finally show ?case by (simp add: rs(2))
qed

lemma nmh_loop_output:
  "\<exists>frames part. out_bytes (fst (snd (nmh_loop env i out w))) = out_bytes out @ concat (map nmh_frame frames) @ part
     \<and> list_all (\<lambda>f. length f \<le> max_response) frames
     \<and> (part \<noteq> [] \<longrightarrow> fst (nmh_loop env i out w) = Inl WriteFailed) \<and> (\<exists>f. prefix part (nmh_frame f))"
proof (induction env i out w rule: nmh_loop.induct)
  case (1 env i out w)
  note unfold = nmh_loop.simps [of env i out w]
  show ?case
  proof (cases "\<exists>msg i'. read_message i = Inr (Some (msg, i'))")
    case True
    then obtain msg i' where m: "read_message i = Inr (Some (msg, i'))" by auto
    obtain resp w' where r: "nmh_reply env msg w = (resp, w')" by fastforce
    obtain res out' where s: "send_response env out resp = (res, out')" by fastforce
    show ?thesis
    proof (cases res)
      case (Inl e)
      with s send_response_Inl obtain part where "out_bytes out' = out_bytes out @ part"
        "prefix part (nmh_frame (encoded env resp))" "part \<noteq> [] \<longrightarrow> e = WriteFailed" by blast
      with m r s Inl show ?thesis by (intro exI [of _ "[]"] exI [of _ part]) (auto simp: unfold)
    next
      case (Inr u)
      from "1.IH" [OF m refl refl r [symmetric] s [symmetric] Inr] obtain frames part where
        f: "out_bytes (fst (snd (nmh_loop env i' out' w'))) = out_bytes out' @ concat (map nmh_frame frames) @ part"
        "list_all (\<lambda>f. length f \<le> max_response) frames"
        "part \<noteq> [] \<longrightarrow> fst (nmh_loop env i' out' w') = Inl WriteFailed" "\<exists>f. prefix part (nmh_frame f)" by auto
      from send_response_Inr [OF s [unfolded Inr]] f show ?thesis
        by (intro exI [of _ "encoded env resp # frames"] exI [of _ part]) (simp add: unfold m r s Inr)
    qed
  next
    case False
    then have "fst (snd (nmh_loop env i out w)) = out" by (auto simp: unfold split: sum.split option.split)
    then show ?thesis by (intro exI [of _ "[]"]) simp
  qed
qed

text \<open>The loop depends on the daemon only through its answers to requests that name no identity.\<close>

definition same_unnamed :: "'w nmh_env \<Rightarrow> 'w nmh_env \<Rightarrow> bool" where
  "same_unnamed env env' \<longleftrightarrow> ne_parse env = ne_parse env' \<and> ne_encode env = ne_encode env'
     \<and> ne_socket_exists env = ne_socket_exists env' \<and> ne_version env = ne_version env'
     \<and> (\<forall>auds w. ne_call env \<lparr>rq_audience = auds, rq_spiffe_id = []\<rparr> w = ne_call env' \<lparr>rq_audience = auds, rq_spiffe_id = []\<rparr> w)"

lemma nmh_loop_cong:
  assumes "same_unnamed env env'"
  shows "nmh_loop env i out w = nmh_loop env' i out w"
  using assms
proof (induction env i out w rule: nmh_loop.induct)
  case (1 env i out w)
  have handle: "handle_request env r w = handle_request env' r w" for r w
    using "1.prems" by (cases r) (simp_all add: same_unnamed_def nmh_fetch_jwt_def)
  have reply: "nmh_reply env msg w = nmh_reply env' msg w" for msg w
    using "1.prems" by (simp add: nmh_reply_def handle same_unnamed_def split: sum.split)
  have send: "send_response env out resp = send_response env' out resp" for out resp
    using "1.prems" by (simp add: send_response_def same_unnamed_def)
  show ?case
    using "1.IH" "1.prems"
    by (subst (1 2) nmh_loop.simps) (auto simp: reply send split: sum.split option.split prod.split)
qed

section \<open>Properties\<close>

text \<open>
  C31: a session answers every message with one frame, in order. Whatever messages of at most
  64 KiB the browser sends before it closes the stream, the host writes exactly the frames of
  their responses, in the order of the messages, and ends without an error, provided the
  responses fit a frame and the browser keeps reading.
\<close>

theorem native_messages_answered_in_order:
  assumes "list_all small_request msgs" and "nmh_replies env msgs w = (resps, w')" and "list_all (sendable env) resps"
    and "\<forall>bs cs. out_fails out bs cs = None"
  shows "nmh_loop env \<lparr>in_bytes = concat (map nmh_frame msgs), in_error = None\<rparr> out w
    = (Inr (), out\<lparr>out_bytes := out_bytes out @ concat (map (\<lambda>r. nmh_frame (encoded env r)) resps)\<rparr>, w')"
  using nmh_loop_frames [OF assms(1-3)] assms(4) by simp

definition sample_nmh_env :: "unit nmh_env" where
  "sample_nmh_env = \<lparr>ne_parse = (\<lambda>bs. if bs = [1] then Inr StatusRequest else Inl ''?''),
     ne_encode = (\<lambda>r. Inr (case r of StatusResponse b v \<Rightarrow> [7] | _ \<Rightarrow> [9])), ne_socket_exists = (\<lambda>_. True), ne_version = ''1'',
     ne_call = (\<lambda>_ w. (NoConnection, w))\<rparr>"

theorem native_messages_answered_in_order_witness:
  "nmh_loop sample_nmh_env \<lparr>in_bytes = [1, 0, 0, 0, 1, 1, 0, 0, 0, 2], in_error = None\<rparr>
     \<lparr>out_bytes = [], out_fails = (\<lambda>_ _. None)\<rparr> ()
   = (Inr (), \<lparr>out_bytes = [1, 0, 0, 0, 7, 1, 0, 0, 0, 9], out_fails = (\<lambda>_ _. None)\<rparr>, ())"
proof -
  have one: "to_le_bytes 1 = [1, 0, 0, 0]" by code_simp
  let ?resps = "[StatusResponse True ''1'', ErrorResponse ''invalid request: ?'']"
  let ?out = "\<lparr>out_bytes = [], out_fails = (\<lambda>_ _. None)\<rparr> :: nmh_output"
  have "nmh_loop sample_nmh_env \<lparr>in_bytes = concat (map nmh_frame [[1], [2]]), in_error = None\<rparr> ?out ()
    = (Inr (), ?out\<lparr>out_bytes := out_bytes ?out @ concat (map (\<lambda>r. nmh_frame (encoded sample_nmh_env r)) ?resps)\<rparr>, ())"
  proof (rule native_messages_answered_in_order)
    show "nmh_replies sample_nmh_env [[1], [2]] () = (?resps, ())"
      by (simp add: nmh_reply_def sample_nmh_env_def)
  qed (simp_all add: small_request_def max_request_def sample_nmh_env_def sendable_def max_response_def)
  then show ?thesis by (simp add: nmh_frame_def encoded_def sample_nmh_env_def one)
qed

text \<open>
  The host never writes a broken or an oversized frame. Whatever bytes come in, hostile
  lengths and truncated frames included, and however the session ends, what was written is a
  sequence of whole frames of at most 1 MiB, the most a browser accepts; only when writing
  itself failed can the beginning of one more frame follow.
\<close>

theorem native_output_is_whole_frames:
  "\<exists>frames part. out_bytes (fst (snd (nmh_loop env i out w))) = out_bytes out @ concat (map nmh_frame frames) @ part
     \<and> list_all (\<lambda>f. length f \<le> 1024 * 1024) frames
     \<and> (part \<noteq> [] \<longrightarrow> fst (nmh_loop env i out w) = Inl WriteFailed) \<and> (\<exists>f. prefix part (nmh_frame f))"
  using nmh_loop_output [of env i out w] unfolding max_response_def .

end
