(* ===== verification/Attestor_Samples.thy ===== *)
theory Attestor_Samples
  imports Registry
begin

text \<open>
  A small machine, with an agent that holds one key and a gpg that vouches for one
  signature, and the properties of the attestors applied to it.
\<close>

definition sample_attest_lib :: attest_lib where
  "sample_attest_lib = \<lparr>al_sha256 = (\<lambda>_. [7]), al_b64_std = (\<lambda>_. ''h''), al_b64url_decode = (\<lambda>_. None),
     al_valid_point = (\<lambda>_. True), al_verify_strict = (\<lambda>_ _ _. True), al_json = (\<lambda>_. Inl ''not JSON''),
     al_lower = (\<lambda>s. s), al_debug = (\<lambda>s. s)\<rparr>"

definition sample_blob :: "byte list" where
  "sample_blob = push_string (push_string [] ssh_ed25519) (replicate 32 8)"

definition sample_signature :: "byte list" where
  "sample_signature = push_string (push_string [] ssh_ed25519) (replicate 64 9)"

definition agent_frame :: "byte list \<Rightarrow> byte list" where
  "agent_frame bs = push_string [] bs"

definition sample_identities :: "byte list" where
  "sample_identities = agent_identities_answer # to_be_bytes (of_nat (length [(sample_blob, as_bytes ''k'')]))
     @ encode_keys [(sample_blob, as_bytes ''k'')]"

definition sample_peer :: peer where
  "sample_peer = \<lparr>peer_takes = (\<lambda>_. True),
     peer_sends = (\<lambda>_. agent_frame sample_identities
       @ agent_frame (agent_sign_response # push_string [] sample_signature))\<rparr>"

definition sample_host :: host where
  "sample_host = \<lparr>h_env = (\<lambda>v. if v = ''SSH_AUTH_SOCK'' then Some ''/agent'' else None),
     h_exists = (\<lambda>p. p = ''/usr/bin/gpg''), h_read_file = (\<lambda>_. None), h_connect = (\<lambda>_. Inr sample_peer),
     h_exec = (\<lambda>_ _ _. Inr \<lparr>ex_success = True, ex_stdout = [1], ex_stderr = as_bytes ''[GNUPG:] VALIDSIG ab''\<rparr>),
     h_now = 5, h_uid = 1000, h_getpwuid = (\<lambda>_ _. PwFound (as_bytes ''u'')), h_pw_size_max = 0\<rparr>"

definition sample_world :: world where
  "sample_world = \<lparr>w_moments = (\<lambda>_. sample_host), w_tick = 0\<rparr>"

definition path_candidate :: "string \<Rightarrow> candidate" where
  "path_candidate p = new_candidate ''s'' SASshLocal p ''d''"

lemma framed_read:
  assumes "wire_string bs" "length bs \<le> max_agent_reply"
    and "\<And>w. drop (sm_consumed st) (peer_sends (sm_peer st) w) = agent_frame bs @ rest"
    and "\<And>w. peer_takes (sm_peer st) w"
  shows "agent_roundtrip st t payload = Inr (bs, st\<lparr>sm_written :=
      sm_written st @ to_be_bytes (of_nat (1 + length payload)) @ [t] @ payload,
      sm_consumed := sm_consumed st + 4 + length bs\<rparr>)"
proof -
  have more: "drop (sm_consumed st + n) (peer_sends (sm_peer st) w) = drop n (agent_frame bs @ rest)" for n w
    by (metis add.commute assms(3) drop_drop)
  have len: "unat (of_nat (length bs) :: u32) = length bs"
    using assms(1) by (simp add: wire_string_def unat_of_nat)
  have all: "length (peer_sends (sm_peer st) w) - (sm_consumed st + n) = length (agent_frame bs @ rest) - n" for n w
    using more [of n w] by (metis length_drop)
  show ?thesis
    unfolding agent_roundtrip_def
    using assms len more [of 4] all [where n = 0] all [where n = 4]
    by (simp add: write_all_def read_exact_def pending_def Let_def agent_frame_def push_string_def)
qed

section \<open>A signature by the agent\<close>

definition sample_signed :: "evidence list" where
  "sample_signed = [Possession \<lparr>cs_assertion = \<lparr>sa_bytes = replicate 64 9,
     sa_format = ''application/vnd.hire.ssh-ed25519-signature''\<rparr>, cs_challenge = [1], cs_observed_at = 5\<rparr>]"

lemma sample_wire [simp]: "wire_string sample_blob" "wire_string sample_signature" "wire_string (as_bytes ''k'')"
  by (simp_all add: wire_string_def sample_blob_def sample_signature_def push_string_def ssh_ed25519_def as_bytes_def)

lemma sample_text: "from_utf8_lossy (as_bytes ''k'') = ''k''" "from_utf8_lossy (as_bytes ''u'') = ''u''"
  by code_simp+

lemma sample_identities_read: "parse_identities sample_identities = Inr [(sample_blob, ''k'')]"
proof -
  have "read_keys (length [(sample_blob, as_bytes ''k'')]) (encode_keys [(sample_blob, as_bytes ''k'')] @ [])
      = [(sample_blob, ''k'')]"
    by (subst read_keys_encode) (simp_all add: sample_text)
  then show ?thesis by (simp add: parse_identities_def sample_identities_def Let_def)
qed

lemma sample_exchange:
  "agent_roundtrip (open_stream sample_peer) agentc_request_identities [] = Inr (sample_identities,
     \<lparr>sm_peer = sample_peer, sm_written = to_be_bytes 1 @ [agentc_request_identities],
      sm_consumed = 4 + length sample_identities\<rparr>)"
  "\<exists>st. agent_roundtrip \<lparr>sm_peer = sample_peer, sm_written = sent, sm_consumed = 4 + length sample_identities\<rparr>
     agentc_sign_request payload = Inr (agent_sign_response # push_string [] sample_signature, st)"
proof -
  have "length sample_identities = 65"
    by (simp add: sample_identities_def sample_blob_def push_string_def ssh_ed25519_def as_bytes_def)
  then have small: "wire_string sample_identities" "length sample_identities \<le> max_agent_reply"
    by (simp_all add: wire_string_def max_agent_reply_def)
  have "length (agent_sign_response # push_string [] sample_signature) = 88"
    by (simp add: sample_signature_def push_string_def ssh_ed25519_def as_bytes_def)
  then have small': "wire_string (agent_sign_response # push_string [] sample_signature)"
    "length (agent_sign_response # push_string [] sample_signature) \<le> max_agent_reply"
    by (simp_all add: wire_string_def max_agent_reply_def)
  show "agent_roundtrip (open_stream sample_peer) agentc_request_identities [] = Inr (sample_identities,
     \<lparr>sm_peer = sample_peer, sm_written = to_be_bytes 1 @ [agentc_request_identities],
      sm_consumed = 4 + length sample_identities\<rparr>)"
    by (subst framed_read [OF small]) (simp_all add: open_stream_def sample_peer_def)
  show "\<exists>st. agent_roundtrip \<lparr>sm_peer = sample_peer, sm_written = sent, sm_consumed = 4 + length sample_identities\<rparr>
     agentc_sign_request payload = Inr (agent_sign_response # push_string [] sample_signature, st)"
    by (subst framed_read [OF small', where rest = "[]"]) (simp_all add: sample_peer_def agent_frame_def push_string_def)
qed

lemma sample_proof: "ssh_prove sample_attest_lib (path_candidate ''key/h'') [1] sample_host = Inr sample_signed"
proof -
  have path: "cand_path (path_candidate ''key/h'') = ''key/h''" "ssh_spiffe_path sample_attest_lib b = ''key/h''" for b
    by (simp_all add: path_candidate_def new_candidate_def ssh_spiffe_path_def sample_attest_lib_def)
  have connect: "connect_agent sample_host = Inr (open_stream sample_peer)"
    by (simp add: connect_agent_def sample_host_def)
  have blob: "read_string sample_blob = Some (ssh_ed25519, push_string [] (replicate 32 8))"
    unfolding sample_blob_def push_string_append [of "push_string [] ssh_ed25519"]
    by (rule ssh_string.unframe_frame) simp
  have reply: "parse_signature x (agent_sign_response # push_string [] sample_signature) = Inr sample_signature" for x
    using ssh_string.unframe_frame [of sample_signature "[]"] by (simp add: parse_signature_def)
  have signed: "agent_sign \<lparr>sm_peer = sample_peer, sm_written = sent, sm_consumed = 4 + length sample_identities\<rparr> b c x
      = Inr sample_signature" for sent b c x
    using sample_exchange(2) [of sent "sign_payload b c"] by (auto simp: agent_sign_def reply)
  have "verify_ssh_ed25519 sample_attest_lib 5 (path_candidate ''key/h'') [1] sample_blob sample_signature
      = Inr \<lparr>cs_assertion = \<lparr>sa_bytes = replicate 64 9,
     sa_format = ''application/vnd.hire.ssh-ed25519-signature''\<rparr>, cs_challenge = [1], cs_observed_at = 5\<rparr>"
    unfolding ssh_evidence_helper
    by (rule exI [of _ "replicate 32 8"], rule exI [of _ "replicate 64 9"])
      (simp add: path(2) [unfolded sample_attest_lib_def] path(1) sample_blob_def sample_signature_def sample_attest_lib_def)
  moreover have "h_now sample_host = 5" by (simp add: sample_host_def)
  ultimately show ?thesis
    by (simp add: ssh_prove_def connect list_identities_def sample_exchange(1) sample_identities_read path blob signed
        sample_signed_def)
qed

section \<open>The properties applied\<close>

theorem openpgp_evidence_needs_all_checks_witness:
  "\<exists>cs fpr gpg out line. verify_openpgp sample_host (path_candidate ''gpg/ab'') [1] [2] = Inr cs
    \<and> ''gpg/ab'' = ''gpg/'' @ fpr \<and> which_gpg sample_host = Some gpg
    \<and> run_gpg sample_host gpg [''--status-fd'', ''2'', ''--decrypt''] [2] = Inr out
    \<and> (''[GNUPG:] VALIDSIG '' @ line) \<in> set (str_lines (from_utf8_lossy (ex_stderr out)))"
proof -
  have "isl (verify_openpgp sample_host (path_candidate ''gpg/ab'') [1] [2]) = False" by code_simp
  then obtain cs where cs: "verify_openpgp sample_host (path_candidate ''gpg/ab'') [1] [2] = Inr cs"
    by (auto simp: isl_def split: sum.splits) (metis sum.exhaust)
  have "cand_path (path_candidate ''gpg/ab'') = ''gpg/ab''" by (simp add: path_candidate_def new_candidate_def)
  with cs openpgp_evidence_needs_all_checks [OF cs] show ?thesis by metis
qed

theorem ssh_proof_is_by_the_named_key_witness:
  "\<exists>st keys st' blob point. connect_agent sample_host = Inr st \<and> list_identities st = Inr (keys, st')
    \<and> blob \<in> fst ` set keys \<and> ssh_spiffe_path sample_attest_lib blob = ''key/h''
    \<and> blob = push_string (push_string [] ssh_ed25519) point"
proof -
  have "cand_path (path_candidate ''key/h'') = ''key/h''" by (simp add: path_candidate_def new_candidate_def)
  with ssh_proof_is_by_the_named_key [OF sample_proof] show ?thesis by metis
qed

theorem username_lookup_first_big_enough_witness:
  "username_loop sample_host 1000 0 = Inr (Some ''u'')"
  unfolding username_lookup_first_big_enough
  by (rule exI [of _ 0]) (simp add: sample_host_def sample_text)

theorem shipped_proofs_establish_little_witness:
  "\<exists>cl. derive (path_candidate ''unix/1000'') [1] [PlatformAssertion (observe_platform 5 ''unix/1000'')] = Some cl
     \<and> cl_presence cl = NoPresence \<and> cl_assurance cl = Iaa1"
proof -
  let ?a = "unix_source (new_unix_attestor sample_host)"
  have path: "cand_path (path_candidate ''unix/1000'') = ''unix/1000''" "unix_spiffe_path 1000 = ''unix/1000''"
    by code_simp+
  have "?a \<in> set (probe_sources sample_attest_lib None sample_host)" by (simp add: probe_sources_def)
  moreover have "at_prove ?a (path_candidate ''unix/1000'') [1] sample_world
      = (Inr [PlatformAssertion (observe_platform 5 ''unix/1000'')], sample_world\<lparr>w_tick := 1\<rparr>)"
    by (simp add: unix_source_def at_call_def current_def sample_world_def unix_prove_def path sample_host_def)
  moreover have "at_name ?a = ''unix''" by (simp add: unix_source_def)
  ultimately show ?thesis
    using shipped_proofs_establish_little by fastforce
qed

theorem unix_account_is_last_source_witness:
  "\<exists>others. probe_sources sample_attest_lib None sample_host = others @ [unix_source (new_unix_attestor sample_host)]
     \<and> (\<exists>a\<in>set others. at_name a \<noteq> ''unix'')"
proof -
  obtain others where o: "probe_sources sample_attest_lib None sample_host = others @ [unix_source (new_unix_attestor sample_host)]"
    "\<forall>a\<in>set others. at_name a \<noteq> ''unix''"
    using unix_account_is_last_source by blast
  have "oidc_attestor sample_attest_lib \<in> set (probe_sources sample_attest_lib None sample_host)"
    by (simp add: probe_sources_def)
  with o have "others \<noteq> []" by (auto simp: shipped_defs)
  with o show ?thesis by (cases others) auto
qed

end
