(* ===== verification/Service_Bundles.thy ===== *)
theory Service_Bundles
  imports Service_Validate
begin

text \<open>
  The bundles the daemon publishes, from the side of a party that fetches them: a store rebuilt
  from the reply of \<open>FetchJWTBundles\<close> validates what the daemon's own store validates.
\<close>

section \<open>Rebuilding a store\<close>

text \<open>\<open>from_slice\<close> parses the JSON of an entry. An entry that cannot be read is left out.\<close>

definition import_bundle :: "(byte list \<Rightarrow> json option) \<Rightarrow> string \<times> byte list \<Rightarrow> trust_bundle option" where
  "import_bundle from_slice e =
     Option.bind (result_ok (trust_domain_from_str (drop (length ''spiffe://'') (fst e)))) (\<lambda>td.
       map_option (\<lambda>v. \<lparr>tb_trust_domain = td, x509_authorities = [], jwt_authorities = v\<rparr>) (from_slice (snd e)))"

definition import_bundles :: "(byte list \<Rightarrow> json option) \<Rightarrow> (string \<times> byte list) list \<Rightarrow> trust_bundle_store" where
  "import_bundles from_slice es = foldl upsert new_store (List.map_filter (import_bundle from_slice) es)"

section \<open>Lemmas\<close>

definition without_x509 :: "trust_bundle \<Rightarrow> trust_bundle" where
  "without_x509 b = b\<lparr>x509_authorities := []\<rparr>"

lemma without_x509_simps [simp]:
  "tb_trust_domain (without_x509 b) = tb_trust_domain b" "jwt_authorities (without_x509 b) = jwt_authorities b"
  by (simp_all add: without_x509_def)

lemma import_published:
  assumes "wf_trust_domain (tb_trust_domain b)" "from_slice bs = Some (jwt_authorities b)"
  shows "import_bundle from_slice (bundle_key (tb_trust_domain b), bs) = Some (without_x509 b)"
  using assms trust_domain_from_str_display [OF assms(1)]
  by (simp add: import_bundle_def bundle_key_def without_x509_def)

lemma import_all_published:
  assumes "collect_results (\<lambda>b. and_then (ok_or st (to_vec (jwt_authorities b)))
      (\<lambda>bs. Inr (bundle_key (tb_trust_domain b), bs))) bundles = Inr es"
    and "\<forall>b\<in>set bundles. wf_trust_domain (tb_trust_domain b)"
    and "\<forall>v bs. to_vec v = Some bs \<longrightarrow> from_slice bs = Some v"
  shows "List.map_filter (import_bundle from_slice) es = map without_x509 bundles"
proof -
  from assms(1) have "list_all2 (\<lambda>b e. and_then (ok_or st (to_vec (jwt_authorities b)))
      (\<lambda>bs. Inr (bundle_key (tb_trust_domain b), bs)) = Inr e) bundles es"
    by (simp add: collect_results_Inr)
  then show ?thesis using assms(2)
  proof (induction rule: list_all2_induct)
    case (Cons b bundles e es)
    then obtain bs where "to_vec (jwt_authorities b) = Some bs" "e = (bundle_key (tb_trust_domain b), bs)"
      by (cases "to_vec (jwt_authorities b)") auto
    with Cons assms(3) import_published [of b from_slice bs] show ?case by (simp add: map_filter_simps)
  qed (simp add: map_filter_simps)
qed

lemma get_rebuilt:
  assumes "valid_store st"
  shows "get_bundle (foldl upsert new_store (map without_x509 (snapshot st))) td = map_option without_x509 (get_bundle st td)"
proof -
  have "get_bundle (foldl upsert new_store (map without_x509 (snapshot st))) td
      = find (\<lambda>b. tb_trust_domain b = td) (rev (map without_x509 (snapshot st)))"
    using bundles.get_put_all by (simp add: bundles.put_all_def)
  also have "\<dots> = map_option without_x509 (find (\<lambda>b. tb_trust_domain b = td) (rev (snapshot st)))"
    by (simp add: rev_map find_map_comp)
  also have "find (\<lambda>b. tb_trust_domain b = td) (rev (snapshot st)) = get_bundle st td"
  proof (cases "get_bundle st td")
    case None
    with bundles.all_get [OF assms] show ?thesis by (auto simp: find_None_iff)
  next
    case (Some b)
    with assms have "tb_trust_domain b = td"
      by (auto simp: get_bundle_def valid_store_def list_all_iff dest!: map_of_SomeD)
    with Some bundles.all_get [OF assms] find_distinct [OF bundles.all_distinct [OF assms], of b] show ?thesis by auto
  qed
  finally show ?thesis .
qed

lemma validate_cong:
  assumes "\<And>td. map_option jwt_authorities (get_bundle st td) = map_option jwt_authorities (get_bundle st' td)"
  shows "validate_jwtsvid lib st now req = validate_jwtsvid lib st' now req"
proof -
  have "and_then (ok_or reject (get_bundle st td)) (\<lambda>b. and_then (ok_or reject (jwt_decoding_key lib b k)) f)
      = and_then (ok_or reject (get_bundle st' td)) (\<lambda>b. and_then (ok_or reject (jwt_decoding_key lib b k)) f)"
    for td k and f :: "byte list \<Rightarrow> status + spiffe_id \<times> json"
    using assms [of td]
    by (cases "get_bundle st td"; cases "get_bundle st' td") (simp_all add: jwt_decoding_key_def)
  then show ?thesis by (simp add: validate_jwtsvid_def)
qed

section \<open>Property\<close>

text \<open>
  C10: what the daemon publishes is enough to check its tokens. A party that rebuilds a store from
  the reply of \<open>FetchJWTBundles\<close>, with a JSON parser that reads back what the daemon's serialiser
  wrote, gets from \<open>ValidateJWTSVID\<close>'s checks on that store exactly the daemon's own verdict, for
  every token, audience and time.
\<close>

theorem published_bundles_validate_alike:
  assumes "valid_store (sv_bundles sv)" and "\<forall>b\<in>set (snapshot (sv_bundles sv)). wf_trust_domain (tb_trust_domain b)"
    and "fetch_jwt_bundles to_vec sv = Inr es" and "\<forall>v bs. to_vec v = Some bs \<longrightarrow> from_slice bs = Some v"
  shows "validate_jwtsvid lib (import_bundles from_slice es) now req = validate_jwtsvid lib (sv_bundles sv) now req"
proof (rule validate_cong)
  fix td
  have "import_bundles from_slice es = foldl upsert new_store (map without_x509 (snapshot (sv_bundles sv)))"
    using import_all_published [OF assms(3) [unfolded fetch_jwt_bundles_def] assms(2,4)] by (simp add: import_bundles_def)
  then show "map_option jwt_authorities (get_bundle (import_bundles from_slice es) td)
      = map_option jwt_authorities (get_bundle (sv_bundles sv) td)"
    by (simp add: get_rebuilt [OF assms(1)] option.map_comp comp_def)
qed

end
