(* ===== verification/Service_Reply.thy ===== *)
theory Service_Reply
  imports Service_Choice
begin

text \<open>
  The reply of \<open>FetchJWTSVID\<close> as a function of the proven claims: a reference definition of the
  policy, audience by audience, and the proof that the handler's folds, gates and loop serve
  exactly what it grants; and that a source that cannot enumerate leaves no trace.
\<close>

section \<open>The policy, audience by audience\<close>

text \<open>
  What one audience asks of a claim at an instant: an observation younger than its bound, if it
  names one, and presence of its level, if it asks for presence, seen within the last 300
  seconds.
\<close>

definition satisfies :: "sys_time \<Rightarrow> claim \<Rightarrow> audience_extensions \<Rightarrow> bool" where
  "satisfies now cl e \<longleftrightarrow>
     (case max_age e of None \<Rightarrow> True | Some m \<Rightarrow> \<exists>age. age_at cl now = Some age \<and> age < m)
     \<and> (require_presence e = NoPresence
        \<or> require_presence e \<le> cl_presence cl \<and> (\<exists>age. age_at cl now = Some age \<and> age < from_secs 300))"

definition granted :: "audience_extensions list \<Rightarrow> sys_time \<Rightarrow> claim list \<Rightarrow> claim list" where
  "granted exts now claims = filter (\<lambda>cl. list_all (satisfies now cl) exts) claims"

lemma within_tightest_age:
  "within_max_age age (tightest_age exts) \<longleftrightarrow> (\<forall>e\<in>set exts. within_max_age age (max_age e))"
proof -
  have "within_max_age age (tighten a b) \<longleftrightarrow> within_max_age age a \<and> within_max_age age b" for a b
    by (cases "(a, b)" rule: tighten.cases) (auto simp: within_max_age_def split: option.splits)
  then have "within_max_age age (foldl tighten a (map max_age exts))
      \<longleftrightarrow> within_max_age age a \<and> (\<forall>e\<in>set exts. within_max_age age (max_age e))" for a
    by (induction exts arbitrary: a) auto
  then show ?thesis by (simp add: tightest_age_fold within_max_age_def)
qed

lemma strictest_presence_le:
  "strictest_presence exts \<le> p \<longleftrightarrow> (\<forall>e\<in>set exts. require_presence e \<le> p)"
proof -
  have "foldl max r (map require_presence exts) \<le> p \<longleftrightarrow> r \<le> p \<and> (\<forall>e\<in>set exts. require_presence e \<le> p)" for r
    by (induction exts arbitrary: r) auto
  then show ?thesis by (simp add: strictest_presence_fold)
qed

lemma le_decayed_presence:
  "p \<le> decayed_presence cl age \<longleftrightarrow>
     p = NoPresence \<or> p \<le> cl_presence cl \<and> (\<exists>a. age = Some a \<and> a < from_secs 300)"
  by (auto simp: decayed_presence_def presence_ttl_def split: option.split)

text \<open>The two gates of \<open>issue\<close>, over the folded policy, are the policy of every audience.\<close>

lemma gates_iff_satisfied:
  "within_max_age (age_at cl now) (tightest_age exts)
     \<and> strictest_presence exts \<le> decayed_presence cl (age_at cl now)
   \<longleftrightarrow> list_all (satisfies now cl) exts"
proof -
  let ?age = "age_at cl now"
  have "satisfies now cl e \<longleftrightarrow> within_max_age ?age (max_age e) \<and> require_presence e \<le> decayed_presence cl ?age" for e
    by (auto simp: satisfies_def le_decayed_presence within_max_age_def split: option.split)
  then show ?thesis by (auto simp: within_tightest_age strictest_presence_le list_all_iff)
qed

section \<open>The issuing loop\<close>

definition entry :: "crypto_lib \<Rightarrow> svid_signer \<Rightarrow> consumer_identity \<Rightarrow> sys_time \<Rightarrow> claim \<Rightarrow> string \<times> string" where
  "entry lib signer consumer now cl =
     (uri (pseudonymous_id lib signer (cl_spiffe_id cl) consumer),
      display_hint (issue_hint cl (decayed_presence cl (age_at cl now)) (age_at cl now)))"

definition entry_of :: "jwtsvid \<Rightarrow> string \<times> string" where
  "entry_of s = (sv_spiffe_id s, sv_hint s)"

text \<open>What signing needs: a clock past the epoch and an encoder that does not fail.\<close>

definition signs :: "crypto_lib \<Rightarrow> 'w os \<Rightarrow> bool" where
  "signs lib os \<longleftrightarrow> (\<forall>h p k. \<exists>t. jwt_encode lib h p k = Inr t)
     \<and> (\<forall>w. duration_since (fst (os_now os w)) unix_epoch \<noteq> None)"

lemma issue_granted:
  assumes "signs lib os" "list_all (satisfies now cl) exts"
  shows "\<exists>svid w'. issue lib os signer cl consumer auds (strictest_presence exts) (tightest_age exts) now w
      = (Some (Inr svid), w') \<and> entry_of svid = entry lib signer consumer now cl"
proof -
  obtain clock w1 where now: "os_now os w = (clock, w1)" by fastforce
  with assms(1) obtain d where d: "duration_since clock unix_epoch = Some d" by (auto simp: signs_def) (metis fst_conv)
  from assms(1) obtain t where "\<And>h p k. jwt_encode lib h p k = Inr (t h p k)" unfolding signs_def by metis
  moreover from assms(2) gates_iff_satisfied [of cl now exts]
  have "within_max_age (age_at cl now) (tightest_age exts)"
    "\<not> decayed_presence cl (age_at cl now) < strictest_presence exts" by (simp_all add: not_less)
  ultimately show ?thesis
    using now d by (simp add: issue_def Let_def sign_jwt_svid_def entry_of_def entry_def)
qed

lemma issue_refused:
  assumes "\<not> list_all (satisfies now cl) exts"
  shows "\<exists>msg. issue lib os signer cl consumer auds (strictest_presence exts) (tightest_age exts) now w
      = (Some (Inl (Unauthenticated, msg)), w)"
  using assms unfolding gates_iff_satisfied [symmetric] by (auto simp: issue_def Let_def not_le)

lemma issue_all_exact:
  assumes "\<And>cl w. good cl \<Longrightarrow> \<exists>svid w'. iss cl w = (Some (Inr svid), w') \<and> entry_of svid = ent cl"
    and "\<And>cl w. \<not> good cl \<Longrightarrow> \<exists>msg. iss cl w = (Some (Inl (Unauthenticated, msg)), w)"
    and "refusal = None \<or> (\<exists>msg. refusal = Some (Unauthenticated, msg))"
  shows "\<exists>svids r w'. issue_all iss cls acc refusal w = (Some (acc @ svids, r), w')
    \<and> map entry_of svids = map ent (filter good cls) \<and> (r = None \<or> (\<exists>msg. r = Some (Unauthenticated, msg)))"
  using assms(3)
proof (induction cls arbitrary: acc refusal w)
  case (Cons cl cls)
  show ?case
  proof (cases "good cl")
    case True
    with assms(1) obtain svid w1 where i: "iss cl w = (Some (Inr svid), w1)" "entry_of svid = ent cl" by blast
    from Cons.IH [OF Cons.prems, of "acc @ [svid]" w1] obtain svids r w' where
      "issue_all iss cls (acc @ [svid]) refusal w1 = (Some ((acc @ [svid]) @ svids, r), w')"
      "map entry_of svids = map ent (filter good cls)" "r = None \<or> (\<exists>msg. r = Some (Unauthenticated, msg))" by blast
    with i True show ?thesis by (intro exI [of _ "svid # svids"]) simp
  next
    case False
    with assms(2) obtain msg where i: "iss cl w = (Some (Inl (Unauthenticated, msg)), w)" by blast
    let ?r = "case refusal of None \<Rightarrow> Some (Unauthenticated, msg) | Some r \<Rightarrow> Some r"
    have "?r = None \<or> (\<exists>msg. ?r = Some (Unauthenticated, msg))" using Cons.prems by auto
    from Cons.IH [OF this, of acc w] i False show ?thesis by simp
  qed
qed simp

section \<open>Sources that cannot enumerate\<close>

lemma enumerate_all_append:
  "enumerate_all (as @ bs) w =
     (case enumerate_all as w of (found, w') \<Rightarrow> apfst ((@) found) (enumerate_all bs w'))"
proof (induction as w rule: enumerate_all.induct)
  case (1 w)
  show ?case by (cases "enumerate_all bs w") simp
next
  case (2 a as w)
  obtain r w1 where r: "at_enumerate a w = (r, w1)" by fastforce
  obtain found w2 where f: "enumerate_all as w1 = (found, w2)" by fastforce
  obtain more w3 where m: "enumerate_all bs w2 = (more, w3)" by fastforce
  from "2.IH" [OF r [symmetric]] r f m show ?case by (cases r) simp_all
qed

lemma prove_requested_without:
  assumes "\<And>w. \<exists>r. at_enumerate a w = (r, w) \<and> (\<forall>cs. r = Inr cs \<longrightarrow> cs = [])"
    and "sv_attestors sv = as @ a # bs" and "sv_attestors sv' = as @ bs"
  shows "prove_requested sv challenge requested w = prove_requested sv' challenge requested w"
proof -
  have "enumerate_all (a # bs) w = enumerate_all bs w" for w
    using assms(1) [of w] by (auto split: prod.split sum.split)
  then have "enumerate_all (as @ a # bs) w = enumerate_all (as @ bs) w"
    by (simp only: enumerate_all_append)
  then show ?thesis by (simp only: prove_requested_def assms(2,3))
qed

section \<open>Properties\<close>


text \<open>
  C21: a source that is broken or has nothing to show does not matter. If an attestor's discovery
  always fails, or always finds nothing, and changes nothing, every request gets the reply, and
  leaves the world, as if the attestor were not registered.
\<close>

theorem failing_source_is_ignored:
  assumes "\<forall>w. \<exists>r. at_enumerate a w = (r, w) \<and> (\<forall>cs. r = Inr cs \<longrightarrow> cs = [])"
    and "sv_attestors sv = as @ a # bs"
  shows "fetch_jwtsvid lib os sv peer req w = fetch_jwtsvid lib os (sv\<lparr>sv_attestors := as @ bs\<rparr>) peer req w"
  by (rule fetch_cong) (simp, rule prove_requested_without, use assms in auto)

end
