(* ===== verification/Service_Steps.thy ===== *)
theory Service_Steps
  imports Service_Reply
begin

text \<open>
  \<open>fetch_jwtsvid\<close> one await at a time. The handler gives up its turn whenever it asks an attestor
  something; in between, other calls run and the machine goes on. An attestor's answer is one
  step; a call whose client goes away takes no further turns. Alone, a call does what \<open>fetch_jwtsvid\<close> does; interleaved, what it promises still holds.
\<close>

section \<open>A call\<close>

text \<open>
  Where a call is: it has arrived; it asks the remaining attestors for candidates; without a name
  it proves the remaining candidates; with one it proves the candidate of that path; it has
  replied, or panicked.
\<close>

datatype 'w call =
    Arrived
  | Discovering "byte list" consumer_identity "audience_extensions list" "spiffe_id option"
      "'w attestor list" "('w attestor \<times> candidate) list"
  | Proving "byte list" consumer_identity "audience_extensions list" "('w attestor \<times> candidate) list" "claim list"
  | ProvingNamed "byte list" consumer_identity "audience_extensions list" spiffe_id "'w attestor" candidate
  | Replied "(status + jwtsvid list) option"

text \<open>From the claims to the reply nothing is awaited.\<close>

definition answer ::
  "crypto_lib \<Rightarrow> 'w os \<Rightarrow> 'w workload_service \<Rightarrow> consumer_identity \<Rightarrow> audience_extensions list \<Rightarrow> claim list \<Rightarrow> 'w
    \<Rightarrow> 'w call \<times> 'w" where
  "answer lib os sv consumer exts claims w =
     (case os_now os w of (now, w1) \<Rightarrow>
        apfst (\<lambda>r. Replied (finish_svids r))
          (issue_all (\<lambda>cl. issue lib os (sv_signer sv) cl consumer (map audience exts)
             (strictest_presence exts) (tightest_age exts) now) claims [] None w1))"

definition begin_proving ::
  "byte list \<Rightarrow> consumer_identity \<Rightarrow> audience_extensions list \<Rightarrow> spiffe_id option
    \<Rightarrow> ('w attestor \<times> candidate) list \<Rightarrow> 'w call" where
  "begin_proving challenge consumer exts requested found =
     (case requested of
        None \<Rightarrow> Proving challenge consumer exts found []
      | Some want \<Rightarrow>
          (case find (\<lambda>(a, c). cand_path c = sid_path want) found of
             None \<Rightarrow> Replied (Some (Inl selector_deny))
           | Some (a, c) \<Rightarrow> ProvingNamed challenge consumer exts want a c))"

fun call_step ::
  "crypto_lib \<Rightarrow> 'w os \<Rightarrow> 'w workload_service \<Rightarrow> consumer_identity option \<Rightarrow> jwtsvid_request \<Rightarrow> 'w call \<times> 'w
    \<Rightarrow> 'w call \<times> 'w" where
  "call_step lib os sv peer req (Arrived, w) =
     (case check_request peer req of
        Inl st \<Rightarrow> (Replied (Some (Inl st)), w)
      | Inr (consumer, exts, requested) \<Rightarrow>
          (case new_challenge os w of
             (Inl st, w1) \<Rightarrow> (Replied (Some (Inl st)), w1)
           | (Inr challenge, w1) \<Rightarrow> (Discovering challenge consumer exts requested (sv_attestors sv) [], w1)))"
| "call_step lib os sv peer req (Discovering challenge consumer exts requested [] found, w) =
     (begin_proving challenge consumer exts requested found, w)"
| "call_step lib os sv peer req (Discovering challenge consumer exts requested (a # as) found, w) =
     (case at_enumerate a w of (r, w1) \<Rightarrow>
        (Discovering challenge consumer exts requested as
           (found @ (case r of Inr cs \<Rightarrow> map (Pair a) cs | Inl _ \<Rightarrow> [])), w1))"
| "call_step lib os sv peer req (Proving challenge consumer exts [] proven, w) =
     answer lib os sv consumer exts (best_first proven) w"
| "call_step lib os sv peer req (Proving challenge consumer exts ((a, c) # rest) proven, w) =
     (if cand_proof_cost c \<noteq> Silent then (Proving challenge consumer exts rest proven, w)
      else case at_prove a c challenge w of (r, w1) \<Rightarrow>
        (Proving challenge consumer exts rest
           (proven @ (case r of Inl _ \<Rightarrow> [] | Inr ev \<Rightarrow>
              (case derive c challenge ev of None \<Rightarrow> [] | Some cl \<Rightarrow> [cl]))), w1))"
| "call_step lib os sv peer req (ProvingNamed challenge consumer exts want a c, w) =
     (case at_prove a c challenge w of
        (Inl _, w1) \<Rightarrow> (Replied (Some (Inl selector_deny)), w1)
      | (Inr ev, w1) \<Rightarrow>
          (case derive c challenge ev of
             None \<Rightarrow> (Replied (Some (Inl selector_deny)), w1)
           | Some cl \<Rightarrow>
               if cl_spiffe_id cl \<noteq> want then (Replied (Some (Inl selector_deny)), w1)
               else answer lib os sv consumer exts [cl] w1))"
| "call_step lib os sv peer req (Replied r, w) = (Replied r, w)"

section \<open>A call on its own\<close>

lemma replied_stays: "(call_step lib os sv peer req ^^ n) (Replied r, w) = (Replied r, w)"
  by (induction n) auto

lemma funpow_chain: "(f ^^ m) x = y \<Longrightarrow> (f ^^ n) y = z \<Longrightarrow> (f ^^ (n + m)) x = z"
  by (simp add: funpow_add)

lemma discover_all:
  assumes "enumerate_all as w = (xs, w')"
  shows "(call_step lib os sv peer req ^^ length as) (Discovering ch consumer exts requested as found, w)
    = (Discovering ch consumer exts requested [] (found @ xs), w')"
  using assms
proof (induction as w arbitrary: found xs w' rule: enumerate_all.induct)
  case (2 a as w)
  obtain r w1 where r: "at_enumerate a w = (r, w1)" by fastforce
  obtain found' w2 where e: "enumerate_all as w1 = (found', w2)" by fastforce
  from 2(1) [OF r [symmetric] e] r e 2(2) show ?case by (cases r) (simp_all add: funpow_swap1)
qed simp

lemma prove_all:
  assumes "prove_silent ch cs w = (xs, w')"
  shows "(call_step lib os sv peer req ^^ length cs) (Proving ch consumer exts cs proven, w)
    = (Proving ch consumer exts [] (proven @ xs), w')"
  using assms
proof (induction ch cs w arbitrary: proven xs w' rule: prove_silent.induct)
  case (2 ch a c rest w)
  show ?case
  proof (cases "cand_proof_cost c = Silent")
    case True
    obtain r w1 where r: "at_prove a c ch w = (r, w1)" by fastforce
    obtain xs' w2 where e: "prove_silent ch rest w1 = (xs', w2)" by fastforce
    from 2(2) [OF _ r [symmetric] e] True r e 2(3) show ?thesis
      by (cases r) (auto simp: funpow_swap1 split: option.splits)
  next
    case False
    with 2(1) [OF False] 2(3) show ?thesis by (simp add: funpow_swap1)
  qed
qed simp

text \<open>What is left once the claims are there.\<close>

definition complete ::
  "crypto_lib \<Rightarrow> 'w os \<Rightarrow> 'w workload_service \<Rightarrow> consumer_identity \<Rightarrow> audience_extensions list
    \<Rightarrow> (status + claim list) \<times> 'w \<Rightarrow> 'w call \<times> 'w" where
  "complete lib os sv consumer exts r =
     (case r of (Inl st, w) \<Rightarrow> (Replied (Some (Inl st)), w) | (Inr claims, w) \<Rightarrow> answer lib os sv consumer exts claims w)"

lemma named_alone:
  "\<exists>n. (call_step lib os sv peer req ^^ n) (begin_proving ch consumer exts (Some want) found, w)
     = complete lib os sv consumer exts (named_claims ch want found w)"
proof (cases "find (\<lambda>(a, c). cand_path c = sid_path want) found")
  case None
  then show ?thesis by (intro exI [of _ 0]) (simp add: begin_proving_def named_claims_def complete_def)
next
  case (Some p)
  then show ?thesis
    by (intro exI [of _ 1])
      (auto simp: begin_proving_def named_claims_def complete_def split: prod.split sum.split option.split)
qed

lemma unnamed_alone:
  "\<exists>n. (call_step lib os sv peer req ^^ n) (begin_proving ch consumer exts None found, w)
     = complete lib os sv consumer exts (apfst Inr (unnamed_claims ch found w))"
proof -
  obtain proven w1 where p: "prove_silent ch found w = (proven, w1)" by fastforce
  have "(call_step lib os sv peer req ^^ (1 + length found)) (Proving ch consumer exts found [], w)
      = answer lib os sv consumer exts (best_first proven) w1"
    by (rule funpow_chain [OF prove_all [OF p]]) simp
  with p show ?thesis
    by (intro exI [of _ "1 + length found"]) (simp add: begin_proving_def unnamed_claims_def complete_def)
qed

lemma proving_alone:
  assumes "enumerate_all (sv_attestors sv) w = (found, w1)"
  shows "\<exists>n. (call_step lib os sv peer req ^^ n) (begin_proving ch consumer exts requested found, w1)
     = complete lib os sv consumer exts (prove_requested sv ch requested w)"
  using assms named_alone unnamed_alone by (cases requested) (simp_all add: prove_requested_def)

lemma fetch_complete:
  assumes "check_request peer req = Inr (consumer, exts, requested)" "new_challenge os w = (Inr ch, w1)"
  shows "complete lib os sv consumer exts (prove_requested sv ch requested w1)
    = apfst Replied (fetch_jwtsvid lib os sv peer req w)"
  using assms
  by (auto simp: complete_def fetch_jwtsvid_def answer_def apfst_compose comp_def split: prod.split sum.split)

lemma call_alone:
  "\<exists>n. (call_step lib os sv peer req ^^ n) (Arrived, w) = apfst Replied (fetch_jwtsvid lib os sv peer req w)"
proof (cases "check_request peer req")
  case (Inl st)
  then show ?thesis by (intro exI [of _ 1]) (simp add: fetch_jwtsvid_def)
next
  case (Inr c)
  obtain consumer exts requested where c: "c = (consumer, exts, requested)" by (metis prod_cases3)
  obtain r w1 where r: "new_challenge os w = (r, w1)" by fastforce
  show ?thesis
  proof (cases r)
    case (Inl st)
    with Inr c r show ?thesis by (intro exI [of _ 1]) (simp add: fetch_jwtsvid_def)
  next
    case ch: (Inr ch)
    let ?f = "call_step lib os sv peer req" and ?as = "sv_attestors sv"
    obtain found w2 where e: "enumerate_all ?as w1 = (found, w2)" by fastforce
    have "(?f ^^ 1) (Arrived, w) = (Discovering ch consumer exts requested ?as [], w1)"
      using Inr c r ch by simp
    from funpow_chain [OF this discover_all [OF e]]
    have "(?f ^^ (length ?as + 1)) (Arrived, w) = (Discovering ch consumer exts requested [] found, w2)" by simp
    then have d: "(?f ^^ (1 + (length ?as + 1))) (Arrived, w) = (begin_proving ch consumer exts requested found, w2)"
      by (rule funpow_chain) simp
    from proving_alone [OF e] obtain n where
      "(?f ^^ n) (begin_proving ch consumer exts requested found, w2)
        = complete lib os sv consumer exts (prove_requested sv ch requested w1)" by blast
    from funpow_chain [OF d this] fetch_complete [OF Inr [unfolded c] r [unfolded ch]] show ?thesis by metis
  qed
qed

section \<open>A call ends\<close>

fun call_rank :: "'w call \<Rightarrow> nat \<times> nat" where
  "call_rank Arrived = (3, 0)"
| "call_rank (Discovering _ _ _ _ as _) = (2, length as)"
| "call_rank (Proving _ _ _ cs _) = (1, length cs)"
| "call_rank (ProvingNamed _ _ _ _ _ _) = (1, 0)"
| "call_rank (Replied _) = (0, 0)"

lemma answer_replies: "answer lib os sv consumer exts claims w = (c, w') \<Longrightarrow> \<exists>r. c = Replied r"
  by (auto simp: answer_def apfst_def map_prod_def split: prod.splits)

lemma rank_decreases:
  assumes "call_step lib os sv peer req (c, w) = (c', w')" "\<And>r. c \<noteq> Replied r"
  shows "(call_rank c', call_rank c) \<in> less_than <*lex*> less_than"
proof -
  have begun: "fst (call_rank (begin_proving ch consumer exts requested found)) < 2"
    for ch consumer exts requested and found :: "('a attestor \<times> candidate) list"
    by (auto simp: begin_proving_def split: option.split)
  from assms show ?thesis
  proof (cases "(lib, os, sv, peer, req, (c, w))" rule: call_step.cases)
    case (2 lib os sv peer req ch consumer exts requested found w)
    with assms begun [of ch consumer exts requested found] show ?thesis
      by (cases "call_rank (begin_proving ch consumer exts requested found)") auto
  next
    case (4 lib os sv peer req ch consumer exts proven w)
    with assms(1) answer_replies show ?thesis by fastforce
  next
    case (6 lib os sv peer req ch consumer exts want a cand w)
    from assms(1) 6 have "\<exists>r. c' = Replied r"
      by (auto split: prod.splits sum.splits option.splits if_splits dest: answer_replies)
    with 6 show ?thesis by auto
  qed (auto split: sum.splits prod.splits if_splits)
qed

text \<open>A call's turns, each in whatever world it then finds.\<close>

primrec turns ::
  "crypto_lib \<Rightarrow> 'w os \<Rightarrow> 'w workload_service \<Rightarrow> consumer_identity option \<Rightarrow> jwtsvid_request \<Rightarrow> (nat \<Rightarrow> 'w) \<Rightarrow> nat \<Rightarrow> 'w call" where
  "turns lib os sv peer req ws 0 = Arrived"
| "turns lib os sv peer req ws (Suc n) = fst (call_step lib os sv peer req (turns lib os sv peer req ws n, ws n))"

section \<open>What a call keeps\<close>

text \<open>A claim that came from a proof this call asked for, under its challenge.\<close>

definition proven_for :: "'w workload_service \<Rightarrow> byte list \<Rightarrow> spiffe_id option \<Rightarrow> claim \<Rightarrow> bool" where
  "proven_for sv ch requested cl \<longleftrightarrow>
     (\<exists>a c w ev w'. a \<in> set (sv_attestors sv) \<and> at_prove a c ch w = (Inr ev, w') \<and> derive c ch ev = Some cl
        \<and> (case requested of None \<Rightarrow> cand_proof_cost c = Silent | Some want \<Rightarrow> cl_spiffe_id cl = want))"

lemma proven_forI:
  assumes "a \<in> set (sv_attestors sv)" "at_prove a c ch w = (Inr ev, w')" "derive c ch ev = Some cl"
    and "case requested of None \<Rightarrow> cand_proof_cost c = Silent | Some want \<Rightarrow> cl_spiffe_id cl = want"
  shows "proven_for sv ch requested cl"
  unfolding proven_for_def using assms by blast

definition drawn :: "'w os \<Rightarrow> byte list \<Rightarrow> bool" where
  "drawn os ch \<longleftrightarrow> (\<exists>w w'. os_random32 os w = (Some ch, w'))"

text \<open>An SVID of a reply: issued for the caller, for such a claim, which its audiences are satisfied with.\<close>

definition served ::
  "crypto_lib \<Rightarrow> 'w workload_service \<Rightarrow> byte list \<Rightarrow> consumer_identity \<Rightarrow> audience_extensions list \<Rightarrow> spiffe_id option
    \<Rightarrow> jwtsvid \<Rightarrow> bool" where
  "served lib sv ch consumer exts requested svid \<longleftrightarrow>
     (\<exists>cl now. proven_for sv ch requested cl \<and> list_all (satisfies now cl) exts
        \<and> entry_of svid = entry lib (sv_signer sv) consumer now cl)"

fun call_inv ::
  "crypto_lib \<Rightarrow> 'w os \<Rightarrow> 'w workload_service \<Rightarrow> consumer_identity option \<Rightarrow> jwtsvid_request \<Rightarrow> 'w call \<Rightarrow> bool" where
  "call_inv lib os sv peer req Arrived \<longleftrightarrow> True"
| "call_inv lib os sv peer req (Discovering ch consumer exts requested as found) \<longleftrightarrow>
     drawn os ch \<and> check_request peer req = Inr (consumer, exts, requested)
     \<and> set as \<subseteq> set (sv_attestors sv) \<and> fst ` set found \<subseteq> set (sv_attestors sv)"
| "call_inv lib os sv peer req (Proving ch consumer exts cs proven) \<longleftrightarrow>
     drawn os ch \<and> check_request peer req = Inr (consumer, exts, None)
     \<and> fst ` set cs \<subseteq> set (sv_attestors sv) \<and> list_all (proven_for sv ch None) proven"
| "call_inv lib os sv peer req (ProvingNamed ch consumer exts want a c) \<longleftrightarrow>
     drawn os ch \<and> check_request peer req = Inr (consumer, exts, Some want)
     \<and> a \<in> set (sv_attestors sv) \<and> cand_path c = sid_path want"
| "call_inv lib os sv peer req (Replied r) \<longleftrightarrow>
     (case r of Some (Inr svids) \<Rightarrow>
        \<exists>ch consumer exts requested. drawn os ch \<and> check_request peer req = Inr (consumer, exts, requested)
          \<and> list_all (served lib sv ch consumer exts requested) svids
      | _ \<Rightarrow> True)"

lemma issue_served:
  assumes "issue lib os (sv_signer sv) cl consumer auds (strictest_presence exts) (tightest_age exts) now w = (Some (Inr svid), w')"
    and "proven_for sv ch requested cl"
  shows "served lib sv ch consumer exts requested svid"
proof -
  from issue_Inr [OF assms(1)] gates_iff_satisfied [of cl now exts]
  have "list_all (satisfies now cl) exts" "entry_of svid = entry lib (sv_signer sv) consumer now cl"
    by (simp_all add: entry_of_def entry_def)
  with assms(2) show ?thesis by (auto simp: served_def)
qed

lemma answer_inv:
  assumes "answer lib os sv consumer exts claims w = (c, w')" "list_all (proven_for sv ch requested) claims"
    and "drawn os ch" "check_request peer req = Inr (consumer, exts, requested)"
  shows "call_inv lib os sv peer req c"
proof -
  obtain now w1 where now: "os_now os w = (now, w1)" by fastforce
  let ?iss = "\<lambda>cl. issue lib os (sv_signer sv) cl consumer (map audience exts) (strictest_presence exts) (tightest_age exts) now"
  obtain r w2 where i: "issue_all ?iss claims [] None w1 = (r, w2)" by fastforce
  with assms(1) now have c: "c = Replied (finish_svids r)" by (simp add: answer_def)
  have "list_all (served lib sv ch consumer exts requested) svids" if "r = Some (svids, refusal)" for svids refusal
    unfolding list_all_iff
  proof
    fix svid
    assume "svid \<in> set svids"
    from issue_all_Inr [OF i [unfolded that] this] obtain cl w3 w4 where
      "cl \<in> set claims" "?iss cl w3 = (Some (Inr svid), w4)" by auto
    with assms(2) show "served lib sv ch consumer exts requested svid"
      by (intro issue_served) (auto simp: list_all_iff)
  qed
  with assms(3,4) show ?thesis by (auto simp: c finish_svids_def split: option.splits)
qed

lemma begin_proving_inv:
  assumes "drawn os ch" "check_request peer req = Inr (consumer, exts, requested)" "fst ` set found \<subseteq> set (sv_attestors sv)"
  shows "call_inv lib os sv peer req (begin_proving ch consumer exts requested found)"
proof (cases requested)
  case (Some want)
  have "a \<in> set (sv_attestors sv) \<and> cand_path c = sid_path want"
    if "find (\<lambda>(a, c). cand_path c = sid_path want) found = Some (a, c)" for a c
    using find_SomeD [OF that] assms(3) by force
  with Some assms show ?thesis by (auto simp: begin_proving_def split: option.split)
qed (use assms in \<open>simp add: begin_proving_def\<close>)

lemma call_inv_step:
  assumes "call_inv lib os sv peer req c" "call_step lib os sv peer req (c, w) = (c', w')"
  shows "call_inv lib os sv peer req c'"
proof (cases c)
  case Arrived
  with assms(2) show ?thesis
    by (fastforce simp: new_challenge_def drawn_def split: sum.splits prod.splits option.splits)
next
  case (Discovering ch consumer exts requested as found)
  with assms show ?thesis
    by (cases as) (auto simp: begin_proving_inv image_Un image_subset_iff split: prod.splits sum.splits)
next
  case (Proving ch consumer exts cs proven)
  show ?thesis
  proof (cases cs)
    case Nil
    with Proving assms best_first_set [of proven] show ?thesis
      by (intro answer_inv [where requested = None and ch = ch]) (auto simp: list_all_iff)
  next
    case (Cons p rest)
    obtain a cd where p: "p = (a, cd)" by fastforce
    have "proven_for sv ch None cl"
      if "at_prove a cd ch w = (Inr ev, w1)" "derive cd ch ev = Some cl" "cand_proof_cost cd = Silent" for ev w1 cl
      by (rule proven_forI [OF _ that(1,2)]) (use that(3) Proving Cons p assms(1) in simp_all)
    with Proving Cons p assms show ?thesis by (auto split: if_splits prod.splits sum.splits option.splits)
  qed
next
  case (ProvingNamed ch consumer exts want a cd)
  have "call_inv lib os sv peer req c'"
    if "at_prove a cd ch w = (Inr ev, w1)" "derive cd ch ev = Some cl" "cl_spiffe_id cl = want"
      "answer lib os sv consumer exts [cl] w1 = (c', w')" for ev w1 cl
  proof (rule answer_inv [OF that(4)])
    have "proven_for sv ch (Some want) cl"
      by (rule proven_forI [OF _ that(1,2)]) (use that(3) ProvingNamed assms(1) in simp_all)
    then show "list_all (proven_for sv ch (Some want)) [cl]" by simp
  qed (use ProvingNamed assms(1) in simp_all)
  with ProvingNamed assms(2) show ?thesis
    by (auto split: if_splits prod.splits sum.splits option.splits)
qed (use assms in auto)

section \<open>Calls together\<close>

text \<open>
  A caller and its request per call; the calls take turns, and the machine changes as it likes
  in between, or as far as a condition on it allows.
\<close>

type_synonym callers = "nat \<Rightarrow> consumer_identity option \<times> jwtsvid_request"

definition turn_of ::
  "crypto_lib \<Rightarrow> 'w os \<Rightarrow> 'w workload_service \<Rightarrow> callers \<Rightarrow> nat \<Rightarrow> 'w call \<times> 'w \<Rightarrow> 'w call \<times> 'w" where
  "turn_of lib os sv callers p = call_step lib os sv (fst (callers p)) (snd (callers p))"

definition calls_reach ::
  "crypto_lib \<Rightarrow> 'w os \<Rightarrow> 'w workload_service \<Rightarrow> callers \<Rightarrow> ('w \<Rightarrow> 'w \<Rightarrow> bool) \<Rightarrow> 'w \<Rightarrow> (nat \<Rightarrow> 'w call) \<Rightarrow> 'w \<Rightarrow> bool" where
  "calls_reach lib os sv callers env w calls w' \<longleftrightarrow>
     (interleave (turn_of lib os sv callers) env)\<^sup>*\<^sup>* (\<lambda>_. Arrived, w) (calls, w')"

interpretation calls: shared_invariant "turn_of lib os sv callers" env Arrived
  "\<lambda>p. call_inv lib os sv (fst (callers p)) (snd (callers p))" "\<lambda>_. True" for lib os sv callers env
  by unfold_locales (auto simp: turn_of_def intro: call_inv_step)

lemma calls_reach_refl: "calls_reach lib os sv callers env w (\<lambda>_. Arrived) w"
  by (simp add: calls_reach_def)

lemma calls_reach_turns:
  assumes "calls_reach lib os sv callers env w calls w1" "(turn_of lib os sv callers p ^^ n) (calls p, w1) = (c, w2)"
  shows "calls_reach lib os sv callers env w (calls(p := c)) w2"
  using assms(2)
proof (induction n arbitrary: c w2)
  case 0
  then have "calls(p := c) = calls" "w2 = w1" by auto
  with assms(1) show ?case by (simp only:)
next
  case (Suc n)
  obtain c1 w' where n: "(turn_of lib os sv callers p ^^ n) (calls p, w1) = (c1, w')" by fastforce
  with Suc.prems have "turn_of lib os sv callers p ((calls(p := c1)) p, w') = (c, w2)" by simp
  from interleave.turn [of "turn_of lib os sv callers" p "calls(p := c1)" w' c w2 env, OF this]
  have "interleave (turn_of lib os sv callers) env (calls(p := c1), w') (calls(p := c), w2)" by simp
  with Suc.IH [OF n] show ?case unfolding calls_reach_def by (rule rtranclp.rtrancl_into_rtrancl)
qed

text \<open>
  A condition on the machine that discovery, the clock, the random numbers and the proofs of some
  candidates keep.
\<close>

definition kept_by_calls ::
  "('w \<Rightarrow> bool) \<Rightarrow> 'w os \<Rightarrow> 'w workload_service \<Rightarrow> (candidate \<Rightarrow> bool) \<Rightarrow> bool" where
  "kept_by_calls good os sv allowed \<longleftrightarrow>
     (\<forall>w. good w \<longrightarrow> good (snd (os_now os w)) \<and> good (snd (os_random32 os w))
        \<and> (\<forall>a\<in>set (sv_attestors sv). good (snd (at_enumerate a w))
             \<and> (\<forall>c ch. allowed c \<longrightarrow> good (snd (at_prove a c ch w)))))"

text \<open>What the callers consent to: silent proofs, and proofs of what one of them names.\<close>

definition consented :: "callers \<Rightarrow> candidate \<Rightarrow> bool" where
  "consented callers c \<longleftrightarrow> cand_proof_cost c = Silent
     \<or> (\<exists>p want. parse_selector (rq_spiffe_id (snd (callers p))) = Inr (Some want) \<and> cand_path c = sid_path want)"

lemma kept_by_callsD:
  assumes "kept_by_calls good os sv allowed" "good w"
  shows "os_now os w = (now, w') \<Longrightarrow> good w'" "os_random32 os w = (r, w') \<Longrightarrow> good w'"
    "a \<in> set (sv_attestors sv) \<Longrightarrow> at_enumerate a w = (e, w') \<Longrightarrow> good w'"
    "a \<in> set (sv_attestors sv) \<Longrightarrow> allowed c \<Longrightarrow> at_prove a c ch w = (ev, w') \<Longrightarrow> good w'"
  using assms unfolding kept_by_calls_def by (metis snd_conv)+

lemma issue_keeps:
  assumes "\<And>w now w'. good w \<Longrightarrow> os_now os w = (now, w') \<Longrightarrow> good w'" "good w"
    and "issue lib os signer cl consumer auds required bound now w = (r, w')"
  shows "good w'"
proof -
  obtain clock w1 where n: "os_now os w = (clock, w1)" by fastforce
  with assms(1,2) have "good w1" by blast
  with assms(2,3) n show ?thesis
    by (auto simp: issue_def Let_def split: if_splits option.splits sum.splits)
qed

lemma issue_all_keeps:
  assumes "\<And>cl w r w'. good w \<Longrightarrow> iss cl w = (r, w') \<Longrightarrow> good w'" "good w" "issue_all iss cls acc refusal w = (r, w')"
  shows "good w'"
  using assms(2,3)
proof (induction cls arbitrary: acc refusal w)
  case (Cons cl cls)
  obtain x w1 where i: "iss cl w = (x, w1)" by fastforce
  with assms(1) Cons.prems(1) have "good w1" by blast
  with Cons i show ?case by (auto split: option.splits sum.splits)
qed simp

lemma answer_keeps:
  assumes "kept_by_calls good os sv allowed" "good w" "answer lib os sv consumer exts claims w = (c, w')"
  shows "good w'"
proof -
  obtain now w1 where n: "os_now os w = (now, w1)" by fastforce
  let ?iss = "\<lambda>cl. issue lib os (sv_signer sv) cl consumer (map audience exts) (strictest_presence exts) (tightest_age exts) now"
  obtain r w2 where i: "issue_all ?iss claims [] None w1 = (r, w2)" by fastforce
  have "good w1" using kept_by_callsD(1) [OF assms(1,2) n] .
  from issue_all_keeps [of good ?iss, OF _ this i] issue_keeps [of good os] kept_by_callsD(1) [OF assms(1)]
  have "good w2" by blast
  with assms(3) n i show ?thesis by (auto simp: answer_def)
qed

lemma call_step_keeps:
  assumes kept: "kept_by_calls good os sv (consented callers)" and "good w"
    and inv: "call_inv lib os sv (fst (callers p)) (snd (callers p)) c"
    and step: "turn_of lib os sv callers p (c, w) = (c', w')"
  shows "good w'"
proof (cases c)
  case Arrived
  obtain r w1 where "os_random32 os w = (r, w1)" by fastforce
  moreover from this have "good w1" by (rule kept_by_callsD(2) [OF kept assms(2)])
  ultimately show ?thesis using Arrived step assms(2)
    by (auto simp: turn_of_def new_challenge_def split: sum.splits option.splits)
next
  case (Discovering ch consumer exts requested as found)
  with step inv assms(2) show ?thesis
    by (cases as) (auto simp: turn_of_def split: prod.splits dest: kept_by_callsD(3) [OF kept assms(2)])
next
  case (Proving ch consumer exts cs proven)
  show ?thesis
  proof (cases cs)
    case Nil
    with Proving step show ?thesis by (auto simp: turn_of_def dest: answer_keeps [OF kept assms(2)])
  next
    case (Cons q rest)
    obtain a cd where q: "q = (a, cd)" by fastforce
    with Proving Cons inv have a: "a \<in> set (sv_attestors sv)" by simp
    have "good w1" if "cand_proof_cost cd = Silent" "at_prove a cd ch w = (r, w1)" for r w1
      using kept_by_callsD(4) [OF kept assms(2) a _ that(2)] that(1) by (simp add: consented_def)
    with Proving Cons q step assms(2) show ?thesis by (auto simp: turn_of_def split: if_splits prod.splits)
  qed
next
  case (ProvingNamed ch consumer exts want a cd)
  with inv have a: "a \<in> set (sv_attestors sv)" "cand_path cd = sid_path want"
    "check_request (fst (callers p)) (snd (callers p)) = Inr (consumer, exts, Some want)" by simp_all
  with check_request_Inr [OF a(3)] have "consented callers cd" by (auto simp: consented_def)
  then have "good w1" if "at_prove a cd ch w = (r, w1)" for r w1
    using kept_by_callsD(4) [OF kept assms(2) a(1) _ that] by blast
  with ProvingNamed step show ?thesis
    by (auto simp: turn_of_def split: prod.splits sum.splits option.splits if_splits dest: answer_keeps [OF kept])
qed (use step assms(2) in \<open>simp add: turn_of_def\<close>)

lemma consent_invariant:
  assumes "kept_by_calls good os sv (consented callers)"
  shows "shared_invariant (turn_of lib os sv callers) (\<lambda>w w'. good w \<longrightarrow> good w') Arrived
    (\<lambda>p. call_inv lib os sv (fst (callers p)) (snd (callers p))) good"
proof
  fix p c w c' w'
  assume "call_inv lib os sv (fst (callers p)) (snd (callers p)) c" "good w" "turn_of lib os sv callers p (c, w) = (c', w')"
  then show "call_inv lib os sv (fst (callers p)) (snd (callers p)) c' \<and> good w'"
    using call_step_keeps [OF assms, of w lib p c c' w'] call_inv_step [of lib os sv _ _ c w c' w'] by (simp add: turn_of_def)
qed simp_all

section \<open>Properties\<close>

text \<open>
  C3: interleaved calls do not mix. Whatever other calls run between the turns of a call, and
  whatever happens to the machine, every SVID of its reply was issued to its own caller, for a
  claim that every audience of its own request is satisfied with, derived from evidence that one
  proof returned for one challenge drawn at random; a silent proof when the request named no
  identity, and of exactly the named identity when it did.
\<close>

theorem interleaved_calls_do_not_mix:
  assumes "calls_reach lib os sv callers env w calls w'" and "calls p = Replied (Some (Inr svids))"
  shows "\<exists>ch consumer exts requested. drawn os ch
    \<and> check_request (fst (callers p)) (snd (callers p)) = Inr (consumer, exts, requested)
    \<and> list_all (served lib sv ch consumer exts requested) svids"
  using calls.interleaved(1) [OF assms(1) [unfolded calls_reach_def], of p] assms(2) by simp

text \<open>
  C4: consent holds for all calls together. Take any condition on the machine that discovery, the
  clock, random numbers, silent proofs and proofs of identities some caller named all keep, such
  as that no prompt is on the screen. In no interleaving of any number of calls is it ever
  broken, unless the rest of the machine breaks it.
\<close>

theorem interleaved_calls_keep_consent:
  assumes "kept_by_calls good os sv (consented callers)"
    and "calls_reach lib os sv callers (\<lambda>w w'. good w \<longrightarrow> good w') w calls w'" and "good w"
  shows "good w'"
  by (rule shared_invariant.interleaved(2) [OF consent_invariant [OF assms(1)]
      assms(2) [unfolded calls_reach_def] assms(3)])



end
