(* ===== verification/Service_Samples.thy ===== *)
theory Service_Samples
  imports Service_Bundles Service_Steps
begin

text \<open>
  A small service, with one attestor that signs every challenge, and the properties of the
  handlers applied to it.
\<close>

definition sample_prover :: "unit attestor" where
  "sample_prover = \<lparr>at_name = ''demo'', at_enumerate = (\<lambda>w. (Inr [sample_candidate], w)),
     at_prove = (\<lambda>c challenge w. (Inr [Possession \<lparr>cs_assertion = \<lparr>sa_bytes = [], sa_format = ''f''\<rparr>,
        cs_challenge = challenge, cs_observed_at = 900000000000\<rparr>], w)),
     at_freshness = default_freshness\<rparr>"

text \<open>The same attestor, except that it does something else with a candidate that may prompt.\<close>

definition sample_prover' :: "unit attestor" where
  "sample_prover' = sample_prover\<lparr>at_prove := (\<lambda>c challenge w.
     if cand_proof_cost c = Silent \<and> cand_path c = ''ssh/k'' then at_prove sample_prover c challenge w
     else (Inl (Unavailable ''a prompt''), w))\<rparr>"

definition sample_os :: "unit os" where
  "sample_os = \<lparr>os_now = (\<lambda>w. (1000000000000, w)), os_random32 = (\<lambda>w. (Some [2], w))\<rparr>"

definition sample_root :: spiffe_id where
  "sample_root = new_spiffe_id SshLocal ''ssh/k''"

definition sample_proven :: claim where
  "sample_proven = \<lparr>cl_source = ''demo'', cl_assurance = Iaa1, cl_presence = NoPresence,
     cl_spiffe_id = sample_root, cl_display_name = ''k'', cl_attested_at = 900000000000\<rparr>"

definition sample_pseudonym :: spiffe_id where
  "sample_pseudonym = new_spiffe_id SshLocal (''pseudonym/'' @ hex_bytes (replicate 32 2))"

definition sample_payload :: json where
  "sample_payload = jwt_claims_value (svid_claims 1000 (uri sample_pseudonym) [''svc'']
     (hire_claims_value (issue_extension sample_proven NoPresence)))"

definition sample_crypto :: crypto_lib where
  "sample_crypto = (sample_lib sample_header sample_payload sample_jwk)
     \<lparr>jwt_encode := (\<lambda>h p k. if h = sample_header \<and> p = sample_payload then Inr ''token'' else Inl ''refused'')\<rparr>"

definition sample_service :: "unit workload_service" where
  "sample_service = \<lparr>sv_signer = sample_signer,
     sv_bundles = upsert new_store (local_bundle sample_crypto SshLocal sample_signer),
     sv_attestors = [sample_prover]\<rparr>"

definition sample_service' :: "unit workload_service" where
  "sample_service' = sample_service\<lparr>sv_attestors := [sample_prover']\<rparr>"

definition sample_request :: jwtsvid_request where
  "sample_request = \<lparr>rq_audience = [''svc?hire_max_age=300''], rq_spiffe_id = []\<rparr>"

definition sample_named_request :: jwtsvid_request where
  "sample_named_request = \<lparr>rq_audience = [''svc''], rq_spiffe_id = uri sample_root\<rparr>"

definition sample_svid :: jwtsvid where
  "sample_svid = \<lparr>sv_spiffe_id = uri sample_pseudonym, sv_svid = ''token'',
     sv_hint = display_hint (issue_hint sample_proven NoPresence (Some 100000000000))\<rparr>"

lemma sample_lib_simps [simp]:
  "hkdf_sha256 sample_crypto s i f = replicate 32 2" "sha256 sample_crypto bs = replicate 32 1"
  "b64url_encode sample_crypto bs = str_of_bytes bs"
  "b64url_decode sample_crypto str = Some (as_bytes str)"
  "jwt_encode sample_crypto h p k
     = (if h = sample_header \<and> p = sample_payload then Inr ''token'' else Inl ''refused'')"
  by (simp_all add: sample_crypto_def sample_lib_def)

lemma sample_kid [simp]: "kid sample_crypto sample_signer = str_of_bytes (replicate 32 1)"
  by (simp add: kid_def public_xy_def jwk_thumbprint_def)

lemma sample_pseudonymous_id [simp]:
  "sid_trust_domain root = SshLocal \<Longrightarrow> pseudonymous_id sample_crypto s root c = sample_pseudonym"
  by (simp add: pseudonymous_id_def derive_pseudonymous_id_input sample_pseudonym_def split: prod.splits)

lemma sample_derive:
  "derive sample_candidate [2] [Possession \<lparr>cs_assertion = \<lparr>sa_bytes = [], sa_format = ''f''\<rparr>,
      cs_challenge = [2], cs_observed_at = 900000000000\<rparr>] = Some sample_proven"
  by (simp add: derive_def sample_candidate_def new_candidate_def with_proof_cost_def
      sample_proven_def sample_root_def)

lemma sample_audiences:
  "parse_audience ''svc?hire_max_age=300'' = Inr \<lparr>audience = ''svc'', require_presence = NoPresence, max_age = Some 300000000000\<rparr>"
  "parse_audience ''svc'' = Inr \<lparr>audience = ''svc'', require_presence = NoPresence, max_age = None\<rparr>"
proof -
  have "parse_u64 ''300'' = Some 300" "from_secs 300 = 300000000000"
    by (simp_all add: parse_u64_def parse_uint_def to_digit_def from_secs_def nanos_per_sec_def)
  then show "parse_audience ''svc?hire_max_age=300'' = Inr \<lparr>audience = ''svc'', require_presence = NoPresence, max_age = Some 300000000000\<rparr>"
    by (simp add: parse_audience_def split_query_def query_params_def parse_param_def
        strip_prefix_def join_audience_def)
  show "parse_audience ''svc'' = Inr \<lparr>audience = ''svc'', require_presence = NoPresence, max_age = None\<rparr>"
    by (simp add: parse_audience_def split_query_def query_params_def join_audience_def)
qed

lemma sample_issue:
  assumes "bound = None \<or> bound = Some 300000000000"
  shows "issue sample_crypto sample_os sample_signer sample_proven consumer [''svc''] NoPresence bound 1000000000000 w
    = (Some (Inr sample_svid), w)"
proof -
  have age: "age_at sample_proven 1000000000000 = Some 100000000000"
    by (simp add: age_at_def duration_since_def sample_proven_def)
  have p: "decayed_presence sample_proven (Some 100000000000) = NoPresence"
    by (simp add: decayed_presence_def sample_proven_def)
  have "as_secs 1000000000000 = 1000" by (simp add: as_secs_def nanos_per_sec_def)
  then have sign: "sign_jwt_svid sample_crypto sample_signer 1000000000000 (uri sample_pseudonym) [''svc'']
      (hire_claims_value (issue_extension sample_proven NoPresence)) = Some (Inr ''token'')"
    by (simp add: sign_jwt_svid_def duration_since_def unix_epoch_def sample_payload_def sample_header_def)
  have root: "sid_trust_domain (cl_spiffe_id sample_proven) = SshLocal"
    by (simp add: sample_proven_def sample_root_def)
  show ?thesis
    using assms unfolding issue_def Let_def age p sample_pseudonymous_id [OF root]
    by (auto simp: within_max_age_def sample_os_def sign sample_svid_def)
qed

lemma sample_prove: "prove_requested sample_service [2] None () = (Inr [sample_proven], ())"
  using sample_derive
  by (simp add: prove_requested_def sample_service_def sample_prover_def unnamed_claims_def best_first_def
      sample_candidate_def with_proof_cost_def)

definition sample_extensions :: audience_extensions where
  "sample_extensions = \<lparr>audience = ''svc'', require_presence = NoPresence, max_age = Some 300000000000\<rparr>"

lemma sample_check: "check_request (Some c) sample_request = Inr (c, [sample_extensions], None)"
  by (simp add: check_request_def sample_request_def sample_audiences parse_selector_def sample_extensions_def)

lemma sample_os_simps [simp]:
  "os_now sample_os w = (1000000000000, w)" "os_random32 sample_os w = (Some [2], w)"
  by (simp_all add: sample_os_def)

lemma sample_fetch:
  "fetch_jwtsvid sample_crypto sample_os sample_service (Some c) sample_request () = (Some (Inr [sample_svid]), ())"
  by (simp add: fetch_jwtsvid_def sample_check sample_prove strictest_presence_def tightest_age_def
      map_filter_simps sample_extensions_def sample_issue
      sample_service_def [THEN arg_cong, of sv_signer] finish_svids_def max_def)

section \<open>Applications\<close>

theorem every_svid_meets_every_audience_witness:
  "\<exists>cl now. sv_hint sample_svid = display_hint (issue_hint cl (decayed_presence cl (age_at cl now)) (age_at cl now))
     \<and> (\<exists>d. age_at cl now = Some d \<and> d < 300000000000)"
  using every_svid_meets_every_audience [OF sample_fetch [of "SnapName ''x''"], of sample_svid
      "''svc?hire_max_age=300''" "\<lparr>audience = ''svc'', require_presence = NoPresence, max_age = Some 300000000000\<rparr>"]
  by (auto simp: sample_request_def sample_audiences Let_def)

definition eager_crypto :: crypto_lib where
  "eager_crypto = sample_crypto\<lparr>jwt_encode := (\<lambda>h p k. Inr ''token'')\<rparr>"


theorem failing_source_is_ignored_witness:
  "fetch_jwtsvid sample_crypto sample_os
       (sample_service\<lparr>sv_attestors := [sample_prover\<lparr>at_enumerate := (\<lambda>w. (Inl (Unavailable ''no agent''), w))\<rparr>, sample_prover]\<rparr>)
       (Some (SnapName ''x'')) sample_request ()
     = (Some (Inr [sample_svid]), ())"
proof -
  let ?broken = "sample_prover\<lparr>at_enumerate := (\<lambda>w. (Inl (Unavailable ''no agent''), w))\<rparr>"
  let ?sv = "sample_service\<lparr>sv_attestors := [?broken, sample_prover]\<rparr>"
  have "?sv\<lparr>sv_attestors := [] @ [sample_prover]\<rparr> = sample_service" by (simp add: sample_service_def)
  with failing_source_is_ignored [of ?broken ?sv "[]" "[sample_prover]" sample_crypto sample_os
      "Some (SnapName ''x'')" sample_request "()"] sample_fetch
  show ?thesis by simp
qed

theorem interleaved_calls_do_not_mix_witness:
  "\<exists>ch consumer exts requested. drawn sample_os ch
     \<and> check_request (Some (SnapName ''x'')) sample_request = Inr (consumer, exts, requested)
     \<and> served sample_crypto sample_service ch consumer exts requested sample_svid"
proof -
  let ?callers = "\<lambda>_. (Some (SnapName ''x''), sample_request)"
  obtain n where "(turn_of sample_crypto sample_os sample_service ?callers 1 ^^ n) (Arrived, ()) = (Replied (Some (Inr [sample_svid])), ())"
    using call_alone [of sample_crypto sample_os sample_service "Some (SnapName ''x'')" sample_request "()"]
    by (auto simp: turn_of_def sample_fetch)
  from calls_reach_turns [OF calls_reach_refl this]
  have "calls_reach sample_crypto sample_os sample_service ?callers (\<lambda>_ _. True) ()
      ((\<lambda>_. Arrived)(1 := Replied (Some (Inr [sample_svid])))) ()" .
  from interleaved_calls_do_not_mix [OF this, of 1 "[sample_svid]"] show ?thesis by simp
qed

text \<open>A machine that counts its prompts, and a source of one silent and one interactive identity.\<close>

definition prompting_service :: "nat workload_service" where
  "prompting_service = \<lparr>sv_signer = sample_signer, sv_bundles = new_store,
     sv_attestors = [\<lparr>at_name = ''demo'',
       at_enumerate = (\<lambda>w. (Inr [sample_candidate, with_proof_cost Interactive sample_candidate], w)),
       at_prove = (\<lambda>c challenge w. (Inl (Unavailable ''no''), if cand_proof_cost c = Silent then w else Suc w)),
       at_freshness = default_freshness\<rparr>]\<rparr>"

definition prompting_os :: "nat os" where
  "prompting_os = \<lparr>os_now = (\<lambda>w. (1000000000000, w)), os_random32 = (\<lambda>w. (Some [2], w))\<rparr>"

theorem interleaved_calls_keep_consent_witness:
  "snd (fetch_jwtsvid sample_crypto prompting_os prompting_service (Some (SnapName ''x'')) sample_request 0) = 0"
proof -
  let ?callers = "\<lambda>_. (Some (SnapName ''x''), sample_request)"
  obtain r w' where f: "fetch_jwtsvid sample_crypto prompting_os prompting_service (Some (SnapName ''x'')) sample_request 0 = (r, w')"
    by fastforce
  then obtain n where "(turn_of sample_crypto prompting_os prompting_service ?callers 1 ^^ n) (Arrived, 0) = (Replied r, w')"
    using call_alone [of sample_crypto prompting_os prompting_service "Some (SnapName ''x'')" sample_request 0]
    by (auto simp: turn_of_def)
  from calls_reach_turns [OF calls_reach_refl this]
  have reach: "calls_reach sample_crypto prompting_os prompting_service ?callers (\<lambda>w w'. w = 0 \<longrightarrow> w' = 0) 0
      ((\<lambda>_. Arrived)(1 := Replied r)) w'" .
  have "kept_by_calls (\<lambda>w. w = 0) prompting_os prompting_service (consented ?callers)"
    by (simp add: kept_by_calls_def prompting_os_def prompting_service_def consented_def sample_request_def parse_selector_def)
  from interleaved_calls_keep_consent [OF this reach] f show ?thesis by simp
qed

theorem svid_subject_is_pseudonym_witness:
  "\<exists>(root :: spiffe_id) h. sv_spiffe_id sample_svid
     = ''spiffe://'' @ display_trust_domain (sid_trust_domain root) @ ''/pseudonym/'' @ h \<and> list_all is_hex_char h"
proof -
  from svid_subject_is_pseudonym [OF sample_fetch [of "SnapName ''x''"], of sample_svid]
  show ?thesis by (simp del: append_Cons) blast
qed

theorem refused_before_any_effect_witness:
  "\<exists>msg. fetch_jwtsvid sample_crypto sample_os sample_service (Some (SnapName ''x''))
     \<lparr>rq_audience = [], rq_spiffe_id = []\<rparr> () = (Some (Inl (InvalidArgument, msg)), ())"
  using refused_before_any_effect [of sample_crypto sample_os sample_service
      "\<lparr>rq_audience = [], rq_spiffe_id = []\<rparr>" "()" "SnapName ''x''"] by simp

theorem unnamed_request_proves_only_silent_witness:
  "fetch_jwtsvid sample_crypto sample_os sample_service (Some (SnapName ''x'')) sample_request ()
     = fetch_jwtsvid sample_crypto sample_os
         (sample_service\<lparr>sv_attestors := [sample_prover\<lparr>at_prove := (\<lambda>c challenge w.
            if cand_proof_cost c = Silent then at_prove sample_prover c challenge w
            else (Inl (Unavailable ''a prompt''), w))\<rparr>]\<rparr>)
         (Some (SnapName ''x'')) sample_request ()"
  by (rule unnamed_request_proves_only_silent)
    (simp_all add: sample_service_def sample_request_def agree_on_def)

theorem named_request_proves_one_identity_witness:
  "fetch_jwtsvid sample_crypto sample_os sample_service (Some (SnapName ''x'')) sample_named_request ()
     = fetch_jwtsvid sample_crypto sample_os
         (sample_service\<lparr>sv_attestors := [sample_prover\<lparr>at_prove := (\<lambda>c challenge w.
            if cand_path c = ''ssh/k'' then at_prove sample_prover c challenge w
            else (Inl (Unavailable ''a prompt''), w))\<rparr>]\<rparr>)
         (Some (SnapName ''x'')) sample_named_request ()"
proof (rule named_request_proves_one_identity [THEN conjunct1])
  show "spiffe_id_from_str (rq_spiffe_id sample_named_request) = Inr sample_root"
    by (simp add: sample_named_request_def spiffe_id_text.from_str_iff wf_spiffe_id_def sample_root_def)
qed (simp_all add: sample_service_def sample_root_def agree_on_def)

theorem claims_best_first_one_per_identity_witness:
  "cl_assurance sample_proven \<le> cl_assurance sample_claim
   \<and> find (\<lambda>c. cl_assurance c = cl_assurance sample_proven
        \<and> uri (cl_spiffe_id c) = uri (cl_spiffe_id sample_proven)) [sample_proven, sample_claim] = Some sample_proven"
proof -
  have "best_first [sample_proven, sample_claim] = [sample_claim, sample_proven]"
    by (simp add: best_first_def reverse_assurance_def sample_proven_def sample_claim_def sample_root_def uri_def)
  with claims_best_first_one_per_identity [of "[sample_proven, sample_claim]"] show ?thesis by auto
qed

lemma sample_decode [simp]:
  "jwt_insecure_decode sample_crypto t = Inr (sample_header, sample_payload)"
  "jwt_decode sample_crypto t k v n = Inr (sample_header, sample_payload)"
  "hdr_kid sample_header = Some (str_of_bytes (replicate 32 1))"
  by (simp_all add: sample_crypto_def sample_lib_def sample_header_def)

lemma sample_pseudonym_simps [simp]:
  "sid_trust_domain sample_pseudonym = SshLocal" "wf_spiffe_id sample_pseudonym"
  by (simp_all add: wf_spiffe_id_def sample_pseudonym_def)

lemma sample_payload_id [simp]: "payload_spiffe_id sample_payload = Inr sample_pseudonym"
  by (simp add: payload_spiffe_id_def sample_payload_def spiffe_id_text.from_str_iff)

lemma sample_bundle_get [simp]:
  "get_bundle (sv_bundles sample_service) SshLocal = Some (local_bundle sample_crypto SshLocal sample_signer)"
  by (simp add: sample_service_def bundles.get_put local_bundle_def)

lemma sample_laws: "token_law sample_crypto sample_signer" "jwks_law sample_crypto sample_signer" "wf_signer sample_signer"
  by (auto simp: token_law_def jwks_law_def wf_signer_def sample_crypto_def sample_lib_def sample_jwk_def
      sample_signer_def kid_def public_xy_def jwk_thumbprint_def)

lemma sample_validates:
  "validate_jwtsvid sample_crypto (sv_bundles sample_service) 1200 \<lparr>vr_audience = ''svc'', vr_svid = ''token''\<rparr>
     = Inr (sample_pseudonym, sample_payload)"
proof -
  have "jwt_decoding_key sample_crypto (local_bundle sample_crypto SshLocal sample_signer)
      (str_of_bytes (replicate 32 1)) = Some (replicate 65 4)"
    using local_decoding_key [OF sample_laws(2,3), of SshLocal]
    by (simp add: sample_signer_def [THEN arg_cong, of public_key_sec1])
  then show ?thesis by (simp add: validate_jwtsvid_def)
qed

theorem validated_under_key_of_named_domain_witness:
  "\<exists>b k key. get_bundle (sv_bundles sample_service) SshLocal = Some b \<and> jwt_decoding_key sample_crypto b k = Some key"
  using validated_under_key_of_named_domain [OF sample_validates] by auto

theorem published_bundles_validate_alike_witness:
  "validate_jwtsvid sample_crypto
     (import_bundles (\<lambda>_. Some (jwks sample_crypto sample_signer)) [(''spiffe://ssh.local'', [1])])
     1200 \<lparr>vr_audience = ''svc'', vr_svid = ''token''\<rparr> = Inr (sample_pseudonym, sample_payload)"
proof -
  let ?to_vec = "\<lambda>v. if v = jwks sample_crypto sample_signer then Some [1] else None"
  have st: "sv_bundles sample_service = [(''ssh.local'', local_bundle sample_crypto SshLocal sample_signer)]"
    by (simp add: sample_service_def upsert_def new_store_def local_bundle_def)
  have "fetch_jwt_bundles ?to_vec sample_service = Inr [(''spiffe://ssh.local'', [1])]"
    by (simp add: fetch_jwt_bundles_def st snapshot_def local_bundle_def bundle_key_def)
  moreover have "valid_store (sv_bundles sample_service)" by (simp add: st valid_store_def local_bundle_def)
  moreover have "\<forall>b\<in>set (snapshot (sv_bundles sample_service)). wf_trust_domain (tb_trust_domain b)"
    by (simp add: st snapshot_def local_bundle_def)
  ultimately have "validate_jwtsvid sample_crypto
      (import_bundles (\<lambda>_. Some (jwks sample_crypto sample_signer)) [(''spiffe://ssh.local'', [1])]) now req
      = validate_jwtsvid sample_crypto (sv_bundles sample_service) now req" for now req
    by (intro published_bundles_validate_alike) (auto split: if_splits)
  with sample_validates show ?thesis by simp
qed

theorem rejections_are_indistinguishable_witness:
  "validate_jwtsvid sample_crypto new_store 1200 \<lparr>vr_audience = ''svc'', vr_svid = ''token''\<rparr>
     = Inl (InvalidArgument, ''JWT validation failed'')"
proof -
  have rej: "validate_jwtsvid sample_crypto new_store 1200 \<lparr>vr_audience = ''svc'', vr_svid = ''token''\<rparr> = Inl reject"
    by (simp add: validate_jwtsvid_def bundles.get_empty)
  from rejections_are_indistinguishable [OF _ _ rej] rej show ?thesis by simp
qed

theorem issued_svid_validates_witness:
  "\<exists>payload. validate_jwtsvid sample_crypto (sv_bundles sample_service) 1200
     \<lparr>vr_audience = ''svc'', vr_svid = ''token''\<rparr> = Inr (sample_pseudonym, payload)"
proof -
  let ?e = "\<lparr>audience = ''svc'', require_presence = NoPresence, max_age = Some 300000000000\<rparr> :: audience_extensions"
  have "\<exists>w0 d. duration_since (fst (os_now sample_os w0)) unix_epoch = Some d
    \<and> (\<forall>now. unat now < unat (as_secs d) + 300 \<longrightarrow>
         (\<exists>payload. validate_jwtsvid sample_crypto (sv_bundles sample_service) now
            \<lparr>vr_audience = audience ?e, vr_svid = sv_svid sample_svid\<rparr> = Inr (sample_pseudonym, payload)))"
  proof (rule issued_svid_validates [OF sample_fetch [of "SnapName ''x''"]])
    show "parse_audience ''svc?hire_max_age=300'' = Inr ?e" by (rule sample_audiences)
    show "spiffe_id_from_str (sv_spiffe_id sample_svid) = Inr sample_pseudonym"
      by (simp add: sample_svid_def spiffe_id_text.from_str_iff)
  qed (use sample_laws in \<open>simp_all add: sample_request_def sample_os_def clock_ok_def
      sample_service_def [THEN arg_cong, of sv_signer]\<close>)
  then obtain d where d: "duration_since 1000000000000 unix_epoch = Some d"
    and v: "\<And>now. unat now < unat (as_secs d) + 300 \<Longrightarrow>
       \<exists>payload. validate_jwtsvid sample_crypto (sv_bundles sample_service) now
         \<lparr>vr_audience = ''svc'', vr_svid = ''token''\<rparr> = Inr (sample_pseudonym, payload)"
    by (auto simp: sample_os_def sample_svid_def)
  from d have "unat (as_secs d) = 1000"
    by (auto simp: duration_since_def unix_epoch_def as_secs_def nanos_per_sec_def)
  with v [of 1200] show ?thesis by simp
qed

end
