(* ===== verification/Daemon_Samples.thy ===== *)
theory Daemon_Samples
  imports Cli Nmh Attestor_Samples Service_Samples
begin

text \<open>
  The daemon as it is started on the sample machine, what it answers there, and the clients
  applied to it.
\<close>

section \<open>A started daemon\<close>

definition daemon_lib :: crypto_lib where
  "daemon_lib = sample_lib sample_header JNull sample_jwk"

definition daemon_os :: "world os" where
  "daemon_os = \<lparr>os_now = (\<lambda>w. (1000000000000, w)), os_random32 = (\<lambda>w. (Some [2], w))\<rparr>"

definition sample_daemon :: "world workload_service" where
  "sample_daemon = hired_service daemon_lib sample_attest_lib None sample_host sample_signer"

definition plain_request :: "string \<Rightarrow> jwtsvid_request" where
  "plain_request aud = \<lparr>rq_audience = [aud], rq_spiffe_id = []\<rparr>"

lemma sample_daemon_fetch:
  assumes "parse_audience aud = Inr ext" "require_presence ext = NoPresence" "max_age ext = None"
    and "w_moments w = w_moments sample_world"
  shows "\<exists>svids w'. fetch_jwtsvid daemon_lib daemon_os sample_daemon (Some consumer) (plain_request aud) w
    = (Some (Inr svids), w') \<and> svids \<noteq> []"
proof (rule shipped_fetch_succeeds)
  show "sv_attestors sample_daemon = probe_sources sample_attest_lib None sample_host"
    by (simp add: sample_daemon_def hired_service_def)
  show "h_uid (w_moments w n) = h_uid sample_host" for n using assms(4) by (simp add: sample_world_def)
  show "duration_since (fst (os_now daemon_os w)) unix_epoch \<noteq> None" for w
    by (simp add: daemon_os_def duration_since_def unix_epoch_def)
qed (use assms in \<open>simp_all add: daemon_os_def daemon_lib_def sample_lib_def plain_request_def\<close>)

lemma svc_audience:
  "parse_audience ''svc'' = Inr \<lparr>audience = ''svc'', require_presence = NoPresence, max_age = None\<rparr>"
  by (simp add: parse_audience_def split_query_def query_params_def join_audience_def)

lemma sample_daemon_svid:
  obtains svid svids w' where "fetch_jwtsvid daemon_lib daemon_os sample_daemon (Some consumer) (plain_request ''svc'') sample_world
    = (Some (Inr (svid # svids)), w')"
  using sample_daemon_fetch [OF svc_audience, of sample_world consumer] that by (auto simp: neq_Nil_conv)

section \<open>The clients on it\<close>

definition sample_client :: "world client" where
  "sample_client = \<lparr>ct_path = ''/run/hire.sock'', ct_exists = (\<lambda>_. True), ct_connect = (\<lambda>w. (True, w)),
     ct_fetch = daemon_fetch daemon_lib daemon_os sample_daemon (Some (SnapName ''x'')),
     ct_bundles = (\<lambda>w. (Inr [], w)), ct_now = (\<lambda>w. (0, w)), ct_b64url_decode = (\<lambda>_. None),
     ct_json = (\<lambda>_. Inl ''?''), ct_pretty = (\<lambda>_. Inl ''?'')\<rparr>"

lemma sample_prove_exit:
  "exit_code (fst (snd (prove_cmd sample_client [''--audience'', ''svc'', ''--challenge'', ''n''] sample_world))) = 0"
proof -
  have kept: "parse_audience (audience_with_challenge ''svc'' ''n'')
      = Inr \<lparr>audience = audience_with_challenge ''svc'' ''n'', require_presence = NoPresence, max_age = None\<rparr>"
    by (rule challenge_audience_kept) simp_all
  from sample_daemon_fetch [OF kept, of sample_world "SnapName ''x''"] obtain svid svids w' where
    "fetch_jwtsvid daemon_lib daemon_os sample_daemon (Some (SnapName ''x''))
       (plain_request (audience_with_challenge ''svc'' ''n'')) sample_world = (Some (Inr (svid # svids)), w')"
    by (auto simp: neq_Nil_conv)
  then show ?thesis
    by (simp add: prove_cmd_def call_daemon_def connect_to_daemon_def sample_client_def daemon_fetch_def
        plain_request_def token_answer_def print_token_def)
qed

theorem prove_binds_the_challenge_witness:
  "\<exists>token clock sid ext. fst (prove_cmd sample_client [''--audience'', ''svc'', ''--challenge'', ''n''] sample_world) = [Out token]
     \<and> sign_jwt_svid daemon_lib (sv_signer sample_daemon) clock sid [''svc?challenge=n''] ext = Some (Inr token)"
  using prove_binds_the_challenge [of sample_client daemon_lib daemon_os sample_daemon "Some (SnapName ''x'')"
      "[''--audience'', ''svc'', ''--challenge'', ''n'']" "''svc''" "''n''" sample_world] sample_prove_exit
  by (simp add: sample_client_def [THEN arg_cong, of ct_fetch])

section \<open>A token and its validation\<close>

text \<open>
  The same daemon with a token library that encodes the one payload it is asked for here, so that
  the laws of the library hold.
\<close>

definition local_claim :: claim where
  "local_claim = \<lparr>cl_source = ''unix'', cl_assurance = Iaa1, cl_presence = NoPresence,
     cl_spiffe_id = new_spiffe_id SshLocal (unix_spiffe_path 1000),
     cl_display_name = ua_display_name (new_unix_attestor sample_host), cl_attested_at = 5\<rparr>"

definition local_payload :: json where
  "local_payload = jwt_claims_value (svid_claims 1000 (uri sample_pseudonym) [''svc'']
     (hire_claims_value (issue_extension local_claim NoPresence)))"

definition local_lib :: crypto_lib where
  "local_lib = (sample_lib sample_header local_payload sample_jwk)
     \<lparr>jwt_encode := (\<lambda>h p k. if h = sample_header \<and> p = local_payload then Inr ''token'' else Inl ''refused'')\<rparr>"

definition local_daemon :: "world workload_service" where
  "local_daemon = hired_service local_lib sample_attest_lib None sample_host sample_signer"

lemma local_laws: "token_law local_lib sample_signer" "jwks_law local_lib sample_signer" "wf_signer sample_signer"
  by (auto simp: token_law_def jwks_law_def wf_signer_def local_lib_def sample_lib_def sample_jwk_def
      sample_signer_def kid_def public_xy_def jwk_thumbprint_def)

lemma local_sources:
  "sv_attestors local_daemon = [oidc_attestor sample_attest_lib, unix_source (new_unix_attestor sample_host)]"
  by (simp add: local_daemon_def hired_service_def probe_sources_def tailscale_is_available_def ssh_is_available_def
      did_is_available_def gpg_is_available_def fido2_is_available_def goa_is_available_def piv_is_available_def
      sample_host_def tailscale_socket_def gnupg_home_def parse_did_keys_def path_join_def)

lemma local_proven:
  "\<exists>w'. prove_requested local_daemon challenge None sample_world = (Inr [local_claim], w')"
  by (simp add: prove_requested_def local_sources oidc_attestor_def unix_source_def at_call_def oidc_enumerate_def
      scan_token_caches_def unix_enumerate_def unix_prove_def with_proof_cost_def with_attainable_def new_candidate_def
      new_unix_attestor_def current_def sample_world_def sample_host_def unnamed_claims_def derive_def
      observe_platform_def best_first_def local_claim_def)

lemma local_token: "jwt_encode local_lib sample_header local_payload k = Inr ''token''"
  by (simp add: local_lib_def)

lemma local_fetch:
  "\<exists>svid w'. fetch_jwtsvid local_lib daemon_os local_daemon (Some consumer) (plain_request ''svc'') sample_world
     = (Some (Inr [svid]), w') \<and> sv_spiffe_id svid = uri sample_pseudonym \<and> sv_svid svid = ''token''"
proof -
  have id: "pseudonymous_id local_lib sample_signer (cl_spiffe_id local_claim) consumer = sample_pseudonym"
    by (simp add: pseudonymous_id_def derive_pseudonymous_id_input sample_pseudonym_def local_claim_def local_lib_def
        sample_lib_def split: prod.splits)
  have kid: "kid local_lib sample_signer = str_of_bytes (replicate 32 1)"
    by (simp add: kid_def public_xy_def jwk_thumbprint_def local_lib_def sample_lib_def)
  have "as_secs 1000000000000 = 1000" by (simp add: as_secs_def nanos_per_sec_def)
  then have sign: "sign_jwt_svid local_lib sample_signer 1000000000000 (uri sample_pseudonym) [''svc'']
      (hire_claims_value (issue_extension local_claim NoPresence)) = Some (Inr ''token'')"
    using local_token
    by (simp add: sign_jwt_svid_def duration_since_def unix_epoch_def local_payload_def sample_header_def kid)
  have none: "decayed_presence local_claim age = NoPresence" for age
    by (simp add: decayed_presence_def local_claim_def split: option.splits)
  have signer: "sv_signer local_daemon = sample_signer" by (simp add: local_daemon_def hired_service_def)
  from local_proven [of "[2]"] obtain w2 where
    "prove_requested local_daemon [2] None sample_world = (Inr [local_claim], w2)" by blast
  then show ?thesis
    by (simp add: fetch_jwtsvid_def check_request_def plain_request_def svc_audience parse_selector_def daemon_os_def
        strictest_presence_def tightest_age_def map_filter_simps finish_svids_def issue_def Let_def within_max_age_def
        none id sign signer max_def)
qed

end
