(* ===== verification/Hired_Samples.thy ===== *)
theory Hired_Samples
  imports Hired Daemon_Samples
begin

text \<open>
  One run of the daemon on the sample machine: a program connects, asks for an SVID, and a
  signal ends the run.
\<close>

definition sample_kernel :: kernel where
  "sample_kernel = \<lparr>kn_uid = 1000, kn_read_link = (\<lambda>_. Some ''/bin/x''), kn_pidpath = (\<lambda>_. (0, [])),
     kn_open = (\<lambda>_. Some [Inr [7], Inr []])\<rparr>"

definition sample_events :: "event list" where
  "sample_events = [Accepted 1 sample_kernel (Inr \<lparr>cred_uid = 1000, cred_pid = Some 7\<rparr>),
     Called 1 (FetchJWTSVID (plain_request ''svc'')), Signalled]"

definition sample_wire :: wire_lib where
  "sample_wire = \<lparr>wl_to_vec = (\<lambda>_. None), wl_as_f64 = (\<lambda>_. None), wl_number = (\<lambda>_. [])\<rparr>"

definition sample_main :: "(main_error + unit) option \<times> (nat \<times> rpc_reply option) list \<times> machine \<times> world" where
  "sample_main = hired_main daemon_lib sample_wire sample_attest_lib daemon_os None sample_host [9]
     (Inr (replicate 32 5)) Linux (Some ''/r'') (0, []) (Inr ()) (sample_env 5) False sample_events
     (ft_machine sample_fleet) sample_world"

definition sample_socket :: string where
  "sample_socket = ''/r/hire/workload.sock''"

lemma sample_socket_path: "workload_socket_path Linux (Some ''/r'') (0, []) (pe_uid (sample_env 5)) = sample_socket"
  by code_simp

lemma sample_new_signer: "new_signer daemon_lib [9] (Inr (replicate 32 5)) = Inr sample_signer"
  by (simp add: new_signer_def from_signing_key_def daemon_lib_def sample_lib_def sample_signer_def)

lemma sample_bound:
  obtains m1 where "bind_listener (sample_env 5) (ft_machine sample_fleet) sample_socket = (Inr 0, m1)"
proof -
  have "fst (bind_listener (sample_env 5) (ft_machine sample_fleet) sample_socket) = Inr 0" by code_simp
  with that show thesis by (metis prod.collapse)
qed

lemma sample_peer:
  "accept_peer (sha256 daemon_lib) Linux sample_kernel (Inr \<lparr>cred_uid = 1000, cred_pid = Some 7\<rparr>)
     = Some (BinarySha256 (replicate 32 1))"
  by (simp add: accept_peer_def attest_peer_def sample_kernel_def hash_file_def daemon_lib_def sample_lib_def)

lemma sample_main_run:
  obtains svid svids m' w' where
    "sample_main = (Some (Inr ()), [(1, Some (SvidReply (Inr (svid # svids))))], m', w')"
proof -
  obtain svid svids w1 where f: "fetch_jwtsvid daemon_lib daemon_os sample_daemon (Some (BinarySha256 (replicate 32 1)))
      (plain_request ''svc'') sample_world = (Some (Inr (svid # svids)), w1)" by (rule sample_daemon_svid)
  obtain m1 where b: "bind_listener (sample_env 5) (ft_machine sample_fleet) sample_socket = (Inr 0, m1)"
    by (rule sample_bound)
  have "serve_events daemon_lib sample_wire daemon_os sample_daemon Linux sample_events Map.empty sample_world
      = ([(1, Some (SvidReply (Inr (svid # svids))))], Some BySignal, w1)"
    by (simp add: sample_events_def sample_peer f)
  with b show thesis
    by (intro that) (simp add: sample_main_def hired_main_def start_hired_def sample_new_signer sample_socket_path
        hired_run_def sample_daemon_def [symmetric])
qed

theorem svid_goes_to_the_attested_executable_witness:
  "\<exists>svids svid root. (1, Some (SvidReply (Inr svids))) \<in> set (fst (snd sample_main)) \<and> svid \<in> set svids
     \<and> sv_spiffe_id svid = uri (pseudonymous_id daemon_lib sample_signer root (BinarySha256 (replicate 32 1)))"
proof -
  obtain svid svids m' w' where
    r: "sample_main = (Some (Inr ()), [(1, Some (SvidReply (Inr (svid # svids))))], m', w')" by (rule sample_main_run)
  from svid_goes_to_the_attested_executable [OF r [unfolded sample_main_def], of 1 "svid # svids" svid]
  obtain root where "sv_spiffe_id svid = uri (pseudonymous_id daemon_lib sample_signer root (BinarySha256 (replicate 32 1)))"
    by (auto simp: sample_new_signer daemon_lib_def [THEN arg_cong, of sha256] sample_lib_def)
  then show ?thesis unfolding r by auto
qed

lemma sample_idle: "idle_machine sample_socket (ft_machine sample_fleet)"
  by (simp add: idle_machine_def initial_fleet_def sample_fleet_def sample_socket_def plain_def lock_path_def path_parent_def)

theorem daemon_can_be_started_again_witness:
  "(\<exists>ino m2. bind_listener (sample_env 6) (fst (snd (snd sample_main))) sample_socket = (Inr ino, m2))
     \<and> m_node (fst (snd (snd sample_main))) sample_socket = None"
proof -
  obtain svid svids m' w' where
    r: "sample_main = (Some (Inr ()), [(1, Some (SvidReply (Inr (svid # svids))))], m', w')" by (rule sample_main_run)
  obtain m1 where b: "bind_listener (sample_env 5) (ft_machine sample_fleet) sample_socket = (Inr 0, m1)"
    by (rule sample_bound)
  have env: "no_faults (sample_env p)" "pe_uid (sample_env p) = 1000" for p by (simp_all add: sample_env_def no_faults_def)
  from daemon_can_be_started_again [OF r [unfolded sample_main_def] sample_new_signer, unfolded sample_socket_path,
      OF b sample_idle env(1) [of 6]] env
  show ?thesis unfolding r by simp
qed

end
