(* ===== verification/Server_Spec.thy ===== *)
theory Server_Spec
  imports Server_Invariants
begin

text \<open>
  What the daemons promise together, as a system of three steps over two variables: who owns the
  socket, and who serves on it. Every interleaving of the daemons' system calls is a run of it.
\<close>

section \<open>The specification\<close>

record lease =
  ls_owner :: "nat option"
  ls_server :: "nat option"

inductive lease_step :: "lease \<Rightarrow> lease \<Rightarrow> bool" where
  acquire: "ls_owner a = None \<Longrightarrow> ls_server a = None \<Longrightarrow> lease_step a \<lparr>ls_owner = Some p, ls_server = None\<rparr>"
| publish: "ls_owner a = Some p \<Longrightarrow> ls_server a = None \<Longrightarrow> lease_step a \<lparr>ls_owner = Some p, ls_server = Some p\<rparr>"
| release: "ls_owner a = Some p \<Longrightarrow> lease_step a \<lparr>ls_owner = None, ls_server = None\<rparr>"

definition unleased :: lease where
  "unleased = \<lparr>ls_owner = None, ls_server = None\<rparr>"

text \<open>The owner is the daemon past the lock; the server is the one that serves.\<close>

definition represents :: "fleet \<Rightarrow> lease \<Rightarrow> bool" where
  "represents f a \<longleftrightarrow>
     (\<forall>p. holds (ft_pc f p) \<noteq> None \<longleftrightarrow> ls_owner a = Some p)
     \<and> (\<forall>p. (\<exists>ino. ft_pc f p = Serving ino) \<longleftrightarrow> ls_server a = Some p)"

section \<open>The simulation\<close>

fun serves :: "pc \<Rightarrow> bool" where
  "serves (Serving _) = True"
| "serves _ = False"

lemma serves_iff: "serves c \<longleftrightarrow> (\<exists>ino. c = Serving ino)"
  by (cases c) auto

lemma represents_serves:
  "represents f a \<longleftrightarrow> (\<forall>p. holds (ft_pc f p) \<noteq> None \<longleftrightarrow> ls_owner a = Some p) \<and> (\<forall>p. serves (ft_pc f p) \<longleftrightarrow> ls_server a = Some p)"
  by (simp add: represents_def serves_iff)

lemma serves_holds: "serves c \<Longrightarrow> holds c \<noteq> None"
  by (cases c) auto

lemma unheld_serves: "holds c = None \<Longrightarrow> \<not> serves c"
  using serves_holds by blast

lemma represents_None:
  assumes "represents f a" "ls_owner a = None"
  shows "ls_server a = None"
  using assms serves_holds unfolding represents_serves by (metis not_None_eq)

text \<open>
  What one daemon's step does to the lease: nothing, take it while nobody has it, begin to serve
  as its owner, or give it up.
\<close>

lemma lease_of_update:
  assumes rep: "represents f a" and pc: "ft_pc f' = (ft_pc f)(p := c)"
    and kinds: "holds c \<noteq> None \<longleftrightarrow> holds (ft_pc f p) \<noteq> None" "serves c \<longleftrightarrow> serves (ft_pc f p)"
  shows "represents f' a"
proof -
  have "holds (ft_pc f' q) \<noteq> None \<longleftrightarrow> holds (ft_pc f q) \<noteq> None" "serves (ft_pc f' q) \<longleftrightarrow> serves (ft_pc f q)" for q
    using kinds by (cases "q = p"; simp add: pc)+
  with rep show ?thesis unfolding represents_serves by blast
qed

lemma lease_acquired:
  assumes rep: "represents f a" and pc: "ft_pc f' = (ft_pc f)(p := c)" and c: "holds c \<noteq> None" "\<not> serves c"
    and free: "\<And>q. holds (ft_pc f q) = None"
  shows "\<exists>a'. lease_step\<^sup>=\<^sup>= a a' \<and> represents f' a'"
proof -
  have "ls_owner a = None" using rep free unfolding represents_serves by (metis not_None_eq)
  with represents_None [OF rep] have "lease_step a \<lparr>ls_owner = Some p, ls_server = None\<rparr>" by (intro acquire)
  moreover have "represents f' \<lparr>ls_owner = Some p, ls_server = None\<rparr>"
    unfolding represents_serves pc using c free unheld_serves by auto
  ultimately show ?thesis by blast
qed

lemma lease_published:
  assumes rep: "represents f a" and pc: "ft_pc f' = (ft_pc f)(p := c)"
    and c: "serves c" and was: "holds (ft_pc f p) \<noteq> None" "\<not> serves (ft_pc f p)"
  shows "\<exists>a'. lease_step\<^sup>=\<^sup>= a a' \<and> represents f' a'"
proof -
  from rep was(1) have owner: "ls_owner a = Some p" by (simp add: represents_serves)
  with rep was(2) have "ls_server a = None"
    unfolding represents_serves by (metis option.inject not_None_eq serves_holds)
  with owner have "lease_step a \<lparr>ls_owner = Some p, ls_server = Some p\<rparr>" by (intro publish)
  moreover have "represents f' \<lparr>ls_owner = Some p, ls_server = Some p\<rparr>"
    using rep owner c serves_holds [OF c] \<open>ls_server a = None\<close> unfolding represents_serves pc by auto
  ultimately show ?thesis by blast
qed

lemma lease_released:
  assumes rep: "represents f a" and pc: "ft_pc f' = (ft_pc f)(p := c)" and c: "holds c = None"
  shows "\<exists>a'. lease_step\<^sup>=\<^sup>= a a' \<and> represents f' a'"
proof (cases "holds (ft_pc f p) = None")
  case True
  with c serves_holds [of c] serves_holds [of "ft_pc f p"] have "represents f' a"
    by (intro lease_of_update [OF rep pc]) auto
  then show ?thesis by blast
next
  case False
  with rep have owner: "ls_owner a = Some p" by (simp add: represents_serves)
  then have "lease_step a \<lparr>ls_owner = None, ls_server = None\<rparr>" by (rule release)
  moreover have "represents f' \<lparr>ls_owner = None, ls_server = None\<rparr>"
    unfolding represents_serves pc
  proof (intro conjI allI)
    fix q
    have "holds (ft_pc f q) = None" if "q \<noteq> p" using rep owner that by (auto simp: represents_serves)
    with unheld_serves [OF c] unheld_serves [of "ft_pc f q"] c show "(holds (((ft_pc f)(p := c)) q) \<noteq> None) = (ls_owner \<lparr>ls_owner = None, ls_server = None\<rparr> = Some q)"
      "serves (((ft_pc f)(p := c)) q) = (ls_server \<lparr>ls_owner = None, ls_server = None\<rparr> = Some q)" by auto
  qed
  ultimately show ?thesis by blast
qed

lemma lease_advance:
  assumes inv: "lock_inv sock f" "lock_inv sock \<lparr>ft_machine = m, ft_pc = (ft_pc f)(p := c)\<rparr>" and rep: "represents f a"
    and step: "advance env sock (ft_pc f p, ft_machine f) = (c, m)"
  shows "\<exists>a'. lease_step\<^sup>=\<^sup>= a a' \<and> represents \<lparr>ft_machine = m, ft_pc = (ft_pc f)(p := c)\<rparr> a'"
proof (cases "holds c")
  case None
  then show ?thesis by (intro lease_released [OF rep]) simp_all
next
  case (Some ino)
  consider (kept) "holds (ft_pc f p) = Some ino" | (taken) "ft_pc f p = Locking ino"
    using advance_locks [OF step] Some by auto
  then show ?thesis
  proof cases
    case kept
    have "serves c" if "serves (ft_pc f p)"
    proof -
      from that obtain i where "ft_pc f p = Serving i" unfolding serves_iff by blast
      moreover from this step have "c = Serving i" by simp
      ultimately show ?thesis by simp
    qed
    then consider "serves c \<longleftrightarrow> serves (ft_pc f p)" | "serves c" "\<not> serves (ft_pc f p)" by blast
    then show ?thesis
    proof cases
      case 1
      with kept Some have "represents \<lparr>ft_machine = m, ft_pc = (ft_pc f)(p := c)\<rparr> a"
        by (intro lease_of_update [OF rep, where p = p and c = c]) simp_all
      then show ?thesis by blast
    qed (use kept in \<open>intro lease_published [OF rep], simp_all\<close>)
  next
    case taken
    have "\<not> serves c" using step taken by (auto simp: serves_iff dest!: then_go_Inr)
    moreover have "holds (ft_pc f q) = None" for q
    proof (cases "q = p")
      case False
      with lock_inv_exclusive [OF inv(2), of p ino q] Some show ?thesis by (metis fleet.select_convs(2) fun_upd_apply not_None_eq)
    qed (simp add: taken)
    ultimately show ?thesis using Some by (intro lease_acquired [OF rep]) simp_all
  qed
qed

lemma lease_dstep:
  assumes "lock_inv sock f" "represents f a" "dstep sock uid signals intruders f f'"
  shows "\<exists>a'. lease_step\<^sup>=\<^sup>= a a' \<and> represents f' a'"
  using assms(3)
proof (cases rule: dstep.cases)
  case (advances env p c m)
  with lease_advance [OF assms(1) _ assms(2) advances(4)] lock_inv_step [OF assms(1,3)] show ?thesis by simp
next
  case (intrudes dir owner perm)
  with assms(2) have "represents f' a" by (simp add: represents_def)
  then show ?thesis by blast
qed (simp_all only: lease_released [OF assms(2)] fleet.select_convs holds.simps)

interpretation exclusive: forward_simulation "initial_fleet sock" "dstep sock uid signals intruders" "lock_inv sock"
  "\<lambda>a. a = unleased" lease_step represents for sock uid signals intruders
proof
  show "\<exists>a. a = unleased \<and> represents f a" if "initial_fleet sock f" for f
    using that by (simp add: initial_fleet_def represents_serves unleased_def)
qed (rule lease_dstep)

section \<open>Property\<close>

text \<open>
  C6: the daemons together are one server at a time. Every run of any number of daemons, one
  system call at a time, with faults, signals, crashes and another user's directory in the way,
  is matched state by state by a run of the lease: it starts unleased, is acquired only when
  nobody has it, is served on by its owner alone, and goes to another daemon only after it has
  been released.
\<close>

theorem daemons_refine_the_lease:
  assumes "initial_fleet sock f" and "successively (dstep sock uid signals intruders) (f # fs)"
  shows "\<exists>as. successively lease_step\<^sup>=\<^sup>= (unleased # as) \<and> list_all2 represents (f # fs) (unleased # as)"
  using exclusive.run_simulated [OF assms] by blast

definition sample_run :: "fleet list" where
  "sample_run = map (\<lambda>n. (advance_in (sample_env 5) sample_sock ^^ Suc n) sample_fleet) [0..<7]"

lemma sample_run_steps: "successively (dstep sample_sock 1000 signals intruders) (sample_fleet # sample_run)"
proof -
  let ?run = "map (\<lambda>n. (advance_in (sample_env 5) sample_sock ^^ n) sample_fleet) [0..<8]"
  have step: "dstep sample_sock 1000 signals intruders g (advance_in (sample_env 5) sample_sock g)" for g
    using sample_uid [of 5] by (auto simp: advance_in_def intro: dstep.advances split: prod.split)
  have "[0..<8] = 0 # map Suc [0..<7]" by code_simp
  then have "sample_fleet # sample_run = ?run" by (simp add: sample_run_def)
  moreover have "successively (dstep sample_sock 1000 signals intruders) ?run"
    by (simp add: successively_conv_nth step del: upt_conv_Cons)
  ultimately show ?thesis by simp
qed

lemma sample_run_ends: "length sample_run = 7" "last sample_run = sample_serving"
  by (simp_all add: sample_run_def sample_serving_def last_map eval_nat_numeral)

theorem daemons_refine_the_lease_witness:
  "\<exists>as. successively lease_step\<^sup>=\<^sup>= (unleased # as) \<and> length as = 7 \<and> last as = \<lparr>ls_owner = Some 5, ls_server = Some 5\<rparr>"
proof -
  from daemons_refine_the_lease [OF sample_initial sample_run_steps] obtain as where
    as: "successively lease_step\<^sup>=\<^sup>= (unleased # as)" "list_all2 represents sample_run as" by auto
  then have len: "length as = 7" by (metis list_all2_lengthD sample_run_ends(1))
  then have "represents sample_serving (last as)"
    using as(2) sample_run_ends by (metis last_conv_nth length_0_conv lessI list_all2_conv_all_nth diff_Suc_1 numeral_eq_Suc pred_numeral_simps(3) zero_neq_numeral)
  moreover have "ft_pc sample_serving 5 = Serving 0" by (rule sample_serving_simps)
  ultimately have "ls_owner (last as) = Some 5" "ls_server (last as) = Some 5"
    unfolding represents_def by (metis holds.simps(4) option.distinct(1), metis)
  with as(1) len show ?thesis by (intro exI [of _ as]) simp
qed

end
