(* ===== verification/Spec2Isabelle.thy ===== *)
theory Spec2Isabelle
  imports Hired_Samples Server_Spec
begin

text \<open>
  \<^bold>\<open>Project Persona: the human identity daemon.\<close>

  \<open>hired\<close> runs as one user and answers the SPIFFE Workload API on a Unix socket. A program
  that connects is identified by the executable it runs; it asks for a token for an audience,
  and may name the identity it wants. The daemon asks its identity sources what they can see,
  has them prove it against a fresh challenge, derives a claim from the evidence, checks the
  audience's policy and signs a short-lived JWT-SVID whose subject is a pseudonym, different for
  every program. \<open>hire\<close> is the command-line client, \<open>hire-nmh\<close> connects a browser extension.

  \<^bold>\<open>Theories and sources.\<close> Paths are under \<open>src/\<close>.

  \<^item> \<open>Prelude\<close>, \<open>Bytes\<close>, \<open>Json\<close>, \<open>Host\<close>: the parts of the standard library and of the machine the
    sources use: results, text, integers, byte orders, lossy UTF-8, clocks, sockets, processes.
  \<^item> \<open>Interfaces\<close> (and \<open>Bytes\<close>, \<open>Host\<close>, \<open>Trust_Bundle\<close>): the locales. \<open>text_form\<close> and
    \<open>exact_text_form\<close>: \<open>Display\<close> with \<open>FromStr\<close>; \<open>requirement\<close>: demands that fold to the strictest;
    \<open>framing\<close>: length-prefixed messages; \<open>bundle_store\<close>: the store; \<open>sound_prover\<close> and
    \<open>presenceless_prover\<close>: what a proof entitles to; \<open>inductive_invariant\<close> with \<open>derived_invariant\<close>: what
    a step relation keeps; \<open>forward_simulation\<close>: runs matched by an abstract system;
    \<open>shared_invariant\<close>: what components that take turns on a shared state keep. Each is interpreted on the model's own definitions where they are declared.
  \<^item> \<open>Assurance\<close>, \<open>Spiffe_Id\<close>, \<open>Audience\<close>, \<open>Hint\<close>, \<open>Consumer\<close>, \<open>Signer\<close>, \<open>Trust_Bundle\<close>:
    \<open>hire-core/src/\<close>, one theory per module (\<open>Consumer\<close> has \<open>pseudonym.rs\<close>, \<open>Signer\<close> has \<open>hvid.rs\<close>).
  \<^item> \<open>Claim\<close>, \<open>Verify\<close>: \<open>hire-attestors/src/lib.rs\<close> and \<open>claim.rs\<close>: candidates, evidence, the
    derivation of a claim, the verifying constructors.
  \<^item> \<open>Ssh_Agent\<close>, \<open>Did_Codec\<close>, \<open>Gpg_Tool\<close>, \<open>Key_Attestors\<close>, \<open>Account_Attestors\<close>, \<open>Tailscale\<close>,
    \<open>Registry\<close>: the attestors of \<open>hire-attestors/src/\<close> and the order they are asked in.
  \<^item> \<open>Service\<close>: the handlers of \<open>hire-grpc/src/service.rs\<close>. \<open>Service_Policy\<close>, \<open>Service_Choice\<close>,
    \<open>Service_Reply\<close>, \<open>Service_Validate\<close> and \<open>Service_Bundles\<close> hold what they guarantee about policy,
    about consent and order, about the whole reply as a function of the proven claims, about
    validation, and about the published bundles. \<open>Service_Steps\<close> has \<open>fetch_jwtsvid\<close> one await at a
    time, and any number of calls that take turns on one machine.
  \<^item> \<open>Peer_Attest\<close>, \<open>Socket\<close>, \<open>Server\<close>: \<open>hire-grpc/src/consumer_attest.rs\<close>, \<open>socket.rs\<close>,
    \<open>server.rs\<close>. \<open>Server_Fleet\<close> interleaves any number of daemons one system call at a time, with
    signals, crashes and another user; \<open>Server_Invariants\<close> has what holds of every reachable
    state; \<open>Server_Spec\<close> the abstract lease on the socket that every run refines.
  \<^item> \<open>Daemon\<close>: \<open>hired/src/main.rs\<close>, the service on the sources that ship. \<open>Hired\<close>: its whole run,
    from the key to the clean-up, over a list of events (connections accepted, calls, signals, the
    end of the transport); there the calls are handled one after the other. \<open>Nmh\<close>:
    \<open>hire-nmh/src/main.rs\<close>. \<open>Cli\<close>: \<open>hire/src/main.rs\<close>.
  \<^item> \<open>Service_Samples\<close>, \<open>Attestor_Samples\<close>, \<open>Daemon_Samples\<close>, \<open>Hired_Samples\<close>: a small service,
    machine, daemon and run on which the properties are applied. This theory: the properties that span the components.

  \<^bold>\<open>How the code is modelled.\<close> A struct is a record and an enum a datatype. A fallible function
  returns a sum, the error on the left. A method of an attestor is a function of the world
  it acts on and returns the world after it; the world is a type variable for the service, and
  a clock-driven sequence of moments of the machine for the shipped attestors. A panic of the signer
  is \<open>None\<close>. Machine integers keep their width. The file system and the lock table that start-up
  touches are a \<open>machine\<close>; a system call is a function on it that the environment may make fail.
  Loops are recursive functions with proved termination. Where the code retries, the bound is its own:
  the account lookup doubles its buffer up to one mebibyte, the base58 decoder has a buffer of 34
  bytes. A symbolic link is followed forty times, as Linux does.

  \<^bold>\<open>Parameters.\<close> Third-party code is an argument: \<open>crypto_lib\<close> (SHA-256, HKDF, base64, P-256, the
  JWT and JWKS crates), \<open>attest_lib\<close> (the same for the attestors, with ed25519 and the JSON parser),
  the programs and sockets of a \<open>host\<close>, the derived JSON code of the browser protocol. What a
  property needs of it is a named hypothesis (\<open>token_law\<close>, \<open>jwks_law\<close>) that a sample satisfies.

  \<^bold>\<open>What is shown.\<close>

  \<^item> Policy: the reply is exactly what the policy grants, audience by audience, of the proven
    claims; every issued SVID meets every audience of its request; a source that fails is ignored; an accepted audience string
    ignores nothing in the policy namespace; requests are refused before any effect.
  \<^item> Consent: a request that names no identity, a browser's always, proves only silent
    candidates; a named one proves exactly one, the named one. In every interleaving of calls each reply is its
    own caller's, no proof runs that no caller consented to, and every call ends; a call alone is the
    handler.
  \<^item> Evidence: a claim exists exactly when evidence is bound to the challenge and the candidate,
    and its levels are those of that evidence; an issuer's domain comes only from a verified token;
    the verifying constructors and the attestors check what they say.
  \<^item> Tokens: the published bundles validate what the daemon's own do; what the daemon issues it
    validates, only under the key of the domain the token
    names, and rejections are alike; the subject is a pseudonym that collides only if HKDF does.
  \<^item> The daemon as it ships: it always has an identity to offer, never attests presence, gives
    out names its own parser reads, and validates its SVIDs exactly when they are local. In a whole run
    every SVID goes to the executable its connection was attested as, and after the run the daemon
    can be started again.
  \<^item> The socket: one daemon at a time, as a refinement of a lease that is acquired, served on and
    released; the one that serves is the one a client reaches; its
    directory is private; a free socket can be taken; the stepwise daemon is \<open>bind_listener\<close>. Two
    runs show that a signal and another user break the second and the third.
  \<^item> Parsers and codecs: SPIFFE IDs, hints, did:key, gpg listings, chunked bodies, frames.

  \<^bold>\<open>Not modelled.\<close> The gRPC transport (\<open>tonic\<close>, \<open>prost\<close>), the generated protobuf code and its
  build script; logging; the forwarding of reads and writes in \<open>AttestedStream\<close>; the
  awaits inside an attestor, whose answer is one step; the HTTP gateway, an empty stub in the source; zeroing of keys in memory; the
  variants of start-up for systems without Unix sockets, which the rest of the daemon does not
  support.
\<close>

section \<open>The running daemon\<close>

text \<open>The daemon's own bundle is the only one it holds after start-up.\<close>

lemma hired_bundle:
  "get_bundle (sv_bundles (hired_service clib alib devices h signer)) td
     = (if td = SshLocal then Some (local_bundle clib SshLocal signer) else None)"
  by (simp add: hired_service_def bundles.get_put bundles.get_empty local_bundle_def)

lemma decayed_NoPresence: "cl_presence cl = NoPresence \<Longrightarrow> decayed_presence cl age = NoPresence"
  by (simp add: decayed_presence_def split: option.splits)

text \<open>A claim the shipped sources prove: its levels and its domain, and its source when nobody named it.\<close>

lemma shipped_proven_claim:
  assumes "prove_requested (hired_service clib alib devices h signer) challenge requested w = (Inr claims, w')"
    and "cl \<in> set claims"
  shows "cl_presence cl = NoPresence \<and> cl_assurance cl \<noteq> Iaa3
    \<and> sid_trust_domain (cl_spiffe_id cl) \<in> {SshLocal, Tailscale}
    \<and> (requested = None \<longrightarrow> (cl_source cl, cl_assurance cl) \<in> {(''tailscale'', Iaa2), (''unix'', Iaa1)})"
proof -
  have "sv_attestors (hired_service clib alib devices h signer) = probe_sources alib devices h" by (simp add: hired_service_def)
  with prove_requested_from [OF assms] obtain a c w6 ev w7 w8 cs w9 where
    a: "a \<in> set (probe_sources alib devices h)" and prove: "at_prove a c challenge w6 = (Inr ev, w7)"
    and d: "derive c challenge ev = Some cl" and enum: "at_enumerate a w8 = (Inr cs, w9)" "c \<in> set cs"
    and silent: "requested = None \<longrightarrow> cand_proof_cost c = Silent" by auto
  from shipped_claim [OF a prove] d have "cl_presence cl = NoPresence"
    and lvl: "cl_assurance cl = (if at_name a = ''tailscale'' then Iaa2 else Iaa1)"
    and sid: "cl_spiffe_id cl = candidate_spiffe_id c" by auto
  moreover have "sid_trust_domain (cl_spiffe_id cl) \<in> {SshLocal, Tailscale}"
    using shipped_domain [OF a enum prove] by (simp add: sid)
  moreover from d have "cl_source cl = cand_source c" by (rule derive_cases)
  with shipped_silent_source [OF a enum _ prove] silent lvl
  have "requested = None \<longrightarrow> (cl_source cl, cl_assurance cl) \<in> {(''tailscale'', Iaa2), (''unix'', Iaa1)}" by auto
  ultimately show ?thesis by auto
qed

lemma shipped_svid_claim:
  assumes "fetch_jwtsvid clib os (hired_service clib alib devices h signer) peer req w = (Some (Inr svids), w')"
    and "svid \<in> set svids"
  obtains cl now exts consumer where "list_all2 (\<lambda>a e. parse_audience a = Inr e) (rq_audience req) exts"
    and "sv_hint svid = display_hint (issue_hint cl NoPresence (age_at cl now))" "strictest_presence exts = NoPresence"
    and "cl_assurance cl \<noteq> Iaa3"
    and "rq_spiffe_id req = [] \<longrightarrow> (cl_source cl, cl_assurance cl) \<in> {(''tailscale'', Iaa2), (''unix'', Iaa1)}"
    and "sv_spiffe_id svid = uri (pseudonymous_id clib signer (cl_spiffe_id cl) consumer)"
    and "sid_trust_domain (cl_spiffe_id cl) \<in> {SshLocal, Tailscale}"
proof -
  let ?sv = "hired_service clib alib devices h signer"
  from assms(1) obtain consumer exts requested challenge w1 claims w2 now w3 r where
    c: "check_request peer req = Inr (consumer, exts, requested)"
    and p: "prove_requested ?sv challenge requested w1 = (Inr claims, w2)"
    and i: "issue_all (\<lambda>cl. issue clib os (sv_signer ?sv) cl consumer (map audience exts)
           (strictest_presence exts) (tightest_age exts) now) claims [] None w3 = (Some (svids, r), w')"
    by (rule fetch_Inr)
  from issue_all_Inr [OF i assms(2)] obtain cl w4 w5 where cl: "cl \<in> set claims"
    and iss: "issue clib os (sv_signer ?sv) cl consumer (map audience exts)
           (strictest_presence exts) (tightest_age exts) now w4 = (Some (Inr svid), w5)" by auto
  from shipped_proven_claim [OF p cl] have none: "cl_presence cl = NoPresence" by simp
  from shipped_proven_claim [OF p cl] have "cl_assurance cl \<noteq> Iaa3" "sid_trust_domain (cl_spiffe_id cl) \<in> {SshLocal, Tailscale}"
    and unnamed: "requested = None \<Longrightarrow> (cl_source cl, cl_assurance cl) \<in> {(''tailscale'', Iaa2), (''unix'', Iaa1)}" by auto
  moreover from check_request_Inr [OF c] have "list_all2 (\<lambda>a e. parse_audience a = Inr e) (rq_audience req) exts"
    and "rq_spiffe_id req = [] \<Longrightarrow> requested = None" by (auto simp: parse_selector_def)
  moreover from issue_Inr [OF iss] none have "strictest_presence exts = NoPresence"
    "sv_hint svid = display_hint (issue_hint cl NoPresence (age_at cl now))"
    "sv_spiffe_id svid = uri (pseudonymous_id clib signer (cl_spiffe_id cl) consumer)"
    by (simp_all add: decayed_NoPresence hired_service_def)
  ultimately show thesis using unnamed by (intro that) auto
qed

lemma shipped_svid_id:
  assumes "fetch_jwtsvid clib os (hired_service clib alib devices h signer) peer req w = (Some (Inr svids), w')"
    and "svid \<in> set svids"
  shows "\<exists>sid digits. spiffe_id_from_str (sv_spiffe_id svid) = Inr sid \<and> uri sid = sv_spiffe_id svid
    \<and> sid_trust_domain sid \<in> {SshLocal, Tailscale}
    \<and> sid_path sid = ''pseudonym/'' @ digits \<and> list_all is_hex_char digits"
proof -
  from assms obtain cl :: claim and consumer where
    u: "sv_spiffe_id svid = uri (pseudonymous_id clib signer (cl_spiffe_id cl) consumer)"
    and dom: "sid_trust_domain (cl_spiffe_id cl) \<in> {SshLocal, Tailscale}"
    by (rule shipped_svid_claim) (rule that)
  let ?sid = "pseudonymous_id clib signer (cl_spiffe_id cl) consumer"
  let ?digits = "hex_bytes (case hkdf_input (pseudonym_ikm signer) (cl_spiffe_id cl) consumer of
    (s, i, f) \<Rightarrow> hkdf_sha256 clib s i f)"
  have sid: "?sid = new_spiffe_id (sid_trust_domain (cl_spiffe_id cl)) (''pseudonym/'' @ ?digits)"
    by (simp add: pseudonymous_id_def derive_pseudonymous_id_input)
  have "wf_spiffe_id ?sid" using dom by (auto simp: sid wf_spiffe_id_def)
  then have "spiffe_id_from_str (sv_spiffe_id svid) = Inr ?sid" by (simp add: u spiffe_id_text.from_str_iff)
  moreover have "list_all is_hex_char ?digits" by (simp add: list_all_iff hex_bytes_chars)
  ultimately show ?thesis using dom u by (intro exI [of _ ?sid] exI [of _ ?digits]) (simp add: sid)
qed

text \<open>
  C16: what the shipped daemon can vouch for. Every SVID it issues is tagged with no presence
  and an assurance below \<open>Iaa3\<close>, so a request in which any audience demands presence gets no
  SVID; and when the request names no identity, what is attested is a Tailscale login at
  \<open>Iaa2\<close> or the Unix account at \<open>Iaa1\<close>, never a key.
\<close>

theorem shipped_daemon_attests_no_presence:
  assumes "fetch_jwtsvid clib os (hired_service clib alib devices h signer) peer req w = (Some (Inr svids), w')"
    and "svid \<in> set svids"
  shows "(\<exists>cl now. sv_hint svid = display_hint (issue_hint cl NoPresence (age_at cl now)) \<and> cl_assurance cl \<noteq> Iaa3
      \<and> (rq_spiffe_id req = [] \<longrightarrow> (cl_source cl, cl_assurance cl) \<in> {(''tailscale'', Iaa2), (''unix'', Iaa1)}))
    \<and> (\<forall>a\<in>set (rq_audience req). \<exists>e. parse_audience a = Inr e \<and> require_presence e = NoPresence)"
proof -
  from assms obtain exts and cl :: claim and now where all: "list_all2 (\<lambda>a e. parse_audience a = Inr e) (rq_audience req) exts"
    and hint: "sv_hint svid = display_hint (issue_hint cl NoPresence (age_at cl now))"
    and none: "strictest_presence exts = NoPresence" and lvl: "cl_assurance cl \<noteq> Iaa3"
    and src: "rq_spiffe_id req = [] \<longrightarrow> (cl_source cl, cl_assurance cl) \<in> {(''tailscale'', Iaa2), (''unix'', Iaa1)}"
    by (rule shipped_svid_claim) (rule that)
  have "\<exists>e. parse_audience a = Inr e \<and> require_presence e = NoPresence" if "a \<in> set (rq_audience req)" for a
  proof -
    from all that have "\<exists>e\<in>set exts. parse_audience a = Inr e" by (induction rule: list_all2_induct) auto
    then obtain e where "e \<in> set exts" "parse_audience a = Inr e" by blast
    with strictest_presence_covers [of e exts] none show ?thesis by (simp add: le_NoPresence)
  qed
  with hint lvl src show ?thesis by blast
qed

theorem shipped_daemon_attests_no_presence_witness:
  "\<exists>svid cl now. sv_hint svid = display_hint (issue_hint cl NoPresence (age_at cl now))
     \<and> (cl_source cl, cl_assurance cl) \<in> {(''tailscale'', Iaa2), (''unix'', Iaa1)}
     \<and> (\<exists>svids w'. fetch_jwtsvid daemon_lib daemon_os sample_daemon (Some (SnapName ''x'')) (plain_request ''svc'') sample_world
          = (Some (Inr (svid # svids)), w'))"
proof -
  obtain svid svids w' where f: "fetch_jwtsvid daemon_lib daemon_os sample_daemon (Some (SnapName ''x''))
      (plain_request ''svc'') sample_world = (Some (Inr (svid # svids)), w')"
    by (rule sample_daemon_svid)
  from shipped_daemon_attests_no_presence [OF f [unfolded sample_daemon_def], of svid] f show ?thesis
    by (fastforce simp: plain_request_def)
qed



text \<open>
  C40: the names the shipped daemon gives out are well formed. The SPIFFE ID of every SVID is
  read by the strict parser; its trust domain is one of the two the sources use, its path
  \<open>pseudonym/\<close> and hexadecimal digits, and printing it gives the text back.
\<close>

theorem shipped_svid_ids_parse:
  assumes "fetch_jwtsvid clib os (hired_service clib alib devices h signer) peer req w = (Some (Inr svids), w')"
    and "svid \<in> set svids"
  shows "\<exists>sid digits. spiffe_id_from_str (sv_spiffe_id svid) = Inr sid \<and> uri sid = sv_spiffe_id svid
    \<and> sid_trust_domain sid \<in> {SshLocal, Tailscale}
    \<and> sid_path sid = ''pseudonym/'' @ digits \<and> list_all is_hex_char digits"
  using shipped_svid_id [OF assms] by blast

theorem shipped_svid_ids_parse_witness:
  "\<exists>svid svids w' sid. fetch_jwtsvid daemon_lib daemon_os sample_daemon (Some (SnapName ''x''))
       (plain_request ''svc'') sample_world = (Some (Inr (svid # svids)), w')
     \<and> spiffe_id_from_str (sv_spiffe_id svid) = Inr sid"
proof -
  obtain svid svids w' where f: "fetch_jwtsvid daemon_lib daemon_os sample_daemon (Some (SnapName ''x''))
      (plain_request ''svc'') sample_world = (Some (Inr (svid # svids)), w')"
    by (rule sample_daemon_svid)
  from shipped_svid_ids_parse [OF f [unfolded sample_daemon_def], of svid] f show ?thesis by fastforce
qed



text \<open>
  A process of another user gets nothing from the daemon. A connection whose kernel-reported
  uid differs from the daemon's is refused before any attestor, random number or clock is
  consulted, whatever it asks for: the world is as it was.
\<close>

theorem foreign_uid_is_refused:
  assumes "cred_uid u \<noteq> kn_uid k"
  shows "serve_connection clib os sv pf k (Inr u) req w
    = (Some (Inl (Unauthenticated, ''consumer could not be attested'')), w)"
  using assms by (simp add: serve_connection_def accept_peer_def attest_peer_def fetch_jwtsvid_def check_request_def)

theorem foreign_uid_is_refused_witness:
  "serve_connection daemon_lib daemon_os sample_daemon Linux
     \<lparr>kn_uid = 1000, kn_read_link = (\<lambda>_. None), kn_pidpath = (\<lambda>_. (0, [])), kn_open = (\<lambda>_. None)\<rparr>
     (Inr \<lparr>cred_uid = 1001, cred_pid = Some 7\<rparr>) (plain_request ''svc'') sample_world
   = (Some (Inl (Unauthenticated, ''consumer could not be attested'')), sample_world)"
  by (rule foreign_uid_is_refused) simp

section \<open>The browser\<close>

text \<open>The native messaging host connected to the service; a panic drops the connection.\<close>

definition daemon_call ::
  "crypto_lib \<Rightarrow> 'w os \<Rightarrow> 'w workload_service \<Rightarrow> consumer_identity option \<Rightarrow> jwtsvid_request \<Rightarrow> 'w
    \<Rightarrow> daemon_reply \<times> 'w" where
  "daemon_call lib os sv peer req w =
     (case fetch_jwtsvid lib os sv peer req w of
        (Some (Inr svids), w') \<Rightarrow> (Svids svids, w')
      | (_, w') \<Rightarrow> (RpcFailed, w'))"



end
